theory Spec2Isabelle
  imports Complex_Main "HOL-Library.AList"
begin

section \<open>JSON values and the JavaScript primitives the relay relies on\<close>

text \<open>
  Request and response bodies are the results of \<^verbatim>\<open>JSON.parse\<close>.  An object is the
  list of its own properties in enumeration order; property names are distinct in
  what \<^verbatim>\<open>JSON.parse\<close> returns.  Numbers are the integers (token counts, lengths);
  fractions are outside the model.  A string is the list of its UTF-16 code units, so
  \<open>length\<close> is the \<^verbatim>\<open>.length\<close> of JavaScript.
\<close>

datatype json =
    JNull
  | JBool bool
  | JNum int
  | JStr string
  | JArr "json list"
  | JObj "(string \<times> json) list"

text \<open>
  \<open>TypeError\<close> is the exception JavaScript raises on a property read of \<^verbatim>\<open>null\<close>
  or \<^verbatim>\<open>undefined\<close>, or on a property write to a primitive in strict mode.
  \<open>NotModelled\<close> marks the inputs on which the source would coerce a string, an
  array or an object to a number or concatenate strings with \<^verbatim>\<open>+\<close>: the model
  says nothing about them.
\<close>

datatype error = TypeError | NotModelled

text \<open>A JavaScript number: an integer or \<^verbatim>\<open>NaN\<close>.\<close>

datatype jsnum = Num int | NaN

text \<open>What \<^verbatim>\<open>countInputTokens\<close> hands back: a value read from a parsed reply, or a
  number it computed.\<close>

datatype jsval = OfJson json | OfNum jsnum

text \<open>\<^verbatim>\<open>if (v)\<close>: the falsy values of JavaScript that JSON can carry.\<close>

fun truthy :: "json \<Rightarrow> bool" where
  "truthy JNull = False"
| "truthy (JBool b) = b"
| "truthy (JNum n) = (n \<noteq> 0)"
| "truthy (JStr s) = (s \<noteq> [])"
| "truthy (JArr xs) = True"
| "truthy (JObj kvs) = True"

text \<open>\<^verbatim>\<open>if (o.k)\<close> for a property read whose result may be \<^verbatim>\<open>undefined\<close> (\<open>None\<close>).\<close>

fun truthy_opt :: "json option \<Rightarrow> bool" where
  "truthy_opt None = False"
| "truthy_opt (Some v) = truthy v"

text \<open>
  \<^verbatim>\<open>v.k\<close> for a value \<open>v\<close> that is not \<^verbatim>\<open>null\<close> and a name \<open>k\<close> that no string,
  number, boolean or array carries by itself (every name read by the relay but
  \<^verbatim>\<open>length\<close>): only an object can answer.
\<close>

fun get :: "string \<Rightarrow> json \<Rightarrow> json option" where
  "get k (JObj kvs) = map_of kvs k"
| "get k v = None"

text \<open>\<^verbatim>\<open>v.length\<close> for a value that is not \<^verbatim>\<open>null\<close>.\<close>

fun length_of :: "json \<Rightarrow> json option" where
  "length_of (JStr s) = Some (JNum (int (length s)))"
| "length_of (JArr xs) = Some (JNum (int (length xs)))"
| "length_of (JObj kvs) = map_of kvs ''length''"
| "length_of v = None"

text \<open>
  \<^verbatim>\<open>totalChars += x\<close> for a numeric \<^verbatim>\<open>totalChars\<close>: \<^verbatim>\<open>undefined\<close> turns the sum
  into \<^verbatim>\<open>NaN\<close>, \<^verbatim>\<open>null\<close> counts 0, \<^verbatim>\<open>true\<close> counts 1; a string, array or object
  operand would make \<^verbatim>\<open>+\<close> a concatenation.
\<close>

fun plus_eq :: "jsnum \<Rightarrow> json option \<Rightarrow> error + jsnum" where
  "plus_eq a None = Inr NaN"
| "plus_eq a (Some (JNum n)) = Inr (case a of Num m \<Rightarrow> Num (m + n) | NaN \<Rightarrow> NaN)"
| "plus_eq a (Some JNull) = Inr a"
| "plus_eq a (Some (JBool b)) =
     Inr (case a of Num m \<Rightarrow> Num (m + (if b then 1 else 0)) | NaN \<Rightarrow> NaN)"
| "plus_eq a (Some v) = Inl NotModelled"

text \<open>\<^verbatim>\<open>Math.ceil(t / 3.5)\<close>.\<close>

fun ceil_3_5 :: "jsnum \<Rightarrow> jsnum" where
  "ceil_3_5 (Num n) = Num \<lceil>real_of_int n / 3.5\<rceil>"
| "ceil_3_5 NaN = NaN"

section \<open>Token counter (tokenCountService.js)\<close>

text \<open>
  The two inner loops of \<^verbatim>\<open>_estimateTokenCount\<close>, over the items of an array
  \<^verbatim>\<open>message.content\<close> and over the items of an array \<^verbatim>\<open>system\<close>, have the same
  body: \<^verbatim>\<open>if (item.type === 'text' && item.text) totalChars += item.text.length\<close>.
  A \<^verbatim>\<open>null\<close> item raises on \<^verbatim>\<open>item.type\<close>.
\<close>

fun count_items :: "jsnum \<Rightarrow> json list \<Rightarrow> error + jsnum" where
  "count_items a [] = Inr a"
| "count_items a (c # cs) =
     (if c = JNull then Inl TypeError
      else if get ''type'' c = Some (JStr ''text'') \<and> truthy_opt (get ''text'' c)
      then (case get ''text'' c of
              None \<Rightarrow> count_items a cs
            | Some t \<Rightarrow>
                (case plus_eq a (length_of t) of
                   Inl e \<Rightarrow> Inl e
                 | Inr a' \<Rightarrow> count_items a' cs))
      else count_items a cs)"

text \<open>The loop over \<^verbatim>\<open>requestBody.messages\<close>; a \<^verbatim>\<open>null\<close> message raises on
  \<^verbatim>\<open>message.content\<close>.\<close>

fun count_messages :: "jsnum \<Rightarrow> json list \<Rightarrow> error + jsnum" where
  "count_messages a [] = Inr a"
| "count_messages a (m # ms) =
     (if m = JNull then Inl TypeError
      else (case get ''content'' m of
              Some (JStr s) \<Rightarrow>
                (if s = [] then count_messages a ms
                 else (case plus_eq a (length_of (JStr s)) of
                         Inl e \<Rightarrow> Inl e
                       | Inr a' \<Rightarrow> count_messages a' ms))
            | Some (JArr cs) \<Rightarrow>
                (case count_items a cs of
                   Inl e \<Rightarrow> Inl e
                 | Inr a' \<Rightarrow> count_messages a' ms)
            | _ \<Rightarrow> count_messages a ms))"

text \<open>The body of the \<^verbatim>\<open>try\<close> block of \<^verbatim>\<open>_estimateTokenCount\<close> up to the division:
  the value of \<^verbatim>\<open>totalChars\<close>, or the exception.\<close>

definition totalChars :: "json \<Rightarrow> error + jsnum" where
  "totalChars requestBody =
     (if requestBody = JNull then Inl TypeError
      else
        (case (case get ''messages'' requestBody of
                 Some (JArr ms) \<Rightarrow> count_messages (Num 0) ms
               | _ \<Rightarrow> Inr (Num 0)) of
           Inl e \<Rightarrow> Inl e
         | Inr a \<Rightarrow>
             (case get ''system'' requestBody of
                Some (JStr s) \<Rightarrow> (if s = [] then Inr a else plus_eq a (length_of (JStr s)))
              | Some (JArr items) \<Rightarrow> count_items a items
              | _ \<Rightarrow> Inr a)))"

text \<open>\<^verbatim>\<open>_estimateTokenCount\<close>: the \<^verbatim>\<open>catch\<close> turns every exception into 500.\<close>

definition estimateTokenCount :: "json \<Rightarrow> error + jsnum" where
  "estimateTokenCount requestBody =
     (case totalChars requestBody of
        Inl TypeError \<Rightarrow> Inr (Num 500)
      | Inl NotModelled \<Rightarrow> Inl NotModelled
      | Inr t \<Rightarrow> Inr (ceil_3_5 t))"

text \<open>
  The outcome of the upstream round trip inside \<^verbatim>\<open>countInputTokens\<close>
  (\<^verbatim>\<open>getValidAccessToken\<close>, then \<^verbatim>\<open>_makeTokenCountRequest\<close>): \<open>CallFailed\<close> when a
  promise rejects (no token, network error, timeout, a status other than 200, a body
  that does not parse), \<open>Reply d\<close> when the status is 200 and the body parses to \<open>d\<close>.
\<close>

datatype count_reply = CallFailed | Reply json

text \<open>
  \<^verbatim>\<open>countInputTokens\<close>.  \<^verbatim>\<open>requestBody.model\<close> is read before the call, so a
  \<^verbatim>\<open>null\<close> body raises there; a \<^verbatim>\<open>null\<close> reply raises on
  \<^verbatim>\<open>response.input_tokens\<close>.  Every exception of the \<^verbatim>\<open>try\<close> block ends in the
  estimator.
\<close>

definition countInputTokens :: "count_reply \<Rightarrow> json \<Rightarrow> error + jsval" where
  "countInputTokens reply requestBody =
     (let fallback = (case estimateTokenCount requestBody of
                        Inl e \<Rightarrow> Inl e
                      | Inr n \<Rightarrow> Inr (OfNum n))
      in if requestBody = JNull then fallback
         else (case reply of
                 CallFailed \<Rightarrow> fallback
               | Reply response \<Rightarrow>
                   (if response = JNull then fallback
                    else (case get ''input_tokens'' response of
                            None \<Rightarrow> Inr (OfJson (JNum 0))
                          | Some v \<Rightarrow> Inr (OfJson (if truthy v then v else JNum 0))))))"

text \<open>\<^verbatim>\<open>typeof v === 'number'\<close> for what \<^verbatim>\<open>countInputTokens\<close> returns.\<close>

fun is_number :: "jsval \<Rightarrow> bool" where
  "is_number (OfNum n) = True"
| "is_number (OfJson (JNum n)) = True"
| "is_number (OfJson v) = False"

subsection \<open>The estimate as the specification words it\<close>

text \<open>
  The sum of the character counts of every string content and text-typed content
  object in \<^verbatim>\<open>messages[*].content\<close> and of the system field (a string, or the
  text-typed items of an array).
\<close>

definition spec_item_chars :: "json \<Rightarrow> nat" where
  "spec_item_chars c =
     (case (get ''type'' c, get ''text'' c) of
        (Some (JStr ty), Some (JStr t)) \<Rightarrow> (if ty = ''text'' then length t else 0)
      | _ \<Rightarrow> 0)"

definition spec_content_chars :: "json option \<Rightarrow> nat" where
  "spec_content_chars v =
     (case v of
        Some (JStr s) \<Rightarrow> length s
      | Some (JArr cs) \<Rightarrow> sum_list (map spec_item_chars cs)
      | _ \<Rightarrow> 0)"

definition spec_total_chars :: "json \<Rightarrow> nat" where
  "spec_total_chars body =
     (case get ''messages'' body of
        Some (JArr ms) \<Rightarrow> sum_list (map (\<lambda>m. spec_content_chars (get ''content'' m)) ms)
      | _ \<Rightarrow> 0)
     + spec_content_chars (get ''system'' body)"

definition spec_estimate :: "json \<Rightarrow> int" where
  "spec_estimate body = \<lceil>real (spec_total_chars body) / 3.5\<rceil>"

text \<open>
  The bodies on which the estimator neither raises nor leaves the integers: no
  \<^verbatim>\<open>null\<close> entry in \<^verbatim>\<open>messages\<close>, in an array content or in an array
  \<^verbatim>\<open>system\<close>, and the text of every text-typed item is a string (or is falsy, and
  skipped).
\<close>

fun plain_item :: "json \<Rightarrow> bool" where
  "plain_item c =
     (c \<noteq> JNull \<and>
      (get ''type'' c = Some (JStr ''text'') \<longrightarrow>
         (case get ''text'' c of
            None \<Rightarrow> True
          | Some (JStr t) \<Rightarrow> True
          | Some v \<Rightarrow> \<not> truthy v)))"

fun plain_message :: "json \<Rightarrow> bool" where
  "plain_message m =
     (m \<noteq> JNull \<and>
      (case get ''content'' m of
         Some (JArr cs) \<Rightarrow> list_all plain_item cs
       | _ \<Rightarrow> True))"

definition plain_body :: "json \<Rightarrow> bool" where
  "plain_body body =
     (body \<noteq> JNull \<and>
      (case get ''messages'' body of
         Some (JArr ms) \<Rightarrow> list_all plain_message ms
       | _ \<Rightarrow> True) \<and>
      (case get ''system'' body of
         Some (JArr items) \<Rightarrow> list_all plain_item items
       | _ \<Rightarrow> True))"

section \<open>Response shaper (claudeRelayService.js)\<close>

text \<open>\<^verbatim>\<open>x || 0\<close> for a property read \<open>x\<close>.\<close>

fun or0 :: "json option \<Rightarrow> json" where
  "or0 None = JNum 0"
| "or0 (Some v) = (if truthy v then v else JNum 0)"

text \<open>\<^verbatim>\<open>v > 14 ? v - 14 : v\<close>: \<^verbatim>\<open>null\<close> and the booleans compare as 0 and 1 and are
  returned as they are.\<close>

fun minus14 :: "json \<Rightarrow> error + json" where
  "minus14 (JNum n) = Inr (JNum (if n > 14 then n - 14 else n))"
| "minus14 JNull = Inr JNull"
| "minus14 (JBool b) = Inr (JBool b)"
| "minus14 v = Inl NotModelled"

text \<open>The number a primitive operand of \<^verbatim>\<open>+\<close> stands for.\<close>

fun to_number :: "json \<Rightarrow> error + int" where
  "to_number (JNum n) = Inr n"
| "to_number JNull = Inr 0"
| "to_number (JBool b) = Inr (if b then 1 else 0)"
| "to_number v = Inl NotModelled"

text \<open>\<^verbatim>\<open>a + b\<close> on numbers, booleans and \<^verbatim>\<open>null\<close>.\<close>

definition js_add :: "json \<Rightarrow> json \<Rightarrow> error + json" where
  "js_add a b =
     (case to_number a of
        Inl e \<Rightarrow> Inl e
      | Inr x \<Rightarrow> (case to_number b of Inl e \<Rightarrow> Inl e | Inr y \<Rightarrow> Inr (JNum (x + y))))"

text \<open>\<^verbatim>\<open>s.startsWith(p)\<close>.\<close>

definition starts_with :: "string \<Rightarrow> string \<Rightarrow> bool" where
  "starts_with p s = (take (length p) s = p)"

text \<open>\<^verbatim>\<open>s.replace(pat, rep)\<close> for a string pattern and a replacement without
  \<^verbatim>\<open>$\<close>: the first occurrence is replaced.\<close>

fun replace_first :: "string \<Rightarrow> string \<Rightarrow> string \<Rightarrow> string" where
  "replace_first pat rep [] = (if pat = [] then rep else [])"
| "replace_first pat rep (c # cs) =
     (if starts_with pat (c # cs) then rep @ drop (length pat) (c # cs)
      else c # replace_first pat rep cs)"

text \<open>The decimal name of an array index.\<close>

fun dec :: "nat \<Rightarrow> string" where
  "dec n =
     (if n < 10 then [char_of (48 + n)]
      else dec (n div 10) @ [char_of (48 + n mod 10)])"

text \<open>\<^verbatim>\<open>typeof v === 'object'\<close> for a truthy \<open>v\<close>.\<close>

fun is_object :: "json \<Rightarrow> bool" where
  "is_object (JObj kvs) = True"
| "is_object (JArr xs) = True"
| "is_object v = False"

text \<open>The own enumerable properties an object spread \<^verbatim>\<open>{...v}\<close> copies: an array
  contributes its indices.\<close>

fun spread :: "json \<Rightarrow> (string \<times> json) list" where
  "spread (JObj kvs) = kvs"
| "spread (JArr xs) = zip (map dec [0..<length xs]) xs"
| "spread v = []"

text \<open>
  The usage rewrite of \<^verbatim>\<open>_modifyResponseForBedrock\<close>, written twice in the source
  (for \<^verbatim>\<open>usage\<close> and for \<^verbatim>\<open>message.usage\<close>) with the same body.  The object
  literal lists the spread first and then the keys in the order kept here.
\<close>

definition bedrock_usage :: "string \<Rightarrow> json \<Rightarrow> error + json" where
  "bedrock_usage keyType usage =
     (let originalInputTokens = or0 (get ''input_tokens'' usage);
          originalCacheRead = or0 (get ''cache_read_input_tokens'' usage);
          originalCacheCreation = or0 (get ''cache_creation_input_tokens'' usage)
      in if keyType = ''aws'' then
           (case minus14 originalInputTokens of
              Inl e \<Rightarrow> Inl e
            | Inr v \<Rightarrow>
                Inr (JObj (AList.update ''input_tokens'' v
                      (AList.update ''cache_read_input_tokens'' originalCacheRead
                        (AList.update ''cache_creation_input_tokens'' originalCacheCreation
                          (spread usage))))))
         else if keyType = ''databricks'' then
           (case js_add originalInputTokens originalCacheRead of
              Inl e \<Rightarrow> Inl e
            | Inr s \<Rightarrow>
                (case js_add s originalCacheCreation of
                   Inl e \<Rightarrow> Inl e
                 | Inr totalInputTokens \<Rightarrow>
                     (case minus14 totalInputTokens of
                        Inl e \<Rightarrow> Inl e
                      | Inr v \<Rightarrow>
                          Inr (JObj (AList.update ''input_tokens'' v
                                (AList.update ''cache_read_input_tokens'' (JNum 0)
                                  (AList.update ''cache_creation_input_tokens'' (JNum 0)
                                    (spread usage))))))))
         else
           (case minus14 originalInputTokens of
              Inl e \<Rightarrow> Inl e
            | Inr v \<Rightarrow> Inr (JObj (AList.update ''input_tokens'' v (spread usage)))))"

text \<open>The callback of \<^verbatim>\<open>content.map\<close>: \<^verbatim>\<open>item.type\<close> raises on a \<^verbatim>\<open>null\<close> item.\<close>

definition bedrock_item :: "json \<Rightarrow> error + json" where
  "bedrock_item item =
     (if item = JNull then Inl TypeError
      else (case (get ''type'' item, get ''id'' item) of
              (Some (JStr ty), Some (JStr i)) \<Rightarrow>
                (if ty = ''tool_use'' \<and> i \<noteq> [] \<and> starts_with ''toolu_'' i
                 then Inr (JObj (AList.update ''id''
                        (JStr (replace_first ''toolu_'' ''toolu_bdrk_'' i)) (spread item)))
                 else Inr item)
            | _ \<Rightarrow> Inr item))"

fun bedrock_content :: "json list \<Rightarrow> error + json list" where
  "bedrock_content [] = Inr []"
| "bedrock_content (item # items) =
     (case bedrock_item item of
        Inl e \<Rightarrow> Inl e
      | Inr item' \<Rightarrow>
          (case bedrock_content items of
             Inl e \<Rightarrow> Inl e
           | Inr items' \<Rightarrow> Inr (item' # items')))"

text \<open>The six steps of \<^verbatim>\<open>_modifyResponseForBedrock\<close> on the shallow copy
  \<^verbatim>\<open>modifiedData\<close>, in the order of the source.\<close>

definition bedrock_id :: "(string \<times> json) list \<Rightarrow> (string \<times> json) list" where
  "bedrock_id md =
     (case map_of md ''id'' of
        Some (JStr i) \<Rightarrow>
          (if i \<noteq> [] \<and> starts_with ''msg_'' i
           then AList.update ''id'' (JStr (replace_first ''msg_'' ''msg_bdrk_'' i)) md
           else md)
      | _ \<Rightarrow> md)"

definition bedrock_message_id :: "(string \<times> json) list \<Rightarrow> (string \<times> json) list" where
  "bedrock_message_id md =
     (case map_of md ''message'' of
        Some (JObj msg) \<Rightarrow>
          (case map_of msg ''id'' of
             Some (JStr i) \<Rightarrow>
               (if i \<noteq> [] \<and> starts_with ''msg_'' i
                then AList.update ''message''
                       (JObj (AList.update ''id''
                          (JStr (replace_first ''msg_'' ''msg_bdrk_'' i)) msg)) md
                else md)
           | _ \<Rightarrow> md)
      | _ \<Rightarrow> md)"

definition bedrock_content_step ::
  "(string \<times> json) list \<Rightarrow> error + (string \<times> json) list" where
  "bedrock_content_step md =
     (case map_of md ''content'' of
        Some (JArr items) \<Rightarrow>
          (case bedrock_content items of
             Inl e \<Rightarrow> Inl e
           | Inr items' \<Rightarrow> Inr (AList.update ''content'' (JArr items') md))
      | _ \<Rightarrow> Inr md)"

definition bedrock_content_block :: "(string \<times> json) list \<Rightarrow> (string \<times> json) list" where
  "bedrock_content_block md =
     (case map_of md ''content_block'' of
        Some (JObj cb) \<Rightarrow>
          (case (map_of cb ''type'', map_of cb ''id'') of
             (Some (JStr ty), Some (JStr i)) \<Rightarrow>
               (if ty = ''tool_use'' \<and> i \<noteq> [] \<and> starts_with ''toolu_'' i
                then AList.update ''content_block''
                       (JObj (AList.update ''id''
                          (JStr (replace_first ''toolu_'' ''toolu_bdrk_'' i)) cb)) md
                else md)
           | _ \<Rightarrow> md)
      | _ \<Rightarrow> md)"

text \<open>\<^verbatim>\<open>if (md.usage && typeof md.usage === 'object') md.usage = rewrite(md.usage)\<close>,
  for the rewrite of the key type.\<close>

definition usage_step ::
  "(json \<Rightarrow> error + json) \<Rightarrow> (string \<times> json) list \<Rightarrow> error + (string \<times> json) list" where
  "usage_step rewrite md =
     (case map_of md ''usage'' of
        Some u \<Rightarrow>
          (if truthy u \<and> is_object u
           then (case rewrite u of
                   Inl e \<Rightarrow> Inl e
                 | Inr u' \<Rightarrow> Inr (AList.update ''usage'' u' md))
           else Inr md)
      | None \<Rightarrow> Inr md)"

text \<open>\<^verbatim>\<open>if (md.message && md.message.usage && typeof md.message.usage === 'object')
  md.message.usage = rewrite(md.message.usage)\<close>.  Only an object \<^verbatim>\<open>message\<close> can
  carry a \<^verbatim>\<open>usage\<close>.\<close>

definition message_usage_step ::
  "(json \<Rightarrow> error + json) \<Rightarrow> (string \<times> json) list \<Rightarrow> error + (string \<times> json) list" where
  "message_usage_step rewrite md =
     (case map_of md ''message'' of
        Some (JObj msg) \<Rightarrow>
          (case usage_step rewrite msg of
             Inl e \<Rightarrow> Inl e
           | Inr msg' \<Rightarrow>
               Inr (AList.update ''message'' (JObj msg') md))
      | _ \<Rightarrow> Inr md)"

definition modifyResponseForBedrock :: "json \<Rightarrow> string \<Rightarrow> error + json" where
  "modifyResponseForBedrock data keyType =
     (if \<not> truthy data \<or> \<not> is_object data then Inr data
      else
        (case bedrock_content_step (bedrock_message_id (bedrock_id (spread data))) of
           Inl e \<Rightarrow> Inl e
         | Inr md \<Rightarrow>
             (case usage_step (bedrock_usage keyType) (bedrock_content_block md) of
                Inl e \<Rightarrow> Inl e
              | Inr md' \<Rightarrow>
                  (case message_usage_step (bedrock_usage keyType) md' of
                     Inl e \<Rightarrow> Inl e
                   | Inr md'' \<Rightarrow> Inr (JObj md'')))))"

text \<open>The usage rewrite of \<^verbatim>\<open>_modifyResponseForClaudeCode\<close>.\<close>

definition claude_code_usage :: "json \<Rightarrow> error + json" where
  "claude_code_usage usage =
     (let originalInputTokens = or0 (get ''input_tokens'' usage)
      in (case minus14 originalInputTokens of
            Inl e \<Rightarrow> Inl e
          | Inr v \<Rightarrow> Inr (JObj (AList.update ''input_tokens'' v (spread usage)))))"

definition modifyResponseForClaudeCode :: "json \<Rightarrow> error + json" where
  "modifyResponseForClaudeCode data =
     (if \<not> truthy data \<or> \<not> is_object data then Inr data
      else
        (case usage_step claude_code_usage (spread data) of
           Inl e \<Rightarrow> Inl e
         | Inr md \<Rightarrow>
             (case message_usage_step claude_code_usage md of
                Inl e \<Rightarrow> Inl e
              | Inr md' \<Rightarrow> Inr (JObj md'))))"

section \<open>Stream shaper (claudeRelayService.js)\<close>

text \<open>\<^verbatim>\<open>s.split('\n')\<close> and \<^verbatim>\<open>lines.join('\n')\<close>.\<close>

fun split_lines :: "string \<Rightarrow> string list" where
  "split_lines [] = [[]]"
| "split_lines (c # cs) =
     (if c = CHR 0x0A then [] # split_lines cs
      else (case split_lines cs of
              [] \<Rightarrow> [[c]]
            | l # ls \<Rightarrow> (c # l) # ls))"

fun join_lines :: "string list \<Rightarrow> string" where
  "join_lines [] = []"
| "join_lines [l] = l"
| "join_lines (l # ls) = l @ CHR 0x0A # join_lines ls"

text \<open>\<^verbatim>\<open>s.trim()\<close>: the white space and line terminators among the code units
  below 256.\<close>

definition is_space :: "char \<Rightarrow> bool" where
  "is_space c =
     (c \<in> set [CHR 0x09, CHR 0x0A, CHR 0x0B, CHR 0x0C, CHR 0x0D, CHR 0x20, CHR 0xA0])"

definition trim :: "string \<Rightarrow> string" where
  "trim s = rev (dropWhile is_space (rev (dropWhile is_space s)))"

text \<open>\<^verbatim>\<open>line.startsWith('data: ') && line.length > 6\<close>, \<^verbatim>\<open>line.slice(6)\<close>, and the
  test for the payloads kept as they are.\<close>

definition is_data_line :: "string \<Rightarrow> bool" where
  "is_data_line line = (starts_with ''data: '' line \<and> 6 < length line)"

definition payload :: "string \<Rightarrow> string" where
  "payload line = drop 6 line"

definition is_marker :: "string \<Rightarrow> bool" where
  "is_marker jsonStr = (trim jsonStr = ''[DONE]'' \<or> trim jsonStr = [])"

text \<open>
  The callback of \<^verbatim>\<open>lines.map\<close> in \<^verbatim>\<open>_processStreamDataForBedrock\<close> and
  \<^verbatim>\<open>_processStreamDataForClaudeCode\<close>, which differ in the rewrite only.
  \<^verbatim>\<open>JSON.parse\<close> and \<^verbatim>\<open>JSON.stringify\<close> are parameters: \<open>parse s = None\<close> when
  \<^verbatim>\<open>JSON.parse\<close> raises.  The inner \<^verbatim>\<open>catch\<close> returns the line for every
  exception of its \<^verbatim>\<open>try\<close> block, a raising rewrite included.
\<close>

definition stream_line ::
  "(string \<Rightarrow> json option) \<Rightarrow> (json \<Rightarrow> string) \<Rightarrow> (json \<Rightarrow> error + json) \<Rightarrow>
   string \<Rightarrow> error + string" where
  "stream_line parse stringify rewrite line =
     (if is_data_line line then
        (let jsonStr = payload line
         in if is_marker jsonStr then Inr line
            else (case parse jsonStr of
                    None \<Rightarrow> Inr line
                  | Some data \<Rightarrow>
                      (case rewrite data of
                         Inl TypeError \<Rightarrow> Inr line
                       | Inl NotModelled \<Rightarrow> Inl NotModelled
                       | Inr modifiedData \<Rightarrow> Inr (''data: '' @ stringify modifiedData))))
      else Inr line)"

fun map_lines :: "(string \<Rightarrow> error + string) \<Rightarrow> string list \<Rightarrow> error + string list" where
  "map_lines f [] = Inr []"
| "map_lines f (l # ls) =
     (case f l of
        Inl e \<Rightarrow> Inl e
      | Inr l' \<Rightarrow> (case map_lines f ls of Inl e \<Rightarrow> Inl e | Inr ls' \<Rightarrow> Inr (l' # ls')))"

definition processStreamData ::
  "(string \<Rightarrow> json option) \<Rightarrow> (json \<Rightarrow> string) \<Rightarrow> (json \<Rightarrow> error + json) \<Rightarrow>
   string \<Rightarrow> error + string" where
  "processStreamData parse stringify rewrite sseData =
     (if sseData = [] then Inr sseData
      else (case map_lines (stream_line parse stringify rewrite) (split_lines sseData) of
              Inl e \<Rightarrow> Inl e
            | Inr processedLines \<Rightarrow> Inr (join_lines processedLines)))"

definition processStreamDataForBedrock ::
  "(string \<Rightarrow> json option) \<Rightarrow> (json \<Rightarrow> string) \<Rightarrow> string \<Rightarrow> string \<Rightarrow> error + string" where
  "processStreamDataForBedrock parse stringify sseData keyType =
     processStreamData parse stringify (\<lambda>data. modifyResponseForBedrock data keyType) sseData"

definition processStreamDataForClaudeCode ::
  "(string \<Rightarrow> json option) \<Rightarrow> (json \<Rightarrow> string) \<Rightarrow> string \<Rightarrow> error + string" where
  "processStreamDataForClaudeCode parse stringify sseData =
     processStreamData parse stringify modifyResponseForClaudeCode sseData"

text \<open>
  What the specification says of one line \<open>l\<close> and the line \<open>l'\<close> forwarded for it,
  for a rewrite \<open>rw\<close>: a data line with parseable JSON is parsed, rewritten,
  serialised again and prefixed again; a marker or empty payload, a line that is not a
  data line and a payload that does not parse go through unchanged.
\<close>

definition line_shaped ::
  "(string \<Rightarrow> json option) \<Rightarrow> (json \<Rightarrow> string) \<Rightarrow> (json \<Rightarrow> error + json) \<Rightarrow>
   string \<Rightarrow> string \<Rightarrow> bool" where
  "line_shaped parse stringify rw l l' =
     ((\<not> is_data_line l \<longrightarrow> l' = l) \<and>
      (is_data_line l \<and> is_marker (payload l) \<longrightarrow> l' = l) \<and>
      (is_data_line l \<and> parse (payload l) = None \<longrightarrow> l' = l) \<and>
      (\<forall>d d'. is_data_line l \<and> \<not> is_marker (payload l) \<and> parse (payload l) = Some d \<and>
               rw d = Inr d' \<longrightarrow> l' = ''data: '' @ stringify d'))"

section \<open>Request shaper (claudeRelayService.js)\<close>

text \<open>\<^verbatim>\<open>this.claudeCodeSystemPrompt\<close>, and the block \<^verbatim>\<open>claudeCodePrompt\<close> built from it.\<close>

definition claudeCodeSystemPrompt :: string where
  "claudeCodeSystemPrompt = ''You are Claude Code, Anthropic's official CLI for Claude.''"

definition claudeCodePrompt :: json where
  "claudeCodePrompt =
     JObj [(''type'', JStr ''text''), (''text'', JStr claudeCodeSystemPrompt),
           (''cache_control'', JObj [(''type'', JStr ''ephemeral'')])]"

text \<open>A block \<^verbatim>\<open>{type: 'text', text: t}\<close>.\<close>

definition text_block :: "string \<Rightarrow> json" where
  "text_block t = JObj [(''type'', JStr ''text''), (''text'', JStr t)]"

text \<open>
  What the relay is configured with: \<^verbatim>\<open>config.claude.systemPrompt\<close> (absent in the
  configuration under \<^verbatim>\<open>src/\<close>), and the parsed \<^verbatim>\<open>data/model_pricing.json\<close>, a
  JSON object keyed by model name, or \<open>None\<close> when the file is missing or unreadable.
\<close>

record config =
  systemPrompt :: "string option"
  pricingData :: "(string \<times> json) list option"

text \<open>\<^verbatim>\<open>a > b\<close> on numbers, booleans and \<^verbatim>\<open>null\<close>.\<close>

definition js_gt :: "json \<Rightarrow> json \<Rightarrow> error + bool" where
  "js_gt a b =
     (case to_number a of
        Inl e \<Rightarrow> Inl e
      | Inr x \<Rightarrow> (case to_number b of Inl e \<Rightarrow> Inl e | Inr y \<Rightarrow> Inr (y < x)))"

text \<open>\<^verbatim>\<open>body.model || 'claude-sonnet-4-20250514'\<close> as a property name; a model that is
  not a string would be converted to one.\<close>

definition model_key :: "json option \<Rightarrow> error + string" where
  "model_key m =
     (if \<not> truthy_opt m then Inr ''claude-sonnet-4-20250514''
      else (case m of Some (JStr s) \<Rightarrow> Inr s | _ \<Rightarrow> Inl NotModelled))"

text \<open>\<^verbatim>\<open>a || b\<close> on two property reads.\<close>

definition js_or :: "json option \<Rightarrow> json option \<Rightarrow> json option" where
  "js_or a b = (if truthy_opt a then a else b)"

text \<open>\<^verbatim>\<open>_validateAndLimitMaxTokens\<close>, on the properties of the body.\<close>

definition validateAndLimitMaxTokens ::
  "(string \<times> json) list option \<Rightarrow> (string \<times> json) list \<Rightarrow> error + (string \<times> json) list" where
  "validateAndLimitMaxTokens pricing body =
     (case map_of body ''max_tokens'' of
        None \<Rightarrow> Inr body
      | Some max_tokens \<Rightarrow>
          (if \<not> truthy max_tokens then Inr body
           else (case pricing of
                   None \<Rightarrow> Inr body
                 | Some table \<Rightarrow>
                     (case model_key (map_of body ''model'') of
                        Inl e \<Rightarrow> Inl e
                      | Inr model \<Rightarrow>
                          (case map_of table model of
                             None \<Rightarrow> Inr body
                           | Some modelConfig \<Rightarrow>
                               (if \<not> truthy modelConfig then Inr body
                                else (case js_or (get ''max_tokens'' modelConfig)
                                                 (get ''max_output_tokens'' modelConfig) of
                                        None \<Rightarrow> Inr body
                                      | Some maxLimit \<Rightarrow>
                                          (if \<not> truthy maxLimit then Inr body
                                           else (case js_gt max_tokens maxLimit of
                                                   Inl e \<Rightarrow> Inl e
                                                 | Inr exceeds \<Rightarrow>
                                                     Inr (if exceeds
                                                          then AList.update ''max_tokens'' maxLimit body
                                                          else body))))))))))"

text \<open>The callback of \<^verbatim>\<open>processContentArray\<close>: a truthy \<^verbatim>\<open>ttl\<close> is deleted from the
  \<^verbatim>\<open>cache_control\<close> of an object item.\<close>

definition strip_item :: "json \<Rightarrow> json" where
  "strip_item item =
     (case item of
        JObj it \<Rightarrow>
          (case map_of it ''cache_control'' of
             Some (JObj cc) \<Rightarrow>
               (if truthy_opt (map_of cc ''ttl'')
                then JObj (AList.update ''cache_control'' (JObj (AList.delete ''ttl'' cc)) it)
                else item)
           | _ \<Rightarrow> item)
      | _ \<Rightarrow> item)"

text \<open>The callback of \<^verbatim>\<open>body.messages.forEach\<close>.\<close>

definition strip_message :: "json \<Rightarrow> json" where
  "strip_message message =
     (case message of
        JObj m \<Rightarrow>
          (case map_of m ''content'' of
             Some (JArr content) \<Rightarrow>
               JObj (AList.update ''content'' (JArr (map strip_item content)) m)
           | _ \<Rightarrow> message)
      | _ \<Rightarrow> message)"

text \<open>\<^verbatim>\<open>_stripTtlFromCacheControl\<close>.\<close>

definition stripTtlFromCacheControl :: "(string \<times> json) list \<Rightarrow> (string \<times> json) list" where
  "stripTtlFromCacheControl body =
     (let body1 = (case map_of body ''system'' of
                     Some (JArr items) \<Rightarrow> AList.update ''system'' (JArr (map strip_item items)) body
                   | _ \<Rightarrow> body)
      in (case map_of body1 ''messages'' of
            Some (JArr ms) \<Rightarrow> AList.update ''messages'' (JArr (map strip_message ms)) body1
          | _ \<Rightarrow> body1))"

text \<open>The regular expression \<^verbatim>\<open>/claude-cli\/\d+\.\d+\.\d+/\<close>, searched anywhere in the
  string.  Digits and the dot are disjoint, so the longest run of digits is the only
  candidate for each \<^verbatim>\<open>\d+\<close>.\<close>

definition is_digit :: "char \<Rightarrow> bool" where
  "is_digit c = (48 \<le> (of_char c :: nat) \<and> (of_char c :: nat) \<le> 57)"

definition digits_dot :: "string \<Rightarrow> string option" where
  "digits_dot s =
     (case dropWhile is_digit s of
        [] \<Rightarrow> None
      | c # r \<Rightarrow> (if takeWhile is_digit s \<noteq> [] \<and> c = CHR ''.'' then Some r else None))"

definition version_here :: "string \<Rightarrow> bool" where
  "version_here s =
     (case digits_dot s of
        None \<Rightarrow> False
      | Some r1 \<Rightarrow>
          (case digits_dot r1 of
             None \<Rightarrow> False
           | Some r2 \<Rightarrow> (case r2 of [] \<Rightarrow> False | c # r \<Rightarrow> is_digit c)))"

fun claude_cli_test :: "string \<Rightarrow> bool" where
  "claude_cli_test [] = False"
| "claude_cli_test (c # cs) =
     ((starts_with ''claude-cli/'' (c # cs) \<and> version_here (drop 11 (c # cs)))
      \<or> claude_cli_test cs)"

text \<open>\<^verbatim>\<open>clientHeaders?.['user-agent'] || clientHeaders?.['User-Agent'] || ''\<close>; the
  headers are the name and value pairs of the downstream request.\<close>

definition userAgent :: "(string \<times> string) list \<Rightarrow> string" where
  "userAgent clientHeaders =
     (case map_of clientHeaders ''user-agent'' of
        Some v \<Rightarrow>
          (if v \<noteq> [] then v
           else (case map_of clientHeaders ''User-Agent'' of Some w \<Rightarrow> w | None \<Rightarrow> []))
      | None \<Rightarrow> (case map_of clientHeaders ''User-Agent'' of Some w \<Rightarrow> w | None \<Rightarrow> []))"

text \<open>\<^verbatim>\<open>item && item.type === 'text' && item.text === this.claudeCodeSystemPrompt\<close>.\<close>

definition is_claude_code_item :: "json \<Rightarrow> bool" where
  "is_claude_code_item item =
     (get ''type'' item = Some (JStr ''text'') \<and>
      get ''text'' item = Some (JStr claudeCodeSystemPrompt))"

text \<open>\<^verbatim>\<open>_hasClaudeCodeSystemPrompt\<close>.\<close>

definition hasClaudeCodeSystemPrompt :: "json \<Rightarrow> bool" where
  "hasClaudeCodeSystemPrompt requestBody =
     (if \<not> truthy requestBody \<or> \<not> truthy_opt (get ''system'' requestBody) then False
      else (case get ''system'' requestBody of
              Some (JStr s) \<Rightarrow> False
            | Some (JArr (firstItem # rest)) \<Rightarrow>
                truthy firstItem \<and> get ''type'' firstItem = Some (JStr ''text'') \<and>
                truthy_opt (get ''text'' firstItem) \<and>
                get ''text'' firstItem = Some (JStr claudeCodeSystemPrompt)
            | _ \<Rightarrow> False))"

text \<open>\<^verbatim>\<open>isRealClaudeCodeRequest\<close>.\<close>

definition isRealClaudeCodeRequest :: "json \<Rightarrow> (string \<times> string) list \<Rightarrow> bool" where
  "isRealClaudeCodeRequest requestBody clientHeaders =
     (claude_cli_test (userAgent clientHeaders) \<and> hasClaudeCodeSystemPrompt requestBody)"

text \<open>The branch \<^verbatim>\<open>if (!isRealClaudeCode)\<close> of \<^verbatim>\<open>_processRequestBody\<close>.\<close>

definition setClaudeCodePrompt :: "(string \<times> json) list \<Rightarrow> (string \<times> json) list" where
  "setClaudeCodePrompt body =
     (case map_of body ''system'' of
        None \<Rightarrow> AList.update ''system'' (JArr [claudeCodePrompt]) body
      | Some sys \<Rightarrow>
          (if \<not> truthy sys then AList.update ''system'' (JArr [claudeCodePrompt]) body
           else (case sys of
                   JStr s \<Rightarrow>
                     (if trim s = claudeCodeSystemPrompt
                      then AList.update ''system'' (JArr [claudeCodePrompt]) body
                      else AList.update ''system'' (JArr [claudeCodePrompt, text_block s]) body)
                 | JArr items \<Rightarrow>
                     (if (case items of [] \<Rightarrow> False | firstItem # rest \<Rightarrow> is_claude_code_item firstItem)
                      then body
                      else AList.update ''system''
                             (JArr (claudeCodePrompt # filter (\<lambda>item. \<not> is_claude_code_item item) items))
                             body)
                 | _ \<Rightarrow> AList.update ''system'' (JArr [claudeCodePrompt]) body)))"

text \<open>\<^verbatim>\<open>item && item.text && item.text === this.systemPrompt\<close>, for a non-empty prompt.\<close>

definition has_text :: "string \<Rightarrow> json \<Rightarrow> bool" where
  "has_text p item = (get ''text'' item = Some (JStr p))"

text \<open>\<^verbatim>\<open>system.some(item => item && item.text && item.text.trim())\<close>: \<^verbatim>\<open>trim\<close> is a
  method of strings only, so a truthy text of another type raises.\<close>

fun has_valid_content :: "json list \<Rightarrow> error + bool" where
  "has_valid_content [] = Inr False"
| "has_valid_content (item # items) =
     (case get ''text'' item of
        None \<Rightarrow> has_valid_content items
      | Some t \<Rightarrow>
          (if \<not> truthy t then has_valid_content items
           else (case t of
                   JStr s \<Rightarrow> (if trim s \<noteq> [] then Inr True else has_valid_content items)
                 | _ \<Rightarrow> Inl TypeError)))"

text \<open>The last part of \<^verbatim>\<open>_processRequestBody\<close>: the configured system prompt is
  appended unless an item carries it already; without one, a system array with no
  text is deleted.\<close>

definition applySystemPrompt ::
  "string option \<Rightarrow> (string \<times> json) list \<Rightarrow> error + (string \<times> json) list" where
  "applySystemPrompt sp body =
     (if (case sp of None \<Rightarrow> False | Some p \<Rightarrow> p \<noteq> [] \<and> trim p \<noteq> [])
      then (case sp of
              None \<Rightarrow> Inr body
            | Some p \<Rightarrow>
                (case map_of body ''system'' of
                   Some (JArr items) \<Rightarrow>
                     (if list_ex (has_text p) items then Inr body
                      else Inr (AList.update ''system'' (JArr (items @ [text_block p])) body))
                 | _ \<Rightarrow> Inr (AList.update ''system'' (JArr [text_block p]) body)))
      else (case map_of body ''system'' of
              Some (JArr items) \<Rightarrow>
                (case has_valid_content items of
                   Inl e \<Rightarrow> Inl e
                 | Inr hasValidContent \<Rightarrow>
                     Inr (if hasValidContent then body else AList.delete ''system'' body))
            | _ \<Rightarrow> Inr body))"

text \<open>
  \<^verbatim>\<open>_processRequestBody\<close>.  A falsy body is returned as it is.  The deep copy
  \<^verbatim>\<open>JSON.parse(JSON.stringify(body))\<close> is the identity on JSON values.  A truthy
  primitive raises on the write to \<^verbatim>\<open>processedBody.system\<close> (class bodies are strict
  code); a top-level array would get \<^verbatim>\<open>system\<close> as an extra property.
\<close>

definition processRequestBody ::
  "config \<Rightarrow> (string \<times> string) list \<Rightarrow> json \<Rightarrow> error + json" where
  "processRequestBody cfg clientHeaders body =
     (if \<not> truthy body then Inr body
      else (case body of
              JObj kvs \<Rightarrow>
                (case validateAndLimitMaxTokens (pricingData cfg) kvs of
                   Inl e \<Rightarrow> Inl e
                 | Inr limited \<Rightarrow>
                     (let stripped = stripTtlFromCacheControl limited;
                          isRealClaudeCode = isRealClaudeCodeRequest (JObj stripped) clientHeaders;
                          prompted = (if \<not> isRealClaudeCode then setClaudeCodePrompt stripped
                                      else stripped)
                      in (case applySystemPrompt (systemPrompt cfg) prompted of
                            Inl e \<Rightarrow> Inl e
                          | Inr processedBody \<Rightarrow> Inr (JObj processedBody))))
            | JArr xs \<Rightarrow> Inl NotModelled
            | _ \<Rightarrow> Inl TypeError))"

section \<open>Relay orchestrator (claudeRelayService.js)\<close>

text \<open>
  The collaborators of the relay are not under \<^verbatim>\<open>src/\<close>
  (\<^verbatim>\<open>claudeAccountService\<close>, \<^verbatim>\<open>sessionHelper\<close>, \<^verbatim>\<open>claudeCodeHeadersService\<close>), and
  the upstream is the network.  What they answer during one request is the
  environment of the model; what the relay asks of them is recorded, in order, as a
  list of effects.
\<close>

record apiKey =
  ak_enableModelRestriction :: bool
  ak_restrictedModels :: "string list"
  ak_keyType :: "string option"

text \<open>
  \<open>key_headers\<close> stands for \<^verbatim>\<open>_modifyHeadersForKeyType\<close>, whose result depends on
  \<^verbatim>\<open>Math.random\<close> and the clock: key type, streaming flag and the two token counts
  give the headers.
\<close>

record env =
  json_parse :: "string \<Rightarrow> json option"
  json_stringify :: "json \<Rightarrow> string"
  relay_config :: config
  session_hash :: "string option"
  selected_account :: "string option"
  access_token :: "string option"
  token_count_reply :: count_reply
  account_limited :: bool
  key_headers :: "string \<Rightarrow> bool \<Rightarrow> json option \<Rightarrow> json option \<Rightarrow> (string \<times> string) list"

text \<open>The calls the relay makes and what it writes to the downstream response.\<close>

record usage_data =
  ud_input_tokens :: "json option"
  ud_cache_creation_input_tokens :: "json option"
  ud_cache_read_input_tokens :: "json option"
  ud_model :: "json option"
  ud_output_tokens :: "json option"

datatype effect =
    CountTokens json string
  | Dispatch json string
  | MarkRateLimited string "string option"
  | RemoveRateLimit string
  | StoreHeaders string
  | UsageEvent usage_data string
  | WriteHead nat
  | SetHeaders "(string \<times> string) list"
  | Write string
  | EndStream

text \<open>
  How a call of the relay ends when it does not return: the error with
  \<^verbatim>\<open>status = 429\<close> and the token count in its details, a rejected promise of a
  collaborator or of the upstream request, the exception of \<^verbatim>\<open>writeHead\<close> and
  \<^verbatim>\<open>setHeader\<close> on a response whose headers have been sent, or an exception of the
  relay's own code.
\<close>

datatype thrown =
    TooFewTokens jsval
  | Rejected
  | HeadersSent
  | Raised error

record response =
  rs_statusCode :: nat
  rs_headers :: "(string \<times> string) list"
  rs_body :: string
  rs_accountId :: "string option"

text \<open>\<open>Forbidden\<close> is the 403 answer of the model restriction, whose JSON body carries
  a fixed message.\<close>

datatype reply = Forbidden | Relayed response

text \<open>The model restriction check at the head of both paths.\<close>

definition model_restricted :: "apiKey \<Rightarrow> json \<Rightarrow> bool" where
  "model_restricted apiKeyData requestBody =
     (ak_enableModelRestriction apiKeyData \<and> ak_restrictedModels apiKeyData \<noteq> [] \<and>
      (case get ''model'' requestBody of
         Some (JStr requestedModel) \<Rightarrow>
           requestedModel \<noteq> [] \<and> requestedModel \<in> set (ak_restrictedModels apiKeyData)
       | _ \<Rightarrow> False))"

text \<open>\<^verbatim>\<open>inputTokens < 250\<close>.\<close>

fun lt250 :: "jsval \<Rightarrow> error + bool" where
  "lt250 (OfNum (Num n)) = Inr (n < 250)"
| "lt250 (OfNum NaN) = Inr False"
| "lt250 (OfJson v) = (case to_number v of Inl e \<Rightarrow> Inl e | Inr n \<Rightarrow> Inr (n < 250))"

text \<open>\<^verbatim>\<open>apiKeyData.keyType === 'aws' || apiKeyData.keyType === 'databricks'\<close>.\<close>

definition floor_applies :: "apiKey \<Rightarrow> bool" where
  "floor_applies apiKeyData =
     (ak_keyType apiKeyData = Some ''aws'' \<or> ak_keyType apiKeyData = Some ''databricks'')"

text \<open>
  The minimum token check, written in both paths: \<open>Some inputTokens\<close> when the request
  is to be refused with that count, \<open>None\<close> when it goes on.
\<close>

definition token_floor :: "env \<Rightarrow> apiKey \<Rightarrow> json \<Rightarrow> error + jsval option" where
  "token_floor e apiKeyData processedBody =
     (if floor_applies apiKeyData then
        (case countInputTokens (token_count_reply e) processedBody of
           Inl err \<Rightarrow> Inl err
         | Inr inputTokens \<Rightarrow>
             (case lt250 inputTokens of
                Inl err \<Rightarrow> Inl err
              | Inr below \<Rightarrow> Inr (if below then Some inputTokens else None)))
      else Inr None)"

text \<open>\<^verbatim>\<open>s.toLowerCase()\<close> on code units below 256 and \<^verbatim>\<open>s.includes(pat)\<close>.\<close>

definition lower_char :: "char \<Rightarrow> char" where
  "lower_char c =
     (let n = (of_char c :: nat)
      in if (65 \<le> n \<and> n \<le> 90) \<or> (192 \<le> n \<and> n \<le> 214) \<or> (216 \<le> n \<and> n \<le> 222)
         then char_of (n + 32) else c)"

definition toLowerCase :: "string \<Rightarrow> string" where
  "toLowerCase s = map lower_char s"

fun js_includes :: "string \<Rightarrow> string \<Rightarrow> bool" where
  "js_includes pat [] = (pat = [])"
| "js_includes pat (c # cs) = (starts_with pat (c # cs) \<or> js_includes pat cs)"

definition rate_limit_phrase :: string where
  "rate_limit_phrase = ''exceed your account's rate limit''"

text \<open>
  The rate limit test of \<^verbatim>\<open>relayRequest\<close> on a response that is neither 200 nor 201.
  The \<^verbatim>\<open>catch\<close> looks at the raw body when \<^verbatim>\<open>JSON.parse\<close> raises, and also when
  \<^verbatim>\<open>error.message\<close> is truthy but no string, since \<^verbatim>\<open>toLowerCase\<close> is then no
  function.
\<close>

definition raw_rate_limited :: "string \<Rightarrow> bool" where
  "raw_rate_limited b = (b \<noteq> [] \<and> js_includes rate_limit_phrase (toLowerCase b))"

definition body_rate_limited :: "(string \<Rightarrow> json option) \<Rightarrow> string \<Rightarrow> bool" where
  "body_rate_limited parse b =
     (case parse b of
        None \<Rightarrow> raw_rate_limited b
      | Some responseBody \<Rightarrow>
          (if \<not> truthy responseBody then False
           else (case get ''error'' responseBody of
                   None \<Rightarrow> False
                 | Some err \<Rightarrow>
                     (if \<not> truthy err then False
                      else (case get ''message'' err of
                              None \<Rightarrow> False
                            | Some (JStr m) \<Rightarrow> js_includes rate_limit_phrase (toLowerCase m)
                            | Some m \<Rightarrow> (if truthy m then raw_rate_limited b else False))))))"

text \<open>What \<^verbatim>\<open>relayRequest\<close> does with the upstream response before it shapes it.\<close>

definition after_response ::
  "env \<Rightarrow> nat \<Rightarrow> string \<Rightarrow> string \<Rightarrow> json \<Rightarrow> (string \<times> string) list \<Rightarrow> effect list" where
  "after_response e status b accountId requestBody clientHeaders =
     (if status \<noteq> 200 \<and> status \<noteq> 201 then
        (if body_rate_limited (json_parse e) b
         then [MarkRateLimited accountId (session_hash e)] else [])
      else
        (if account_limited e then [RemoveRateLimit accountId] else []) @
        (if clientHeaders \<noteq> [] \<and> isRealClaudeCodeRequest requestBody clientHeaders
         then [StoreHeaders accountId] else []))"

text \<open>
  The rough token estimate that \<^verbatim>\<open>relayRequest\<close> logs after the call:
  \<^verbatim>\<open>requestBody.messages.reduce((sum, msg) => sum + (msg.content?.length || 0), 0)\<close>.
  Only its exceptions matter: \<^verbatim>\<open>reduce\<close> exists on arrays only, and a \<^verbatim>\<open>null\<close>
  message raises on \<^verbatim>\<open>msg.content\<close>.
\<close>

fun log_messages :: "json list \<Rightarrow> error + unit" where
  "log_messages [] = Inr ()"
| "log_messages (msg # msgs) =
     (if msg = JNull then Inl TypeError
      else (case get ''content'' msg of
              None \<Rightarrow> log_messages msgs
            | Some JNull \<Rightarrow> log_messages msgs
            | Some content \<Rightarrow>
                (case or0 (length_of content) of
                   JArr xs \<Rightarrow> Inl NotModelled
                 | JObj kvs \<Rightarrow> Inl NotModelled
                 | _ \<Rightarrow> log_messages msgs)))"

definition log_estimate :: "json \<Rightarrow> error + unit" where
  "log_estimate requestBody =
     (case get ''messages'' requestBody of
        None \<Rightarrow> Inr ()
      | Some (JArr msgs) \<Rightarrow> log_messages msgs
      | Some v \<Rightarrow> (if truthy v then Inl TypeError else Inr ()))"

text \<open>
  The body part of \<^verbatim>\<open>_processResponseByKeyType\<close>: a non-empty body is parsed,
  rewritten and serialised; the \<^verbatim>\<open>catch\<close> keeps the body when parsing or the rewrite
  raises.
\<close>

definition shape_body ::
  "env \<Rightarrow> (json \<Rightarrow> error + json) \<Rightarrow> string \<Rightarrow> error + string \<times> json option" where
  "shape_body e rewrite b =
     (if b = [] then Inr (b, None)
      else (case json_parse e b of
              None \<Rightarrow> Inr (b, None)
            | Some responseData \<Rightarrow>
                (case rewrite responseData of
                   Inl TypeError \<Rightarrow> Inr (b, None)
                 | Inl NotModelled \<Rightarrow> Inl NotModelled
                 | Inr modifiedData \<Rightarrow> Inr (json_stringify e modifiedData, Some modifiedData))))"

text \<open>\<^verbatim>\<open>_processResponseByKeyType\<close>.  For the Bedrock key types the token counts of
  the rewritten usage go into the headers; a \<^verbatim>\<open>null\<close> body raises on
  \<^verbatim>\<open>modifiedData.usage\<close> after the body has been set.\<close>

definition processResponseByKeyType :: "env \<Rightarrow> response \<Rightarrow> string \<Rightarrow> error + response" where
  "processResponseByKeyType e resp kt =
     (if kt = ''cc'' then
        (case shape_body e modifyResponseForClaudeCode (rs_body resp) of
           Inl err \<Rightarrow> Inl err
         | Inr (b, d) \<Rightarrow> Inr (resp\<lparr>rs_body := b\<rparr>))
      else if kt = ''anthropic'' then
        (case shape_body e modifyResponseForClaudeCode (rs_body resp) of
           Inl err \<Rightarrow> Inl err
         | Inr (b, d) \<Rightarrow>
             Inr (resp\<lparr>rs_body := b, rs_headers := key_headers e kt False None None\<rparr>))
      else if kt = ''aws'' \<or> kt = ''databricks'' then
        (case shape_body e (\<lambda>data. modifyResponseForBedrock data kt) (rs_body resp) of
           Inl err \<Rightarrow> Inl err
         | Inr (b, d) \<Rightarrow>
             (let usage = (case d of
                             None \<Rightarrow> None
                           | Some JNull \<Rightarrow> None
                           | Some modifiedData \<Rightarrow>
                               (case get ''usage'' modifiedData of
                                  None \<Rightarrow> None
                                | Some u \<Rightarrow> (if truthy u then Some u else None)))
              in Inr (resp\<lparr>rs_body := b,
                          rs_headers := key_headers e kt False
                            (case usage of None \<Rightarrow> None | Some u \<Rightarrow> get ''input_tokens'' u)
                            (case usage of None \<Rightarrow> None | Some u \<Rightarrow> get ''output_tokens'' u)\<rparr>)))
      else Inr resp)"

text \<open>The answer of the upstream to the non-streaming request: status, headers and
  decoded body, or a rejected promise (socket error, timeout).\<close>

datatype upstream = Answered nat "(string \<times> string) list" string | RequestFailed

text \<open>
  \<^verbatim>\<open>relayRequest\<close>: the outcome and the effects, in order.  A \<^verbatim>\<open>null\<close> body raises
  on \<^verbatim>\<open>requestBody.model\<close> in the first log line.
\<close>

definition relayRequest ::
  "env \<Rightarrow> upstream \<Rightarrow> json \<Rightarrow> apiKey \<Rightarrow> (string \<times> string) list \<Rightarrow>
   (thrown + reply) \<times> effect list" where
  "relayRequest e up requestBody apiKeyData clientHeaders =
     (if requestBody = JNull then (Inl (Raised TypeError), [])
      else if model_restricted apiKeyData requestBody then (Inr Forbidden, [])
      else
        (case selected_account e of
           None \<Rightarrow> (Inl Rejected, [])
         | Some accountId \<Rightarrow>
        (case access_token e of
           None \<Rightarrow> (Inl Rejected, [])
         | Some accessToken \<Rightarrow>
        (case processRequestBody (relay_config e) clientHeaders requestBody of
           Inl err \<Rightarrow> (Inl (Raised err), [])
         | Inr processedBody \<Rightarrow>
        (let counted = (if floor_applies apiKeyData
                        then [CountTokens processedBody accountId] else [])
         in
        (case token_floor e apiKeyData processedBody of
           Inl err \<Rightarrow> (Inl (Raised err), counted)
         | Inr (Some inputTokens) \<Rightarrow> (Inl (TooFewTokens inputTokens), counted)
         | Inr None \<Rightarrow>
        (case up of
           RequestFailed \<Rightarrow> (Inl Rejected, counted @ [Dispatch processedBody accountId])
         | Answered status hs b \<Rightarrow>
        (let effs = counted @ [Dispatch processedBody accountId] @
                    after_response e status b accountId requestBody clientHeaders
         in
        (case log_estimate requestBody of
           Inl err \<Rightarrow> (Inl (Raised err), effs)
         | Inr u \<Rightarrow>
        (case processResponseByKeyType e
                \<lparr>rs_statusCode = status, rs_headers = hs, rs_body = b,
                 rs_accountId = Some accountId\<rparr>
                (case ak_keyType apiKeyData of
                   None \<Rightarrow> ''cc''
                 | Some kt \<Rightarrow> (if kt = [] then ''cc'' else kt)) of
           Inl err \<Rightarrow> (Inl (Raised err), effs)
         | Inr processedResponse \<Rightarrow> (Inr (Relayed processedResponse), effs)))))))))))"

subsection \<open>The streaming path\<close>

text \<open>The downstream response stream as the relay finds it: whether the client has
  gone, and whether headers have been sent already.\<close>

record client =
  cl_destroyed :: bool
  cl_headersSent :: bool

text \<open>The answer of the upstream to the streaming request: status, headers and the
  chunks of the body, or the \<^verbatim>\<open>error\<close> event with its code, or the timeout.\<close>

datatype stream_upstream =
    StreamAnswered nat "(string \<times> string) list" "string list"
  | StreamError string
  | StreamTimeout

text \<open>The variables of the response callback of
  \<^verbatim>\<open>_makeClaudeStreamRequestWithUsageCapture\<close>.\<close>

record capture =
  cp_buffer :: string
  cp_finalUsageReported :: bool
  cp_collectedUsageData :: usage_data
  cp_rateLimitDetected :: bool

definition initial_capture :: capture where
  "initial_capture =
     \<lparr>cp_buffer = [], cp_finalUsageReported = False,
      cp_collectedUsageData =
        \<lparr>ud_input_tokens = None, ud_cache_creation_input_tokens = None,
         ud_cache_read_input_tokens = None, ud_model = None, ud_output_tokens = None\<rparr>,
      cp_rateLimitDetected = False\<rparr>"

text \<open>The block for \<^verbatim>\<open>message_start\<close>: input and cache counts and the model are
  collected and adjusted by key type.\<close>

definition on_message_start :: "string \<Rightarrow> json \<Rightarrow> capture \<Rightarrow> error + capture" where
  "on_message_start kt data st =
     (if get ''type'' data = Some (JStr ''message_start'') \<and> truthy_opt (get ''message'' data)
      then (case get ''message'' data of
              None \<Rightarrow> Inr st
            | Some message \<Rightarrow>
                (case get ''usage'' message of
                   None \<Rightarrow> Inr st
                 | Some usage \<Rightarrow>
                     (if \<not> truthy usage then Inr st
                      else
                        (let originalInputTokens = or0 (get ''input_tokens'' usage);
                             cacheCreation = or0 (get ''cache_creation_input_tokens'' usage);
                             cacheRead = or0 (get ''cache_read_input_tokens'' usage);
                             collected = (cp_collectedUsageData st)
                               \<lparr>ud_input_tokens := Some originalInputTokens,
                                ud_cache_creation_input_tokens := Some cacheCreation,
                                ud_cache_read_input_tokens := Some cacheRead,
                                ud_model := get ''model'' message\<rparr>
                         in if kt = ''databricks'' then
                              (case js_add originalInputTokens cacheRead of
                                 Inl err \<Rightarrow> Inl err
                               | Inr s \<Rightarrow>
                                   (case js_add s cacheCreation of
                                      Inl err \<Rightarrow> Inl err
                                    | Inr totalInputTokens \<Rightarrow>
                                        (case minus14 totalInputTokens of
                                           Inl err \<Rightarrow> Inl err
                                         | Inr v \<Rightarrow>
                                             Inr (st\<lparr>cp_collectedUsageData := collected
                                                   \<lparr>ud_input_tokens := Some v,
                                                    ud_cache_creation_input_tokens := Some (JNum 0),
                                                    ud_cache_read_input_tokens := Some (JNum 0)\<rparr>\<rparr>))))
                            else
                              (case minus14 originalInputTokens of
                                 Inl err \<Rightarrow> Inl err
                               | Inr v \<Rightarrow>
                                   Inr (st\<lparr>cp_collectedUsageData := collected
                                         \<lparr>ud_input_tokens := Some v\<rparr>\<rparr>))))))
      else Inr st)"

text \<open>The block for \<^verbatim>\<open>message_delta\<close>: the output count is collected, and the usage
  callback is called once, when input data has been collected before.\<close>

definition on_message_delta :: "string \<Rightarrow> json \<Rightarrow> capture \<Rightarrow> capture \<times> effect list" where
  "on_message_delta accountId data st =
     (if get ''type'' data = Some (JStr ''message_delta'') \<and> truthy_opt (get ''usage'' data)
      then (case get ''usage'' data of
              None \<Rightarrow> (st, [])
            | Some usage \<Rightarrow>
                (case get ''output_tokens'' usage of
                   None \<Rightarrow> (st, [])
                 | Some out \<Rightarrow>
                     (let collected = (cp_collectedUsageData st)
                            \<lparr>ud_output_tokens := Some (or0 (Some out))\<rparr>;
                          st1 = st\<lparr>cp_collectedUsageData := collected\<rparr>
                      in if ud_input_tokens collected \<noteq> None \<and> \<not> cp_finalUsageReported st
                         then (st1\<lparr>cp_finalUsageReported := True\<rparr>,
                               [UsageEvent collected accountId])
                         else (st1, []))))
      else (st, []))"

text \<open>The block for \<^verbatim>\<open>error\<close> events; a truthy message that is no string raises and
  is caught, leaving the flag as it is.\<close>

definition on_error_event :: "json \<Rightarrow> capture \<Rightarrow> capture" where
  "on_error_event data st =
     (if get ''type'' data = Some (JStr ''error'') \<and> truthy_opt (get ''error'' data)
      then (case get ''error'' data of
              None \<Rightarrow> st
            | Some err \<Rightarrow>
                (case get ''message'' err of
                   Some (JStr m) \<Rightarrow>
                     (if js_includes rate_limit_phrase (toLowerCase m)
                      then st\<lparr>cp_rateLimitDetected := True\<rparr> else st)
                 | _ \<Rightarrow> st))
      else st)"

text \<open>The body of \<^verbatim>\<open>for (const line of lines)\<close>; \<^verbatim>\<open>data.type\<close> raises on
  \<^verbatim>\<open>null\<close>, which the inner \<^verbatim>\<open>catch\<close> ignores like a parse failure.\<close>

definition capture_line ::
  "(string \<Rightarrow> json option) \<Rightarrow> string \<Rightarrow> string \<Rightarrow> capture \<Rightarrow> string \<Rightarrow>
   error + capture \<times> effect list" where
  "capture_line parse kt accountId st line =
     (if is_data_line line then
        (case parse (payload line) of
           None \<Rightarrow> Inr (st, [])
         | Some data \<Rightarrow>
             (if data = JNull then Inr (st, [])
              else (case on_message_start kt data st of
                      Inl err \<Rightarrow> Inl err
                    | Inr st1 \<Rightarrow>
                        (case on_message_delta accountId data st1 of
                           (st2, fx) \<Rightarrow> Inr (on_error_event data st2, fx)))))
      else Inr (st, []))"

fun capture_lines ::
  "(string \<Rightarrow> json option) \<Rightarrow> string \<Rightarrow> string \<Rightarrow> capture \<Rightarrow> string list \<Rightarrow>
   error + capture \<times> effect list" where
  "capture_lines parse kt accountId st [] = Inr (st, [])"
| "capture_lines parse kt accountId st (line # rest) =
     (case capture_line parse kt accountId st line of
        Inl err \<Rightarrow> Inl err
      | Inr (st1, fx1) \<Rightarrow>
          (case capture_lines parse kt accountId st1 rest of
             Inl err \<Rightarrow> Inl err
           | Inr (st2, fx2) \<Rightarrow> Inr (st2, fx1 @ fx2)))"

text \<open>The text forwarded downstream for a piece of the stream: shaped by key type,
  passed through the caller's transformer when there is one, and written unless the
  transformer returned the empty string.\<close>

definition forward ::
  "env \<Rightarrow> string \<Rightarrow> (string \<Rightarrow> string) option \<Rightarrow> string \<Rightarrow> error + effect list" where
  "forward e kt streamTransformer piece =
     (case (if kt = ''aws'' \<or> kt = ''databricks''
            then processStreamDataForBedrock (json_parse e) (json_stringify e) piece kt
            else if kt = ''cc'' \<or> kt = ''anthropic''
            then processStreamDataForClaudeCode (json_parse e) (json_stringify e) piece
            else Inr piece) of
        Inl err \<Rightarrow> Inl err
      | Inr shaped \<Rightarrow>
          (case streamTransformer of
             None \<Rightarrow> Inr [Write shaped]
           | Some t \<Rightarrow> Inr (if t shaped \<noteq> [] then [Write (t shaped)] else [])))"

text \<open>The handler of \<^verbatim>\<open>data\<close>: complete lines are forwarded and then inspected; the
  part after the last line feed stays in the buffer.\<close>

definition on_chunk ::
  "env \<Rightarrow> client \<Rightarrow> string \<Rightarrow> (string \<Rightarrow> string) option \<Rightarrow> string \<Rightarrow> capture \<Rightarrow> string \<Rightarrow>
   error + capture \<times> effect list" where
  "on_chunk e cl kt streamTransformer accountId st chunk =
     (let pieces = split_lines (cp_buffer st @ chunk);
          lines = butlast pieces;
          st0 = st\<lparr>cp_buffer := last pieces\<rparr>
      in (case (if lines \<noteq> [] \<and> \<not> cl_destroyed cl
                then forward e kt streamTransformer (join_lines lines @ [CHR 0x0A])
                else Inr []) of
            Inl err \<Rightarrow> Inl err
          | Inr written \<Rightarrow>
              (case capture_lines (json_parse e) kt accountId st0 lines of
                 Inl err \<Rightarrow> Inl err
               | Inr (st1, fx) \<Rightarrow> Inr (st1, written @ fx))))"

fun on_chunks ::
  "env \<Rightarrow> client \<Rightarrow> string \<Rightarrow> (string \<Rightarrow> string) option \<Rightarrow> string \<Rightarrow> capture \<Rightarrow> string list \<Rightarrow>
   error + capture \<times> effect list" where
  "on_chunks e cl kt streamTransformer accountId st [] = Inr (st, [])"
| "on_chunks e cl kt streamTransformer accountId st (chunk # chunks) =
     (case on_chunk e cl kt streamTransformer accountId st chunk of
        Inl err \<Rightarrow> Inl err
      | Inr (st1, fx1) \<Rightarrow>
          (case on_chunks e cl kt streamTransformer accountId st1 chunks of
             Inl err \<Rightarrow> Inl err
           | Inr (st2, fx2) \<Rightarrow> Inr (st2, fx1 @ fx2)))"

text \<open>The handler of \<^verbatim>\<open>end\<close> for a response whose status is 200: the rest of the
  buffer is flushed, the stream is ended, and the account is marked or cleared.\<close>

definition on_end ::
  "env \<Rightarrow> client \<Rightarrow> string \<Rightarrow> (string \<Rightarrow> string) option \<Rightarrow> string \<Rightarrow> nat \<Rightarrow> json \<Rightarrow>
   (string \<times> string) list \<Rightarrow> capture \<Rightarrow> error + effect list" where
  "on_end e cl kt streamTransformer accountId status processedBody clientHeaders st =
     (case (if trim (cp_buffer st) \<noteq> [] \<and> \<not> cl_destroyed cl
            then forward e kt streamTransformer (cp_buffer st)
            else Inr []) of
        Inl err \<Rightarrow> Inl err
      | Inr written \<Rightarrow>
          Inr (written @
               (if \<not> cl_destroyed cl then [EndStream] else []) @
               (if cp_rateLimitDetected st \<or> status = 429
                then [MarkRateLimited accountId (session_hash e)]
                else if status = 200
                then (if account_limited e then [RemoveRateLimit accountId] else []) @
                     (if clientHeaders \<noteq> [] \<and> isRealClaudeCodeRequest processedBody clientHeaders
                      then [StoreHeaders accountId] else [])
                else [])))"

text \<open>
  The error event written downstream, with its JSON payload.  \<open>clock\<close> is
  \<^verbatim>\<open>new Date().toISOString()\<close>.
\<close>

definition error_event :: "env \<Rightarrow> string \<Rightarrow> (string \<times> json) list \<Rightarrow> effect list" where
  "error_event e clock props =
     [Write (''event: error'' @ [CHR 0x0A]),
      Write (''data: '' @ json_stringify e (JObj (props @ [(''timestamp'', JStr clock)]))
             @ [CHR 0x0A, CHR 0x0A]),
      EndStream]"

text \<open>
  \<^verbatim>\<open>_makeClaudeStreamRequestWithUsageCapture\<close>.  A status other than 200 takes the
  first branch of the response callback, which writes the error event, rejects and
  returns before the handlers of \<^verbatim>\<open>data\<close> and \<^verbatim>\<open>end\<close> are installed.
\<close>

definition makeClaudeStreamRequestWithUsageCapture ::
  "env \<Rightarrow> string \<Rightarrow> client \<Rightarrow> stream_upstream \<Rightarrow> json \<Rightarrow> (string \<times> string) list \<Rightarrow>
   string \<Rightarrow> (string \<Rightarrow> string) option \<Rightarrow> string \<Rightarrow> (thrown + unit) \<times> effect list" where
  "makeClaudeStreamRequestWithUsageCapture e clock cl up processedBody clientHeaders
       accountId streamTransformer kt =
     (case up of
        StreamError code \<Rightarrow>
          (Inl Rejected,
           [Dispatch processedBody accountId] @
           (if \<not> cl_headersSent cl
            then [WriteHead (if code = ''ECONNRESET'' \<or> code = ''ENOTFOUND'' \<or> code = ''ECONNREFUSED''
                             then 502 else if code = ''ETIMEDOUT'' then 504 else 500)]
            else []) @
           (if \<not> cl_destroyed cl
            then error_event e clock
                   [(''error'', JStr (if code = ''ECONNRESET'' then ''Connection reset by Claude API server''
                        else if code = ''ENOTFOUND'' then ''Unable to resolve Claude API hostname''
                        else if code = ''ECONNREFUSED'' then ''Connection refused by Claude API server''
                        else if code = ''ETIMEDOUT'' then ''Connection timed out to Claude API server''
                        else ''Upstream request failed'')),
                    (''code'', JStr code)]
            else []))
      | StreamTimeout \<Rightarrow>
          (Inl Rejected,
           [Dispatch processedBody accountId] @
           (if \<not> cl_headersSent cl then [WriteHead 504] else []) @
           (if \<not> cl_destroyed cl
            then error_event e clock [(''error'', JStr ''Request timeout''), (''code'', JStr ''TIMEOUT'')]
            else []))
      | StreamAnswered status hs chunks \<Rightarrow>
          (if status \<noteq> 200 then
             (Inl Rejected,
              [Dispatch processedBody accountId] @
              (if \<not> cl_destroyed cl
               then error_event e clock
                      [(''error'', JStr ''Claude API error''), (''status'', JNum (int status)),
                       (''details'', JStr (concat chunks))]
               else []))
           else
             (let hdrs = (if kt = ''aws'' \<or> kt = ''databricks'' \<or> kt = ''anthropic''
                          then key_headers e kt True None None else hs);
                  opened = [Dispatch processedBody accountId, SetHeaders hdrs]
              in if cl_headersSent cl \<and> hdrs \<noteq> []
                 then (Inl HeadersSent, [Dispatch processedBody accountId])
                 else
                   (case on_chunks e cl kt streamTransformer accountId initial_capture chunks of
                      Inl err \<Rightarrow> (Inl (Raised err), opened)
                    | Inr (st, fx) \<Rightarrow>
                        (case on_end e cl kt streamTransformer accountId status processedBody
                                clientHeaders st of
                           Inl err \<Rightarrow> (Inl (Raised err), opened @ fx)
                         | Inr closing \<Rightarrow> (Inr (), opened @ fx @ closing))))))"

text \<open>
  The JSON body of the 429 answer of the streaming path (the floor applies to the key
  types \<^verbatim>\<open>aws\<close> and \<^verbatim>\<open>databricks\<close> only, which gives the two upper-case names).
\<close>

text \<open>The decimal text of a number in a template string, and of the other primitives
  the token count can be.\<close>

definition show_tokens :: "jsval \<Rightarrow> string" where
  "show_tokens v =
     (case v of
        OfNum (Num n) \<Rightarrow> (if n < 0 then CHR ''-'' # dec (nat (- n)) else dec (nat n))
      | OfNum NaN \<Rightarrow> ''NaN''
      | OfJson (JNum n) \<Rightarrow> (if n < 0 then CHR ''-'' # dec (nat (- n)) else dec (nat n))
      | OfJson (JBool b) \<Rightarrow> (if b then ''true'' else ''false'')
      | OfJson w \<Rightarrow> ''null'')"

definition too_few_tokens_body :: "env \<Rightarrow> string \<Rightarrow> jsval \<Rightarrow> string" where
  "too_few_tokens_body e kt inputTokens =
     json_stringify e
       (JObj [(''error'', JStr ''Too Few Tokens''),
              (''message'', JStr ((if kt = ''aws'' then ''AWS'' else ''DATABRICKS'') @
                 '' keys require a minimum of 250 input tokens. Current request: '' @
                 show_tokens inputTokens @ '' tokens.'')),
              (''type'', JStr ''token_limit_error''),
              (''current_tokens'', (case inputTokens of
                                      OfJson v \<Rightarrow> v
                                    | OfNum (Num n) \<Rightarrow> JNum n
                                    | OfNum NaN \<Rightarrow> JNull)),
              (''minimum_tokens'', JNum 250),
              (''retry_after'', JNum 60)])"

text \<open>
  \<^verbatim>\<open>relayStreamRequestWithUsageCapture\<close>.  The refusal by the token floor writes
  the 429 head and body only to a stream that is not destroyed;
  \<^verbatim>\<open>writeHead\<close> raises when headers have been sent, and the \<^verbatim>\<open>catch\<close> around the
  check then lets the request go on.  The 403 answer of the model restriction is
  written with its JSON body by \<^verbatim>\<open>end\<close>.
\<close>

definition relayStreamRequestWithUsageCapture ::
  "env \<Rightarrow> string \<Rightarrow> client \<Rightarrow> stream_upstream \<Rightarrow> json \<Rightarrow> apiKey \<Rightarrow> (string \<times> string) list \<Rightarrow>
   (string \<Rightarrow> string) option \<Rightarrow> (thrown + unit) \<times> effect list" where
  "relayStreamRequestWithUsageCapture e clock cl up requestBody apiKeyData clientHeaders
       streamTransformer =
     (if requestBody = JNull then (Inl (Raised TypeError), [])
      else if model_restricted apiKeyData requestBody then
        (if cl_headersSent cl then (Inl HeadersSent, []) else (Inr (), [WriteHead 403, EndStream]))
      else
        (case selected_account e of
           None \<Rightarrow> (Inl Rejected, [])
         | Some accountId \<Rightarrow>
        (case access_token e of
           None \<Rightarrow> (Inl Rejected, [])
         | Some accessToken \<Rightarrow>
        (case processRequestBody (relay_config e) clientHeaders requestBody of
           Inl err \<Rightarrow> (Inl (Raised err), [])
         | Inr processedBody \<Rightarrow>
        (let counted = (if floor_applies apiKeyData
                        then [CountTokens processedBody accountId] else []);
             kt = (case ak_keyType apiKeyData of
                     None \<Rightarrow> ''cc''
                   | Some k \<Rightarrow> (if k = [] then ''cc'' else k))
         in
        (case token_floor e apiKeyData processedBody of
           Inl err \<Rightarrow> (Inl (Raised err), counted)
         | Inr (Some inputTokens) \<Rightarrow>
             (if cl_destroyed cl then (Inr (), counted)
              else if \<not> cl_headersSent cl
              then (Inr (), counted @ [WriteHead 429, Write (too_few_tokens_body e kt inputTokens),
                                       EndStream])
              else (case makeClaudeStreamRequestWithUsageCapture e clock cl up processedBody
                           clientHeaders accountId streamTransformer kt of
                      (res, fx) \<Rightarrow> (res, counted @ fx)))
         | Inr None \<Rightarrow>
             (case makeClaudeStreamRequestWithUsageCapture e clock cl up processedBody
                     clientHeaders accountId streamTransformer kt of
                (res, fx) \<Rightarrow> (res, counted @ fx))))))))"

subsection \<open>Reading the effects\<close>

fun is_dispatch :: "effect \<Rightarrow> bool" where
  "is_dispatch (Dispatch b a) = True"
| "is_dispatch x = False"

fun is_usage_event :: "effect \<Rightarrow> bool" where
  "is_usage_event (UsageEvent u a) = True"
| "is_usage_event x = False"

fun is_mark :: "effect \<Rightarrow> bool" where
  "is_mark (MarkRateLimited a h) = True"
| "is_mark x = False"

text \<open>A \<^verbatim>\<open>message_delta\<close> event whose usage carries \<^verbatim>\<open>output_tokens\<close>.\<close>

definition delta_with_output :: "json \<Rightarrow> bool" where
  "delta_with_output data =
     (get ''type'' data = Some (JStr ''message_delta'') \<and>
      (case get ''usage'' data of
         None \<Rightarrow> False
       | Some usage \<Rightarrow> truthy usage \<and> get ''output_tokens'' usage \<noteq> None))"

text \<open>A usage event that carries the account \<open>a\<close> and both an input and an output
  count; every other effect passes.\<close>

fun usage_event_ok :: "string \<Rightarrow> effect \<Rightarrow> bool" where
  "usage_event_ok a (UsageEvent u x) =
     (x = a \<and> ud_input_tokens u \<noteq> None \<and> ud_output_tokens u \<noteq> None)"
| "usage_event_ok a x = True"

text \<open>The flag \<^verbatim>\<open>finalUsageReported\<close> as a number of events.\<close>

definition reported_count :: "capture \<Rightarrow> nat" where
  "reported_count st = (if cp_finalUsageReported st then 1 else 0)"

text \<open>
  The complete lines of the body of a stream, whatever the chunks it arrives in; the
  part after the last line feed is forwarded by the handler of \<^verbatim>\<open>end\<close> and never
  inspected.
\<close>

definition stream_lines :: "string list \<Rightarrow> string list" where
  "stream_lines chunks = butlast (split_lines (concat chunks))"

text \<open>The event a line carries for the usage capture: the parsed payload of a data
  line, when it parses and is not \<^verbatim>\<open>null\<close>.\<close>

definition line_event :: "(string \<Rightarrow> json option) \<Rightarrow> string \<Rightarrow> json option" where
  "line_event parse line =
     (if is_data_line line then
        (case parse (payload line) of
           None \<Rightarrow> None
         | Some data \<Rightarrow> (if data = JNull then None else Some data))
      else None)"

definition stream_events :: "(string \<Rightarrow> json option) \<Rightarrow> string list \<Rightarrow> json list" where
  "stream_events parse chunks = List.map_filter (line_event parse) (stream_lines chunks)"

text \<open>A \<^verbatim>\<open>message_start\<close> event whose message carries a usage.\<close>

definition start_with_usage :: "json \<Rightarrow> bool" where
  "start_with_usage data =
     (get ''type'' data = Some (JStr ''message_start'') \<and>
      (case get ''message'' data of
         None \<Rightarrow> False
       | Some message \<Rightarrow> truthy message \<and> truthy_opt (get ''usage'' message)))"

text \<open>In a sequence of events, a \<^verbatim>\<open>message_delta\<close> with \<^verbatim>\<open>output_tokens\<close> comes
  after a \<^verbatim>\<open>message_start\<close> with a usage.\<close>

fun delta_follows_start :: "json list \<Rightarrow> bool" where
  "delta_follows_start [] = False"
| "delta_follows_start (d # ds) =
     (if start_with_usage d then list_ex delta_with_output ds else delta_follows_start ds)"

text \<open>\<^verbatim>\<open>collectedUsageData.input_tokens !== undefined\<close>.\<close>

definition input_seen :: "capture \<Rightarrow> bool" where
  "input_seen st = (ud_input_tokens (cp_collectedUsageData st) \<noteq> None)"

text \<open>Whether a sequence of events calls for the usage event, given whether input
  counts have been collected and whether the event has been reported before.\<close>

definition usage_due :: "bool \<Rightarrow> bool \<Rightarrow> json list \<Rightarrow> bool" where
  "usage_due seen reported evs =
     (\<not> reported \<and> (if seen then list_ex delta_with_output evs else delta_follows_start evs))"

subsection \<open>Usage objects inside the integers\<close>

text \<open>A token field that the rewrites read as an integer: absent or falsy (read as 0),
  a boolean, or an integer.\<close>

definition integer_or_absent :: "json option \<Rightarrow> bool" where
  "integer_or_absent x =
     (case x of
        None \<Rightarrow> True
      | Some JNull \<Rightarrow> True
      | Some (JBool b) \<Rightarrow> True
      | Some (JNum n) \<Rightarrow> True
      | Some (JStr s) \<Rightarrow> s = []
      | Some v \<Rightarrow> False)"

text \<open>A usage value all of whose listed token fields are such, when it is an object.\<close>

definition tokens_in_model :: "string list \<Rightarrow> json option \<Rightarrow> bool" where
  "tokens_in_model names x =
     (case x of
        Some (JObj u) \<Rightarrow> list_all (\<lambda>f. integer_or_absent (map_of u f)) names
      | _ \<Rightarrow> True)"

text \<open>\<^verbatim>\<open>data.message.usage\<close>, when \<^verbatim>\<open>data.message\<close> is an object.\<close>

definition nested_usage :: "(string \<times> json) list \<Rightarrow> json option" where
  "nested_usage md =
     (case map_of md ''message'' of
        Some (JObj msg) \<Rightarrow> map_of msg ''usage''
      | _ \<Rightarrow> None)"

text \<open>A \<^verbatim>\<open>content\<close> value that, when it is an array, has no \<^verbatim>\<open>null\<close> entry.\<close>

definition no_null_items :: "json option \<Rightarrow> bool" where
  "no_null_items x =
     (case x of
        Some (JArr items) \<Rightarrow> list_all (\<lambda>item. item \<noteq> JNull) items
      | _ \<Rightarrow> True)"

text \<open>The three token fields the Bedrock rewrites read.\<close>

definition bedrock_fields :: "string list" where
  "bedrock_fields =
     [''input_tokens'', ''cache_read_input_tokens'', ''cache_creation_input_tokens'']"

text \<open>
  What the specification says of a usage object \<open>u\<close> and the object \<open>u'\<close> the Claude
  Code rewrite leaves in its place: a numeric \<^verbatim>\<open>input_tokens\<close> above 14 has lost 14
  and one up to 14 is as it was; every other field is as it was.  Besides, the code
  leaves \<^verbatim>\<open>true\<close> as it is and writes 0 where \<^verbatim>\<open>input_tokens\<close> is absent or falsy.
\<close>

definition cc_usage_rewritten :: "(string \<times> json) list \<Rightarrow> (string \<times> json) list \<Rightarrow> bool" where
  "cc_usage_rewritten u u' =
     ((\<forall>n. map_of u ''input_tokens'' = Some (JNum n) \<longrightarrow>
          map_of u' ''input_tokens'' = Some (JNum (if 14 < n then n - 14 else n))) \<and>
      (map_of u ''input_tokens'' = Some (JBool True) \<longrightarrow>
          map_of u' ''input_tokens'' = Some (JBool True)) \<and>
      ((\<forall>n. map_of u ''input_tokens'' \<noteq> Some (JNum n)) \<and>
       map_of u ''input_tokens'' \<noteq> Some (JBool True) \<longrightarrow>
          map_of u' ''input_tokens'' = Some (JNum 0)) \<and>
      (\<forall>k. k \<noteq> ''input_tokens'' \<longrightarrow> map_of u' k = map_of u k))"

section \<open>Theorems\<close>

subsection \<open>Token counter\<close>

lemma ceil_3_5_div: "\<lceil>real_of_int n / 3.5\<rceil> = (2 * n + 6) div 7"
proof -
  have "real_of_int n / 3.5 = real_of_int (2 * n) / real_of_int 7" by simp
  then have "\<lceil>real_of_int n / 3.5\<rceil> = \<lceil>real_of_int (2 * n) / real_of_int 7\<rceil>"
    by (simp only:)
  also have "\<dots> = - ((- (2 * n)) div 7)"
    by (simp only: ceiling_divide_eq_div)
  also have "\<dots> = (2 * n + 6) div 7" by presburger
  finally show ?thesis .
qed

lemma count_items_plain:
  "list_all plain_item cs \<Longrightarrow>
   count_items (Num a) cs = Inr (Num (a + int (sum_list (map spec_item_chars cs))))"
proof (induction cs arbitrary: a)
  case Nil
  then show ?case by simp
next
  case (Cons c cs)
  then show ?case
    by (cases c) (auto simp: spec_item_chars_def split: option.splits json.splits)
qed

lemma count_messages_plain:
  "list_all plain_message ms \<Longrightarrow>
   count_messages (Num a) ms =
     Inr (Num (a + int (sum_list (map (\<lambda>m. spec_content_chars (get ''content'' m)) ms))))"
proof (induction ms arbitrary: a)
  case Nil
  then show ?case by simp
next
  case (Cons m ms)
  then show ?case
    by (cases m)
       (auto simp: spec_content_chars_def count_items_plain split: option.splits json.splits)
qed

lemma totalChars_plain:
  "plain_body body \<Longrightarrow> totalChars body = Inr (Num (int (spec_total_chars body)))"
  unfolding plain_body_def totalChars_def spec_total_chars_def
  by (auto simp: spec_content_chars_def count_items_plain count_messages_plain
           split: option.splits json.splits)

lemma estimateTokenCount_no_raise: "estimateTokenCount body \<noteq> Inl TypeError"
  by (auto simp: estimateTokenCount_def split: sum.splits error.splits)

text \<open>
  C8, as the code has it.  \<^verbatim>\<open>countInputTokens\<close> never throws.  When the upstream call
  fails it returns a number: \<open>\<lceil>total_chars / 3.5\<rceil>\<close>, with \<open>total_chars\<close> as the
  specification sums it, on every body the estimator walks without an exception, and
  the constant 500 when the estimator raises.  When the call succeeds with a reply
  that is not \<^verbatim>\<open>null\<close> it returns the \<^verbatim>\<open>input_tokens\<close> of the reply when that is truthy
  and 0 otherwise, so a numeric \<^verbatim>\<open>input_tokens\<close> comes back as it is; a \<^verbatim>\<open>null\<close> reply
  and a \<^verbatim>\<open>null\<close> body end in the estimator like a failed call.
\<close>

theorem countInputTokens_fallback:
  "countInputTokens reply body \<noteq> Inl TypeError \<and>
   (plain_body body \<longrightarrow>
      countInputTokens CallFailed body = Inr (OfNum (Num (spec_estimate body)))) \<and>
   (totalChars body = Inl TypeError \<longrightarrow>
      countInputTokens CallFailed body = Inr (OfNum (Num 500))) \<and>
   (\<forall>v. countInputTokens CallFailed body = Inr v \<longrightarrow> is_number v) \<and>
   (body \<noteq> JNull \<and> response \<noteq> JNull \<longrightarrow>
      countInputTokens (Reply response) body =
        Inr (OfJson (case get ''input_tokens'' response of
                       None \<Rightarrow> JNum 0
                     | Some v \<Rightarrow> (if truthy v then v else JNum 0)))) \<and>
   (\<forall>n. body \<noteq> JNull \<and> get ''input_tokens'' response = Some (JNum n) \<longrightarrow>
      countInputTokens (Reply response) body = Inr (OfJson (JNum n))) \<and>
   (body = JNull \<or> response = JNull \<longrightarrow>
      countInputTokens (Reply response) body = countInputTokens CallFailed body)"
proof (intro conjI impI allI)
  show "countInputTokens reply body \<noteq> Inl TypeError"
    using estimateTokenCount_no_raise[of body]
    by (auto simp: countInputTokens_def Let_def split: sum.splits count_reply.splits option.splits)
next
  assume "plain_body body"
  then have "totalChars body = Inr (Num (int (spec_total_chars body)))"
    by (rule totalChars_plain)
  then show "countInputTokens CallFailed body = Inr (OfNum (Num (spec_estimate body)))"
    by (simp add: countInputTokens_def estimateTokenCount_def spec_estimate_def Let_def)
next
  assume "totalChars body = Inl TypeError"
  then show "countInputTokens CallFailed body = Inr (OfNum (Num 500))"
    by (simp add: countInputTokens_def estimateTokenCount_def Let_def)
next
  fix v
  assume "countInputTokens CallFailed body = Inr v"
  then show "is_number v"
    by (auto simp: countInputTokens_def Let_def split: sum.splits if_splits)
next
  assume "body \<noteq> JNull \<and> response \<noteq> JNull"
  then show "countInputTokens (Reply response) body =
        Inr (OfJson (case get ''input_tokens'' response of
                       None \<Rightarrow> JNum 0
                     | Some v \<Rightarrow> (if truthy v then v else JNum 0)))"
    by (simp add: countInputTokens_def Let_def split: option.splits)
next
  fix n
  assume a: "body \<noteq> JNull \<and> get ''input_tokens'' response = Some (JNum n)"
  then have "response \<noteq> JNull" by auto
  with a show "countInputTokens (Reply response) body = Inr (OfJson (JNum n))"
    by (simp add: countInputTokens_def Let_def)
next
  assume "body = JNull \<or> response = JNull"
  then show "countInputTokens (Reply response) body = countInputTokens CallFailed body"
    by (auto simp: countInputTokens_def Let_def)
qed

theorem countInputTokens_fallback_witness:
  "plain_body (JObj [(''messages'', JArr [JObj [(''role'', JStr ''user''),
                                               (''content'', JStr ''Hello there'')]]),
                     (''system'', JStr ''abc'')]) \<and>
   countInputTokens CallFailed
     (JObj [(''messages'', JArr [JObj [(''role'', JStr ''user''),
                                      (''content'', JStr ''Hello there'')]]),
            (''system'', JStr ''abc'')]) = Inr (OfNum (Num 4)) \<and>
   totalChars (JObj [(''messages'', JArr [JNull])]) = Inl TypeError \<and>
   countInputTokens CallFailed (JObj [(''messages'', JArr [JNull])]) = Inr (OfNum (Num 500)) \<and>
   countInputTokens (Reply (JObj [(''input_tokens'', JNum 120)]))
     (JObj [(''messages'', JArr [JNull])]) = Inr (OfJson (JNum 120)) \<and>
   countInputTokens (Reply (JObj [])) (JObj [(''messages'', JArr [JNull])])
     = Inr (OfJson (JNum 0)) \<and>
   countInputTokens (Reply JNull) (JObj [(''messages'', JArr [JNull])]) = Inr (OfNum (Num 500))"
  using countInputTokens_fallback[of CallFailed
          "JObj [(''messages'', JArr [JObj [(''role'', JStr ''user''),
                                           (''content'', JStr ''Hello there'')]]),
                 (''system'', JStr ''abc'')]" JNull]
        countInputTokens_fallback[of CallFailed "JObj [(''messages'', JArr [JNull])]"
          "JObj [(''input_tokens'', JNum 120)]"]
        countInputTokens_fallback[of CallFailed "JObj [(''messages'', JArr [JNull])]" "JObj []"]
        countInputTokens_fallback[of CallFailed "JObj [(''messages'', JArr [JNull])]" JNull]
  by (simp add: plain_body_def totalChars_def spec_estimate_def spec_total_chars_def
        spec_content_chars_def)

text \<open>
  C8 as stated fails: on the body \<^verbatim>\<open>{"messages":[null]}\<close> the characters sum to 0, so
  the claim promises \<open>\<lceil>0 / 3.5\<rceil> = 0\<close>, and the code returns 500; and a reply
  \<^verbatim>\<open>{"input_tokens":"12"}\<close> is handed back as the string it carries.
\<close>

theorem countInputTokens_fallback_counterexample:
  "countInputTokens CallFailed (JObj [(''messages'', JArr [JNull])]) = Inr (OfNum (Num 500)) \<and>
   spec_estimate (JObj [(''messages'', JArr [JNull])]) = 0 \<and>
   countInputTokens (Reply (JObj [(''input_tokens'', JStr ''12'')]))
     (JObj [(''messages'', JArr [])]) = Inr (OfJson (JStr ''12'')) \<and>
   \<not> is_number (OfJson (JStr ''12''))"
  by (simp add: countInputTokens_def estimateTokenCount_def totalChars_def spec_estimate_def
        spec_total_chars_def spec_content_chars_def)

subsection \<open>Response shaper\<close>


lemma replace_first_prefix:
  "starts_with p s \<Longrightarrow> replace_first p r s = r @ drop (length p) s"
  by (cases s) (auto simp: starts_with_def)

lemma starts_with_append [simp]: "starts_with p (p @ r)"
  by (simp add: starts_with_def)

lemma usage_step_other:
  "usage_step f md = Inr md' \<Longrightarrow> k \<noteq> ''usage'' \<Longrightarrow> map_of md' k = map_of md k"
  by (auto simp: usage_step_def update_conv' split: option.splits sum.splits if_splits)

lemma message_usage_step_other:
  "message_usage_step f md = Inr md' \<Longrightarrow> k \<noteq> ''message'' \<Longrightarrow> map_of md' k = map_of md k"
  by (auto simp: message_usage_step_def update_conv' split: option.splits sum.splits if_splits json.splits)

lemma claude_code_usage_obj:
  "integer_or_absent (map_of u ''input_tokens'') \<Longrightarrow>
   \<exists>u'. claude_code_usage (JObj u) = Inr (JObj u') \<and> cc_usage_rewritten u u'"
  by (auto simp: claude_code_usage_def integer_or_absent_def update_conv' cc_usage_rewritten_def
           split: option.splits json.splits)

lemma claude_code_usage_arr:
  "\<exists>u'. claude_code_usage (JArr xs) = Inr u'"
  by (auto simp: claude_code_usage_def)

lemma usage_step_cc:
  assumes "tokens_in_model [''input_tokens''] (map_of md ''usage'')"
  shows "\<exists>md'. usage_step claude_code_usage md = Inr md' \<and>
     (\<forall>u. map_of md ''usage'' = Some (JObj u) \<longrightarrow>
        (\<exists>u'. map_of md' ''usage'' = Some (JObj u') \<and> cc_usage_rewritten u u')) \<and>
     ((\<forall>v. map_of md ''usage'' = Some v \<longrightarrow> \<not> is_object v) \<longrightarrow>
        map_of md' ''usage'' = map_of md ''usage'')"
proof (cases "map_of md ''usage''")
  case None
  then show ?thesis by (simp add: usage_step_def)
next
  case (Some x)
  show ?thesis
  proof (cases x)
    case (JObj u)
    with Some assms have "integer_or_absent (map_of u ''input_tokens'')"
      by (simp add: tokens_in_model_def)
    from claude_code_usage_obj[OF this] obtain u' where
      u': "claude_code_usage (JObj u) = Inr (JObj u')" "cc_usage_rewritten u u'"
      by blast
    with Some JObj show ?thesis
      by (auto simp: usage_step_def update_conv')
  next
    case (JArr xs)
    with Some claude_code_usage_arr[of xs] show ?thesis
      by (auto simp: usage_step_def)
  qed (use Some in \<open>auto simp: usage_step_def\<close>)
qed

text \<open>
  C3.  On every response object whose usage objects carry token counts inside the
  integers, \<^verbatim>\<open>_modifyResponseForClaudeCode\<close> (the rewrite of the cc and anthropic
  personas) returns an object in which \<^verbatim>\<open>usage.input_tokens\<close> is the original value
  minus 14 when that value exceeds 14 and the original value otherwise, and every
  other field of \<^verbatim>\<open>usage\<close> is as it was, whatever \<^verbatim>\<open>input_tokens\<close> was (where it
  was absent or falsy the rewrite has written 0); a \<^verbatim>\<open>usage\<close> that is not an object
  is as it was.  The same holds for \<^verbatim>\<open>message.usage\<close>; every other field of
  \<^verbatim>\<open>message\<close> and every other top-level field is as it was.
\<close>

theorem claude_code_usage_rewrite:
  assumes top: "tokens_in_model [''input_tokens''] (map_of md ''usage'')"
      and nested: "tokens_in_model [''input_tokens''] (nested_usage md)"
  shows "\<exists>r. modifyResponseForClaudeCode (JObj md) = Inr (JObj r) \<and>
     (\<forall>u. map_of md ''usage'' = Some (JObj u) \<longrightarrow>
        (\<exists>u'. map_of r ''usage'' = Some (JObj u') \<and> cc_usage_rewritten u u')) \<and>
     ((\<forall>v. map_of md ''usage'' = Some v \<longrightarrow> \<not> is_object v) \<longrightarrow>
        map_of r ''usage'' = map_of md ''usage'') \<and>
     (\<forall>m. map_of md ''message'' = Some (JObj m) \<longrightarrow>
        (\<exists>m'. map_of r ''message'' = Some (JObj m') \<and>
              (\<forall>u. map_of m ''usage'' = Some (JObj u) \<longrightarrow>
                 (\<exists>u'. map_of m' ''usage'' = Some (JObj u') \<and> cc_usage_rewritten u u')) \<and>
              ((\<forall>v. map_of m ''usage'' = Some v \<longrightarrow> \<not> is_object v) \<longrightarrow>
                 map_of m' ''usage'' = map_of m ''usage'') \<and>
              (\<forall>k. k \<noteq> ''usage'' \<longrightarrow> map_of m' k = map_of m k))) \<and>
     ((\<forall>m. map_of md ''message'' \<noteq> Some (JObj m)) \<longrightarrow>
        map_of r ''message'' = map_of md ''message'') \<and>
     (\<forall>k. k \<noteq> ''usage'' \<and> k \<noteq> ''message'' \<longrightarrow> map_of r k = map_of md k)"
proof -
  from usage_step_cc[OF top] obtain md1 where
    s1: "usage_step claude_code_usage md = Inr md1"
    and p1: "\<forall>u. map_of md ''usage'' = Some (JObj u) \<longrightarrow>
        (\<exists>u'. map_of md1 ''usage'' = Some (JObj u') \<and> cc_usage_rewritten u u')"
    and q1: "(\<forall>v. map_of md ''usage'' = Some v \<longrightarrow> \<not> is_object v) \<longrightarrow>
        map_of md1 ''usage'' = map_of md ''usage''"
    by blast
  have o1: "\<And>k. k \<noteq> ''usage'' \<Longrightarrow> map_of md1 k = map_of md k"
    using usage_step_other[OF s1] by blast
  then have msg1: "map_of md1 ''message'' = map_of md ''message''" by simp
  have "\<exists>md2. message_usage_step claude_code_usage md1 = Inr md2 \<and>
     (\<forall>m. map_of md ''message'' = Some (JObj m) \<longrightarrow>
        (\<exists>m'. map_of md2 ''message'' = Some (JObj m') \<and>
              (\<forall>u. map_of m ''usage'' = Some (JObj u) \<longrightarrow>
                 (\<exists>u'. map_of m' ''usage'' = Some (JObj u') \<and> cc_usage_rewritten u u')) \<and>
              ((\<forall>v. map_of m ''usage'' = Some v \<longrightarrow> \<not> is_object v) \<longrightarrow>
                 map_of m' ''usage'' = map_of m ''usage'') \<and>
              (\<forall>k. k \<noteq> ''usage'' \<longrightarrow> map_of m' k = map_of m k))) \<and>
     ((\<forall>m. map_of md ''message'' \<noteq> Some (JObj m)) \<longrightarrow>
        map_of md2 ''message'' = map_of md ''message'')"
  proof (cases "map_of md ''message''")
    case None
    with msg1 show ?thesis by (simp add: message_usage_step_def)
  next
    case (Some x)
    show ?thesis
    proof (cases x)
      case (JObj m)
      with Some nested have "tokens_in_model [''input_tokens''] (map_of m ''usage'')"
        by (simp add: nested_usage_def)
      from usage_step_cc[OF this] obtain m' where
        s2: "usage_step claude_code_usage m = Inr m'"
        and p2: "\<forall>u. map_of m ''usage'' = Some (JObj u) \<longrightarrow>
          (\<exists>u'. map_of m' ''usage'' = Some (JObj u') \<and> cc_usage_rewritten u u')"
        and q2: "(\<forall>v. map_of m ''usage'' = Some v \<longrightarrow> \<not> is_object v) \<longrightarrow>
          map_of m' ''usage'' = map_of m ''usage''"
        by blast
      have o2: "\<And>k. k \<noteq> ''usage'' \<Longrightarrow> map_of m' k = map_of m k"
        using usage_step_other[OF s2] by blast
      have r: "message_usage_step claude_code_usage md1 = Inr (AList.update ''message'' (JObj m') md1)"
        using Some JObj msg1 s2 by (simp add: message_usage_step_def)
      have g: "map_of (AList.update ''message'' (JObj m') md1) ''message'' = Some (JObj m')"
        by (simp add: update_conv')
      show ?thesis
        unfolding r using Some JObj g p2 q2 o2 by simp
    qed (use Some msg1 in \<open>auto simp: message_usage_step_def\<close>)
  qed
  then obtain md2 where
    s3: "message_usage_step claude_code_usage md1 = Inr md2"
    and p3: "\<forall>m. map_of md ''message'' = Some (JObj m) \<longrightarrow>
        (\<exists>m'. map_of md2 ''message'' = Some (JObj m') \<and>
              (\<forall>u. map_of m ''usage'' = Some (JObj u) \<longrightarrow>
                 (\<exists>u'. map_of m' ''usage'' = Some (JObj u') \<and> cc_usage_rewritten u u')) \<and>
              ((\<forall>v. map_of m ''usage'' = Some v \<longrightarrow> \<not> is_object v) \<longrightarrow>
                 map_of m' ''usage'' = map_of m ''usage'') \<and>
              (\<forall>k. k \<noteq> ''usage'' \<longrightarrow> map_of m' k = map_of m k))"
    and q3: "(\<forall>m. map_of md ''message'' \<noteq> Some (JObj m)) \<longrightarrow>
        map_of md2 ''message'' = map_of md ''message''"
    by blast
  have o3: "\<And>k. k \<noteq> ''message'' \<Longrightarrow> map_of md2 k = map_of md1 k"
    using message_usage_step_other[OF s3] by blast
  have res: "modifyResponseForClaudeCode (JObj md) = Inr (JObj md2)"
    using s1 s3 by (simp add: modifyResponseForClaudeCode_def)
  have u2: "map_of md2 ''usage'' = map_of md1 ''usage''" using o3 by simp
  have fr: "\<forall>k. k \<noteq> ''usage'' \<and> k \<noteq> ''message'' \<longrightarrow> map_of md2 k = map_of md k"
    using o1 o3 by simp
  show ?thesis
    using res p1 q1 p3 q3 fr unfolding u2[symmetric]
    by (intro exI[of _ md2]) (simp only: simp_thms)
qed

theorem claude_code_usage_rewrite_witness:
  "tokens_in_model [''input_tokens'']
     (map_of [(''type'', JStr ''message_start''),
              (''message'', JObj [(''id'', JStr ''msg_1''),
                 (''usage'', JObj [(''input_tokens'', JNum 100), (''output_tokens'', JNum 1)])]),
              (''usage'', JObj [(''input_tokens'', JNum 14), (''output_tokens'', JNum 30)])]
        ''usage'') \<and>
   tokens_in_model [''input_tokens'']
     (nested_usage [(''type'', JStr ''message_start''),
              (''message'', JObj [(''id'', JStr ''msg_1''),
                 (''usage'', JObj [(''input_tokens'', JNum 100), (''output_tokens'', JNum 1)])]),
              (''usage'', JObj [(''input_tokens'', JNum 14), (''output_tokens'', JNum 30)])]) \<and>
   modifyResponseForClaudeCode
     (JObj [(''type'', JStr ''message_start''),
            (''message'', JObj [(''id'', JStr ''msg_1''),
               (''usage'', JObj [(''input_tokens'', JNum 100), (''output_tokens'', JNum 1)])]),
            (''usage'', JObj [(''input_tokens'', JNum 14), (''output_tokens'', JNum 30)])])
   = Inr (JObj [(''type'', JStr ''message_start''),
            (''message'', JObj [(''id'', JStr ''msg_1''),
               (''usage'', JObj [(''input_tokens'', JNum 86), (''output_tokens'', JNum 1)])]),
            (''usage'', JObj [(''input_tokens'', JNum 14), (''output_tokens'', JNum 30)])]) \<and>
   tokens_in_model [''input_tokens'']
     (map_of [(''type'', JStr ''message_delta''),
              (''usage'', JObj [(''output_tokens'', JNum 30)])] ''usage'') \<and>
   tokens_in_model [''input_tokens'']
     (nested_usage [(''type'', JStr ''message_delta''),
                    (''usage'', JObj [(''output_tokens'', JNum 30)])]) \<and>
   modifyResponseForClaudeCode
     (JObj [(''type'', JStr ''message_delta''),
            (''usage'', JObj [(''output_tokens'', JNum 30)])])
   = Inr (JObj [(''type'', JStr ''message_delta''),
            (''usage'', JObj [(''output_tokens'', JNum 30), (''input_tokens'', JNum 0)])])"
  using claude_code_usage_rewrite[of "[(''type'', JStr ''message_start''),
            (''message'', JObj [(''id'', JStr ''msg_1''),
               (''usage'', JObj [(''input_tokens'', JNum 100), (''output_tokens'', JNum 1)])]),
            (''usage'', JObj [(''input_tokens'', JNum 14), (''output_tokens'', JNum 30)])]"]
    claude_code_usage_rewrite[of "[(''type'', JStr ''message_delta''),
            (''usage'', JObj [(''output_tokens'', JNum 30)])]"]
  by (simp add: modifyResponseForClaudeCode_def usage_step_def message_usage_step_def
        claude_code_usage_def tokens_in_model_def nested_usage_def integer_or_absent_def)

lemma bedrock_id_other: "k \<noteq> ''id'' \<Longrightarrow> map_of (bedrock_id md) k = map_of md k"
  by (auto simp: bedrock_id_def update_conv' split: option.splits json.splits)

lemma bedrock_id_id:
  "map_of md ''id'' = Some (JStr (''msg_'' @ rest)) \<Longrightarrow>
   map_of (bedrock_id md) ''id'' = Some (JStr (''msg_bdrk_'' @ rest))"
  using starts_with_append[of "''msg_''" rest]
  by (simp add: bedrock_id_def update_conv' replace_first_prefix del: starts_with_append)

lemma bedrock_message_id_other:
  "k \<noteq> ''message'' \<Longrightarrow> map_of (bedrock_message_id md) k = map_of md k"
  by (auto simp: bedrock_message_id_def update_conv' split: option.splits json.splits)

lemma bedrock_message_id_usage: "nested_usage (bedrock_message_id md) = nested_usage md"
  by (auto simp: bedrock_message_id_def nested_usage_def update_conv' split: option.splits json.splits)

lemma bedrock_content_block_other:
  "k \<noteq> ''content_block'' \<Longrightarrow> map_of (bedrock_content_block md) k = map_of md k"
  by (auto simp: bedrock_content_block_def update_conv' split: option.splits json.splits)

lemma bedrock_item_tool_use:
  "map_of it ''type'' = Some (JStr ''tool_use'') \<Longrightarrow>
   map_of it ''id'' = Some (JStr (''toolu_'' @ rest)) \<Longrightarrow>
   bedrock_item (JObj it) = Inr (JObj (AList.update ''id'' (JStr (''toolu_bdrk_'' @ rest)) it))"
  using starts_with_append[of "''toolu_''" rest]
  by (simp add: bedrock_item_def replace_first_prefix del: starts_with_append)

lemma bedrock_item_defined: "item \<noteq> JNull \<Longrightarrow> \<exists>item'. bedrock_item item = Inr item'"
  by (auto simp: bedrock_item_def split: option.splits json.splits)

lemma bedrock_content_items:
  "list_all (\<lambda>item. item \<noteq> JNull) items \<Longrightarrow>
   \<exists>items'. bedrock_content items = Inr items' \<and> length items' = length items \<and>
     (\<forall>i < length items. bedrock_item (items ! i) = Inr (items' ! i))"
proof (induction items)
  case Nil
  then show ?case by simp
next
  case (Cons item items)
  then obtain items' where
    tl: "bedrock_content items = Inr items'" "length items' = length items"
      "\<forall>i < length items. bedrock_item (items ! i) = Inr (items' ! i)"
    by auto
  from Cons.prems obtain item' where hd: "bedrock_item item = Inr item'"
    using bedrock_item_defined[of item] by auto
  have "\<forall>i < length (item # items). bedrock_item ((item # items) ! i) = Inr ((item' # items') ! i)"
    using hd tl(3) by (auto simp: nth_Cons split: nat.splits)
  with hd tl show ?case by auto
qed

lemma bedrock_content_step_other:
  "bedrock_content_step md = Inr md' \<Longrightarrow> k \<noteq> ''content'' \<Longrightarrow> map_of md' k = map_of md k"
  by (auto simp: bedrock_content_step_def update_conv' split: option.splits json.splits sum.splits)

lemma integer_or_absent_number:
  "integer_or_absent x \<Longrightarrow> \<exists>n. to_number (or0 x) = Inr n"
  by (auto simp: integer_or_absent_def split: option.splits json.splits)

lemma minus14_number: "\<exists>v. minus14 (JNum n) = Inr v"
  by simp

lemma bedrock_usage_defined:
  assumes "tokens_in_model bedrock_fields (Some usage)" and "is_object usage"
  shows "\<exists>u'. bedrock_usage ''databricks'' usage = Inr u'"
proof (cases usage)
  case (JObj u)
  with assms have a: "integer_or_absent (map_of u ''input_tokens'')"
      "integer_or_absent (map_of u ''cache_read_input_tokens'')"
      "integer_or_absent (map_of u ''cache_creation_input_tokens'')"
    by (simp_all add: tokens_in_model_def bedrock_fields_def)
  from a[THEN integer_or_absent_number] obtain x y z where
    "to_number (or0 (map_of u ''input_tokens'')) = Inr x"
    "to_number (or0 (map_of u ''cache_read_input_tokens'')) = Inr y"
    "to_number (or0 (map_of u ''cache_creation_input_tokens'')) = Inr z"
    by blast
  with JObj show ?thesis
    by (simp add: bedrock_usage_def js_add_def Let_def)
next
  case (JArr xs)
  then show ?thesis by (simp add: bedrock_usage_def js_add_def Let_def)
qed (use assms in auto)

lemma bedrock_usage_databricks:
  assumes "map_of u ''input_tokens'' = Some (JNum a)"
      and "map_of u ''cache_read_input_tokens'' = Some (JNum b)"
      and "map_of u ''cache_creation_input_tokens'' = Some (JNum c)"
  shows "bedrock_usage ''databricks'' (JObj u) =
     Inr (JObj (AList.update ''input_tokens'' (JNum (if 14 < a + b + c then a + b + c - 14 else a + b + c))
           (AList.update ''cache_read_input_tokens'' (JNum 0)
             (AList.update ''cache_creation_input_tokens'' (JNum 0) u))))"
  using assms by (simp add: bedrock_usage_def js_add_def Let_def)

lemma usage_step_defined:
  assumes "tokens_in_model bedrock_fields (map_of md ''usage'')"
  shows "\<exists>md'. usage_step (bedrock_usage ''databricks'') md = Inr md'"
proof (cases "map_of md ''usage''")
  case None
  then show ?thesis by (simp add: usage_step_def)
next
  case (Some x)
  show ?thesis
  proof (cases "truthy x \<and> is_object x")
    case True
    with Some assms bedrock_usage_defined[of x] obtain u' where
      "bedrock_usage ''databricks'' x = Inr u'" by auto
    with Some True show ?thesis by (simp add: usage_step_def)
  next
    case False
    with Some show ?thesis by (auto simp: usage_step_def)
  qed
qed

lemma message_usage_step_defined:
  assumes "tokens_in_model bedrock_fields (nested_usage md)"
  shows "\<exists>md'. message_usage_step (bedrock_usage ''databricks'') md = Inr md'"
proof (cases "map_of md ''message''")
  case None
  then show ?thesis by (simp add: message_usage_step_def)
next
  case (Some x)
  show ?thesis
  proof (cases x)
    case (JObj m)
    with Some assms have "tokens_in_model bedrock_fields (map_of m ''usage'')"
      by (simp add: nested_usage_def)
    from usage_step_defined[OF this] Some JObj show ?thesis
      by (auto simp: message_usage_step_def)
  qed (use Some in \<open>auto simp: message_usage_step_def\<close>)
qed

text \<open>
  C2.  On every response object whose \<^verbatim>\<open>usage\<close> carries the three input counters (as
  integers), whose \<^verbatim>\<open>content\<close> array has no \<^verbatim>\<open>null\<close> entry and whose nested
  \<^verbatim>\<open>message.usage\<close>, if any, is inside the integers, \<^verbatim>\<open>_modifyResponseForBedrock\<close>
  for the databricks persona returns an object in which a top-level id
  \<^verbatim>\<open>msg_<rest>\<close> has become \<^verbatim>\<open>msg_bdrk_<rest>\<close>, every \<^verbatim>\<open>tool_use\<close> item of
  \<^verbatim>\<open>content\<close> with an id \<^verbatim>\<open>toolu_<rest>\<close> carries \<^verbatim>\<open>toolu_bdrk_<rest>\<close>,
  \<^verbatim>\<open>input_tokens\<close> is the sum of the three counters minus 14 when the sum exceeds 14
  and the sum otherwise, and both cache counters are 0; the other usage fields are as
  they were.  The witness is scenario S4 of the specification: 1000 + 200 + 50 - 14 =
  1236, cache counters 0, output_tokens 30.
\<close>

theorem databricks_rewrite:
  assumes usage: "map_of md ''usage'' = Some (JObj u)"
      and inp: "map_of u ''input_tokens'' = Some (JNum a)"
      and cr: "map_of u ''cache_read_input_tokens'' = Some (JNum b)"
      and cc: "map_of u ''cache_creation_input_tokens'' = Some (JNum c)"
      and content: "no_null_items (map_of md ''content'')"
      and nested: "tokens_in_model bedrock_fields (nested_usage md)"
  shows "\<exists>r u'. modifyResponseForBedrock (JObj md) ''databricks'' = Inr (JObj r) \<and>
     (\<forall>rest. map_of md ''id'' = Some (JStr (''msg_'' @ rest)) \<longrightarrow>
        map_of r ''id'' = Some (JStr (''msg_bdrk_'' @ rest))) \<and>
     (\<forall>items. map_of md ''content'' = Some (JArr items) \<longrightarrow>
        (\<exists>items'. map_of r ''content'' = Some (JArr items') \<and> length items' = length items \<and>
           (\<forall>i it rest. i < length items \<longrightarrow> items ! i = JObj it \<longrightarrow>
              map_of it ''type'' = Some (JStr ''tool_use'') \<longrightarrow>
              map_of it ''id'' = Some (JStr (''toolu_'' @ rest)) \<longrightarrow>
              items' ! i = JObj (AList.update ''id'' (JStr (''toolu_bdrk_'' @ rest)) it)))) \<and>
     map_of r ''usage'' = Some (JObj u') \<and>
     map_of u' ''input_tokens'' = Some (JNum (if 14 < a + b + c then a + b + c - 14 else a + b + c)) \<and>
     map_of u' ''cache_creation_input_tokens'' = Some (JNum 0) \<and>
     map_of u' ''cache_read_input_tokens'' = Some (JNum 0) \<and>
     (\<forall>k. k \<notin> set bedrock_fields \<longrightarrow> map_of u' k = map_of u k)"
proof -
  define md2 where "md2 = bedrock_message_id (bedrock_id md)"
  have md2_other: "\<And>k. k \<noteq> ''id'' \<Longrightarrow> k \<noteq> ''message'' \<Longrightarrow> map_of md2 k = map_of md k"
    by (simp add: md2_def bedrock_id_other bedrock_message_id_other)
  have md2_id: "map_of md2 ''id'' = map_of (bedrock_id md) ''id''"
    by (simp add: md2_def bedrock_message_id_other)
  have "nested_usage (bedrock_id md) = nested_usage md"
    unfolding nested_usage_def by (simp add: bedrock_id_other)
  then have md2_nested: "nested_usage md2 = nested_usage md"
    by (simp add: md2_def bedrock_message_id_usage)
  have "\<exists>md3. bedrock_content_step md2 = Inr md3 \<and>
     (\<forall>items. map_of md ''content'' = Some (JArr items) \<longrightarrow>
        (\<exists>items'. map_of md3 ''content'' = Some (JArr items') \<and> length items' = length items \<and>
           (\<forall>i < length items. bedrock_item (items ! i) = Inr (items' ! i))))"
  proof (cases "map_of md ''content''")
    case None
    then show ?thesis using md2_other[of "''content''"] by (simp add: bedrock_content_step_def)
  next
    case (Some x)
    show ?thesis
    proof (cases x)
      case (JArr items)
      with Some content have "list_all (\<lambda>item. item \<noteq> JNull) items"
        by (simp add: no_null_items_def)
      from bedrock_content_items[OF this] obtain items' where
        "bedrock_content items = Inr items'" "length items' = length items"
        "\<forall>i < length items. bedrock_item (items ! i) = Inr (items' ! i)" by blast
      with Some JArr md2_other[of "''content''"] show ?thesis
        by (simp add: bedrock_content_step_def update_conv')
    qed (use Some md2_other[of "''content''"] in \<open>auto simp: bedrock_content_step_def\<close>)
  qed
  then obtain md3 where s3: "bedrock_content_step md2 = Inr md3"
    and p3: "\<forall>items. map_of md ''content'' = Some (JArr items) \<longrightarrow>
        (\<exists>items'. map_of md3 ''content'' = Some (JArr items') \<and> length items' = length items \<and>
           (\<forall>i < length items. bedrock_item (items ! i) = Inr (items' ! i)))"
    by blast
  have o3: "\<And>k. k \<noteq> ''content'' \<Longrightarrow> map_of md3 k = map_of md2 k"
    using bedrock_content_step_other[OF s3] by blast
  define md4 where "md4 = bedrock_content_block md3"
  have o4: "\<And>k. k \<noteq> ''content_block'' \<Longrightarrow> map_of md4 k = map_of md3 k"
    by (simp add: md4_def bedrock_content_block_other)
  have u4: "map_of md4 ''usage'' = Some (JObj u)"
    using o4[of "''usage''"] o3[of "''usage''"] md2_other[of "''usage''"] usage by simp
  define u' where "u' = AList.update ''input_tokens''
      (JNum (if 14 < a + b + c then a + b + c - 14 else a + b + c))
      (AList.update ''cache_read_input_tokens'' (JNum 0)
        (AList.update ''cache_creation_input_tokens'' (JNum 0) u))"
  have s5: "usage_step (bedrock_usage ''databricks'') md4 = Inr (AList.update ''usage'' (JObj u') md4)"
    using u4 bedrock_usage_databricks[OF inp cr cc] by (simp add: usage_step_def u'_def)
  define md5 where "md5 = AList.update ''usage'' (JObj u') md4"
  have o5: "\<And>k. k \<noteq> ''usage'' \<Longrightarrow> map_of md5 k = map_of md4 k"
    by (simp add: md5_def update_conv')
  have n5: "nested_usage md5 = nested_usage md"
    using o5[of "''message''"] o4[of "''message''"] o3[of "''message''"] md2_nested
    by (simp add: nested_usage_def)
  from message_usage_step_defined[of md5] nested n5 obtain md6 where
    s6: "message_usage_step (bedrock_usage ''databricks'') md5 = Inr md6" by auto
  have o6: "\<And>k. k \<noteq> ''message'' \<Longrightarrow> map_of md6 k = map_of md5 k"
    using message_usage_step_other[OF s6] by blast
  have res: "modifyResponseForBedrock (JObj md) ''databricks'' = Inr (JObj md6)"
    using s3 s5 s6 by (simp add: modifyResponseForBedrock_def md2_def md4_def md5_def)
  have r_id: "map_of md6 ''id'' = map_of (bedrock_id md) ''id''"
    using o6[of "''id''"] o5[of "''id''"] o4[of "''id''"] o3[of "''id''"] md2_id by simp
  have r_content: "map_of md6 ''content'' = map_of md3 ''content''"
    using o6[of "''content''"] o5[of "''content''"] o4[of "''content''"] by simp
  have r_usage: "map_of md6 ''usage'' = Some (JObj u')"
    using o6[of "''usage''"] by (simp add: md5_def update_conv')
  have c1: "\<forall>rest. map_of md ''id'' = Some (JStr (''msg_'' @ rest)) \<longrightarrow>
        map_of md6 ''id'' = Some (JStr (''msg_bdrk_'' @ rest))"
    using r_id bedrock_id_id by simp
  have c2: "\<forall>items. map_of md ''content'' = Some (JArr items) \<longrightarrow>
        (\<exists>items'. map_of md6 ''content'' = Some (JArr items') \<and> length items' = length items \<and>
           (\<forall>i it rest. i < length items \<longrightarrow> items ! i = JObj it \<longrightarrow>
              map_of it ''type'' = Some (JStr ''tool_use'') \<longrightarrow>
              map_of it ''id'' = Some (JStr (''toolu_'' @ rest)) \<longrightarrow>
              items' ! i = JObj (AList.update ''id'' (JStr (''toolu_bdrk_'' @ rest)) it)))"
  proof (intro allI impI)
    fix items assume "map_of md ''content'' = Some (JArr items)"
    with p3 obtain items' where i': "map_of md3 ''content'' = Some (JArr items')"
      "length items' = length items"
      "\<forall>i < length items. bedrock_item (items ! i) = Inr (items' ! i)" by blast
    have "\<forall>i it rest. i < length items \<longrightarrow> items ! i = JObj it \<longrightarrow>
              map_of it ''type'' = Some (JStr ''tool_use'') \<longrightarrow>
              map_of it ''id'' = Some (JStr (''toolu_'' @ rest)) \<longrightarrow>
              items' ! i = JObj (AList.update ''id'' (JStr (''toolu_bdrk_'' @ rest)) it)"
    proof (intro allI impI)
      fix i it rest
      assume "i < length items" "items ! i = JObj it"
        "map_of it ''type'' = Some (JStr ''tool_use'')"
        "map_of it ''id'' = Some (JStr (''toolu_'' @ rest))"
      with i'(3) bedrock_item_tool_use[of it rest]
      show "items' ! i = JObj (AList.update ''id'' (JStr (''toolu_bdrk_'' @ rest)) it)"
        by auto
    qed
    with i' r_content
    show "\<exists>items'. map_of md6 ''content'' = Some (JArr items') \<and> length items' = length items \<and>
           (\<forall>i it rest. i < length items \<longrightarrow> items ! i = JObj it \<longrightarrow>
              map_of it ''type'' = Some (JStr ''tool_use'') \<longrightarrow>
              map_of it ''id'' = Some (JStr (''toolu_'' @ rest)) \<longrightarrow>
              items' ! i = JObj (AList.update ''id'' (JStr (''toolu_bdrk_'' @ rest)) it))"
      by auto
  qed
  have c3: "map_of u' ''input_tokens'' = Some (JNum (if 14 < a + b + c then a + b + c - 14 else a + b + c))"
    "map_of u' ''cache_creation_input_tokens'' = Some (JNum 0)"
    "map_of u' ''cache_read_input_tokens'' = Some (JNum 0)"
    "\<forall>k. k \<notin> set bedrock_fields \<longrightarrow> map_of u' k = map_of u k"
    by (simp_all add: u'_def update_conv' bedrock_fields_def)
  show ?thesis
    using res c1 c2 r_usage c3 by blast
qed


theorem databricks_rewrite_witness:
  "no_null_items
     (map_of [(''id'', JStr ''msg_01ABC''),
              (''content'', JArr [JObj [(''type'', JStr ''tool_use''), (''id'', JStr ''toolu_42'')]]),
              (''usage'', JObj [(''input_tokens'', JNum 1000),
                                (''cache_read_input_tokens'', JNum 200),
                                (''cache_creation_input_tokens'', JNum 50),
                                (''output_tokens'', JNum 30)])] ''content'') \<and>
   tokens_in_model bedrock_fields
     (nested_usage [(''id'', JStr ''msg_01ABC''),
              (''content'', JArr [JObj [(''type'', JStr ''tool_use''), (''id'', JStr ''toolu_42'')]]),
              (''usage'', JObj [(''input_tokens'', JNum 1000),
                                (''cache_read_input_tokens'', JNum 200),
                                (''cache_creation_input_tokens'', JNum 50),
                                (''output_tokens'', JNum 30)])]) \<and>
   modifyResponseForBedrock
     (JObj [(''id'', JStr ''msg_01ABC''),
            (''content'', JArr [JObj [(''type'', JStr ''tool_use''), (''id'', JStr ''toolu_42'')]]),
            (''usage'', JObj [(''input_tokens'', JNum 1000),
                              (''cache_read_input_tokens'', JNum 200),
                              (''cache_creation_input_tokens'', JNum 50),
                              (''output_tokens'', JNum 30)])]) ''databricks''
   = Inr (JObj [(''id'', JStr ''msg_bdrk_01ABC''),
            (''content'', JArr [JObj [(''type'', JStr ''tool_use''), (''id'', JStr ''toolu_bdrk_42'')]]),
            (''usage'', JObj [(''input_tokens'', JNum 1236),
                              (''cache_read_input_tokens'', JNum 0),
                              (''cache_creation_input_tokens'', JNum 0),
                              (''output_tokens'', JNum 30)])])"
  using databricks_rewrite[of
     "[(''id'', JStr ''msg_01ABC''),
       (''content'', JArr [JObj [(''type'', JStr ''tool_use''), (''id'', JStr ''toolu_42'')]]),
       (''usage'', JObj [(''input_tokens'', JNum 1000),
                         (''cache_read_input_tokens'', JNum 200),
                         (''cache_creation_input_tokens'', JNum 50),
                         (''output_tokens'', JNum 30)])]"
     "[(''input_tokens'', JNum 1000),
       (''cache_read_input_tokens'', JNum 200),
       (''cache_creation_input_tokens'', JNum 50),
       (''output_tokens'', JNum 30)]" 1000 200 50]
  by (simp add: modifyResponseForBedrock_def bedrock_id_def bedrock_message_id_def
        bedrock_content_step_def bedrock_item_def bedrock_content_block_def usage_step_def
        message_usage_step_def bedrock_usage_def js_add_def starts_with_def
        no_null_items_def tokens_in_model_def nested_usage_def)

subsection \<open>Stream shaper\<close>

lemma join_split_lines: "join_lines (split_lines s) = s"
proof (induction s)
  case Nil
  then show ?case by simp
next
  case (Cons c cs)
  then show ?case
    by (cases "split_lines cs"; cases "tl (split_lines cs)") (auto split: list.splits)
qed

lemma split_lines_nonempty: "split_lines s \<noteq> []"
  by (induction s) (auto split: list.splits)

lemma map_lines_nth:
  "map_lines f ls = Inr outs \<Longrightarrow>
   length outs = length ls \<and> (\<forall>i < length ls. f (ls ! i) = Inr (outs ! i))"
proof (induction ls arbitrary: outs)
  case Nil
  then show ?case by simp
next
  case (Cons l ls)
  then show ?case
    by (auto split: sum.splits simp: nth_Cons split: nat.splits)
qed

lemma map_lines_no_raise:
  "(\<And>l. f l \<noteq> Inl TypeError) \<Longrightarrow> map_lines f ls \<noteq> Inl TypeError"
  by (induction ls) (auto split: sum.splits)

lemma stream_line_no_raise: "stream_line parse stringify rw l \<noteq> Inl TypeError"
  by (auto simp: stream_line_def Let_def split: option.splits sum.splits error.splits)

lemma stream_line_shaped:
  "stream_line parse stringify rw l = Inr l' \<Longrightarrow> line_shaped parse stringify rw l l'"
  by (auto simp: stream_line_def line_shaped_def Let_def split: option.splits sum.splits error.splits if_splits)

lemma stream_line_raising_rewrite:
  "stream_line parse stringify rw l = Inr l' \<Longrightarrow> is_data_line l \<Longrightarrow> parse (payload l) = Some d \<Longrightarrow>
   rw d = Inl TypeError \<Longrightarrow> l' = l"
  by (auto simp: stream_line_def Let_def split: option.splits sum.splits error.splits if_splits)

lemma processStreamData_shaped:
  assumes "processStreamData parse stringify rw chunk = Inr out"
  shows "\<exists>outs. out = join_lines outs \<and> length outs = length (split_lines chunk) \<and>
           (\<forall>i < length outs. line_shaped parse stringify rw (split_lines chunk ! i) (outs ! i))"
proof (cases "chunk = []")
  case True
  with assms have "out = []" by (simp add: processStreamData_def)
  with True show ?thesis
    by (intro exI[of _ "[[]]"]) (simp add: line_shaped_def is_data_line_def)
next
  case False
  with assms obtain outs where
    m: "map_lines (stream_line parse stringify rw) (split_lines chunk) = Inr outs"
    and o: "out = join_lines outs"
    by (auto simp: processStreamData_def split: sum.splits)
  from map_lines_nth[OF m] have
    "length outs = length (split_lines chunk)"
    "\<forall>i < length (split_lines chunk).
        stream_line parse stringify rw (split_lines chunk ! i) = Inr (outs ! i)"
    by auto
  with o show ?thesis
    by (intro exI[of _ outs]) (auto intro: stream_line_shaped)
qed

lemma processStreamData_no_raise: "processStreamData parse stringify rw chunk \<noteq> Inl TypeError"
  using map_lines_no_raise[of "stream_line parse stringify rw" "split_lines chunk"]
    stream_line_no_raise
  by (auto simp: processStreamData_def split: sum.splits)

text \<open>
  C7.  For every SSE text chunk, every \<^verbatim>\<open>JSON.parse\<close> and \<^verbatim>\<open>JSON.stringify\<close>, and
  both stream shapers (\<^verbatim>\<open>_processStreamDataForBedrock\<close> for any key type and
  \<^verbatim>\<open>_processStreamDataForClaudeCode\<close>): the text returned is the lines of the chunk,
  joined again by line feeds, one forwarded line for each line, where a data line whose
  payload parses is parsed, rewritten by the persona rewrite, serialised and prefixed
  with \<^verbatim>\<open>data: \<close>, and a line that is no data line, a data line whose payload is
  \<^verbatim>\<open>[DONE]\<close> or blank, and a data line whose payload does not parse are forwarded as
  they are.  Neither shaper throws, and splitting and joining a chunk gives the chunk
  back, so lines that are forwarded as they are keep the bytes of the chunk.
\<close>

theorem stream_shaper_lines:
  "(\<forall>out. processStreamDataForBedrock parse stringify chunk keyType = Inr out \<longrightarrow>
      (\<exists>outs. out = join_lines outs \<and> length outs = length (split_lines chunk) \<and>
         (\<forall>i < length outs.
            line_shaped parse stringify (\<lambda>d. modifyResponseForBedrock d keyType)
              (split_lines chunk ! i) (outs ! i)))) \<and>
   (\<forall>out. processStreamDataForClaudeCode parse stringify chunk = Inr out \<longrightarrow>
      (\<exists>outs. out = join_lines outs \<and> length outs = length (split_lines chunk) \<and>
         (\<forall>i < length outs.
            line_shaped parse stringify modifyResponseForClaudeCode
              (split_lines chunk ! i) (outs ! i)))) \<and>
   processStreamDataForBedrock parse stringify chunk keyType \<noteq> Inl TypeError \<and>
   processStreamDataForClaudeCode parse stringify chunk \<noteq> Inl TypeError \<and>
   join_lines (split_lines chunk) = chunk"
  using processStreamData_shaped processStreamData_no_raise join_split_lines
  unfolding processStreamDataForBedrock_def processStreamDataForClaudeCode_def
  by blast



theorem stream_shaper_lines_witness:
  \<open>processStreamDataForClaudeCode
     [''{"usage":{"input_tokens":100}}'' \<mapsto> JObj [(''usage'', JObj [(''input_tokens'', JNum 100)])]]
     (\<lambda>d. if d = JObj [(''usage'', JObj [(''input_tokens'', JNum 86)])]
           then ''{"usage":{"input_tokens":86}}'' else ''null'')
     (join_lines [''event: message_delta'', ''data: {"usage":{"input_tokens":100}}'', [],
                  ''data: {"usage":'', ''data: [DONE]'', []])
   = Inr (join_lines [''event: message_delta'', ''data: {"usage":{"input_tokens":86}}'', [],
                  ''data: {"usage":'', ''data: [DONE]'', []]) \<and>
   processStreamDataForBedrock
     [''{"usage":{"input_tokens":100}}'' \<mapsto> JObj [(''usage'', JObj [(''input_tokens'', JNum 100)])]]
     (\<lambda>d. if d = JObj [(''usage'', JObj [(''input_tokens'', JNum 86),
                                         (''cache_creation_input_tokens'', JNum 0),
                                         (''cache_read_input_tokens'', JNum 0)])]
           then ''{"usage":{"input_tokens":86,"cache_creation_input_tokens":0,"cache_read_input_tokens":0}}''
           else ''null'')
     (join_lines [''event: message_delta'', ''data: {"usage":{"input_tokens":100}}'', [],
                  ''data: {"usage":'', ''data: [DONE]'', []])
     ''aws''
   = Inr (join_lines [''event: message_delta'',
            ''data: {"usage":{"input_tokens":86,"cache_creation_input_tokens":0,"cache_read_input_tokens":0}}'',
            [], ''data: {"usage":'', ''data: [DONE]'', []])\<close>
  using stream_shaper_lines[of
     \<open>[''{"usage":{"input_tokens":100}}'' \<mapsto> JObj [(''usage'', JObj [(''input_tokens'', JNum 100)])]]\<close>
     \<open>(\<lambda>d. if d = JObj [(''usage'', JObj [(''input_tokens'', JNum 86)])]
           then ''{"usage":{"input_tokens":86}}'' else ''null'')\<close>
     \<open>join_lines [''event: message_delta'', ''data: {"usage":{"input_tokens":100}}'', [],
                  ''data: {"usage":'', ''data: [DONE]'', []]\<close> \<open>''aws''\<close>]
  by (simp add: processStreamDataForClaudeCode_def processStreamDataForBedrock_def
        processStreamData_def stream_line_def is_data_line_def payload_def is_marker_def
        trim_def is_space_def starts_with_def modifyResponseForClaudeCode_def
        modifyResponseForBedrock_def usage_step_def message_usage_step_def
        claude_code_usage_def bedrock_usage_def bedrock_id_def bedrock_message_id_def
        bedrock_content_step_def bedrock_content_block_def)

subsection \<open>Request shaper\<close>

lemma clamp_other:
  "validateAndLimitMaxTokens p b = Inr b' \<Longrightarrow> k \<noteq> ''max_tokens'' \<Longrightarrow> map_of b' k = map_of b k"
  by (auto simp: validateAndLimitMaxTokens_def update_conv'
           split: option.splits sum.splits if_splits)

lemma js_gt_irrefl: "js_gt a b = Inr x \<Longrightarrow> js_gt b b = Inr False"
  by (auto simp: js_gt_def split: sum.splits)

lemma clamp_stable:
  assumes "validateAndLimitMaxTokens p b = Inr l"
      and "map_of f ''max_tokens'' = map_of l ''max_tokens''"
      and "map_of f ''model'' = map_of l ''model''"
  shows "validateAndLimitMaxTokens p f = Inr f"
  using assms
  by (auto simp: validateAndLimitMaxTokens_def update_conv' js_gt_irrefl
           split: option.splits sum.splits if_splits)

lemma strip_item_idem: "strip_item (strip_item x) = strip_item x"
  by (auto simp: strip_item_def update_conv' delete_conv' split: json.splits option.splits)

lemma strip_item_comp: "strip_item \<circ> strip_item = strip_item"
  by (rule ext) (simp add: strip_item_idem)

lemma strip_message_idem: "strip_message (strip_message x) = strip_message x"
  by (auto simp: strip_message_def update_conv' strip_item_comp split: json.splits option.splits)

lemma strip_other:
  "k \<noteq> ''system'' \<Longrightarrow> k \<noteq> ''messages'' \<Longrightarrow> map_of (stripTtlFromCacheControl b) k = map_of b k"
  by (auto simp: stripTtlFromCacheControl_def Let_def update_conv' split: option.splits json.splits)

lemma strip_system:
  "map_of (stripTtlFromCacheControl b) ''system'' =
     (case map_of b ''system'' of Some (JArr items) \<Rightarrow> Some (JArr (map strip_item items)) | x \<Rightarrow> x)"
  by (auto simp: stripTtlFromCacheControl_def Let_def update_conv' split: option.splits json.splits)

lemma strip_messages:
  "map_of (stripTtlFromCacheControl b) ''messages'' =
     (case map_of b ''messages'' of Some (JArr ms) \<Rightarrow> Some (JArr (map strip_message ms)) | x \<Rightarrow> x)"
  by (auto simp: stripTtlFromCacheControl_def Let_def update_conv' split: option.splits json.splits)

lemma strip_fixI:
  assumes "\<And>items. map_of b ''system'' = Some (JArr items) \<Longrightarrow> map strip_item items = items"
      and "\<And>ms. map_of b ''messages'' = Some (JArr ms) \<Longrightarrow> map strip_message ms = ms"
  shows "stripTtlFromCacheControl b = b"
  using assms
  by (auto simp: stripTtlFromCacheControl_def Let_def update_triv update_conv' split: option.splits json.splits)

lemma strip_fixD:
  assumes "stripTtlFromCacheControl b = b"
  shows "map_of b ''system'' = Some (JArr items) \<Longrightarrow> map strip_item items = items"
    and "map_of b ''messages'' = Some (JArr ms) \<Longrightarrow> map strip_message ms = ms"
  using strip_system[of b] strip_messages[of b] assms by auto

lemma strip_idem: "stripTtlFromCacheControl (stripTtlFromCacheControl b) = stripTtlFromCacheControl b"
  by (rule strip_fixI)
     (auto simp: strip_system strip_messages strip_item_idem strip_message_idem
           split: option.splits json.splits)

lemma trim_prompt: "trim claudeCodeSystemPrompt = claudeCodeSystemPrompt"
  by (simp add: trim_def claudeCodeSystemPrompt_def is_space_def)

lemma prompt_nonempty: "claudeCodeSystemPrompt \<noteq> []"
  by (simp add: claudeCodeSystemPrompt_def)

lemma prompt_is_item: "is_claude_code_item claudeCodePrompt"
  by (simp add: is_claude_code_item_def claudeCodePrompt_def)

lemma strip_prompt: "strip_item claudeCodePrompt = claudeCodePrompt"
  by (simp add: strip_item_def claudeCodePrompt_def)

lemma strip_text_block: "strip_item (text_block t) = text_block t"
  by (simp add: strip_item_def text_block_def)

lemma setP_other: "k \<noteq> ''system'' \<Longrightarrow> map_of (setClaudeCodePrompt b) k = map_of b k"
  by (auto simp: setClaudeCodePrompt_def update_conv' split: option.splits json.splits list.splits)

lemma setP_head:
  "\<exists>c rest. map_of (setClaudeCodePrompt b) ''system'' = Some (JArr (c # rest)) \<and>
            is_claude_code_item c"
  by (auto simp: setClaudeCodePrompt_def update_conv' prompt_is_item
           split: option.splits json.splits list.splits)

lemma setP_fix:
  "map_of b ''system'' = Some (JArr (c # rest)) \<Longrightarrow> is_claude_code_item c \<Longrightarrow>
   setClaudeCodePrompt b = b"
  by (simp add: setClaudeCodePrompt_def)

lemma map_filter_fixed: "map f xs = xs \<Longrightarrow> map f (filter P xs) = filter P xs"
  by (induction xs) auto

lemma setP_strip:
  assumes "stripTtlFromCacheControl b = b"
  shows "stripTtlFromCacheControl (setClaudeCodePrompt b) = setClaudeCodePrompt b"
proof (rule strip_fixI)
  fix items
  assume a: "map_of (setClaudeCodePrompt b) ''system'' = Some (JArr items)"
  show "map strip_item items = items"
  proof (cases "map_of b ''system''")
    case None
    with a show ?thesis
      by (auto simp: setClaudeCodePrompt_def update_conv' strip_prompt)
  next
    case (Some sys)
    show ?thesis
    proof (cases sys)
      case (JArr xs)
      with Some assms have fx: "map strip_item xs = xs" by (auto dest: strip_fixD(1))
      with a Some JArr show ?thesis
        by (auto simp: setClaudeCodePrompt_def update_conv' strip_prompt map_filter_fixed
                 split: list.splits if_splits)
    qed (use a Some in \<open>auto simp: setClaudeCodePrompt_def update_conv' strip_prompt
           strip_text_block split: if_splits\<close>)
  qed
next
  fix ms
  assume "map_of (setClaudeCodePrompt b) ''messages'' = Some (JArr ms)"
  then have "map_of b ''messages'' = Some (JArr ms)" by (simp add: setP_other)
  with assms show "map strip_message ms = ms" by (auto dest: strip_fixD(2))
qed

lemma real_head:
  "isRealClaudeCodeRequest (JObj b) hs \<Longrightarrow>
   \<exists>c rest. map_of b ''system'' = Some (JArr (c # rest)) \<and> is_claude_code_item c"
  by (auto simp: isRealClaudeCodeRequest_def hasClaudeCodeSystemPrompt_def is_claude_code_item_def
           split: option.splits json.splits list.splits if_splits)

lemma valid_head:
  "is_claude_code_item c \<Longrightarrow> has_valid_content (c # rest) = Inr True"
  by (auto simp: is_claude_code_item_def trim_prompt prompt_nonempty)

lemma apply_other:
  "applySystemPrompt sp b = Inr f \<Longrightarrow> k \<noteq> ''system'' \<Longrightarrow> map_of f k = map_of b k"
  by (auto simp: applySystemPrompt_def update_conv' delete_conv'
           split: option.splits json.splits sum.splits if_splits)

lemma has_text_block: "has_text p (text_block p)"
  by (simp add: has_text_def text_block_def)

lemma apply_head:
  assumes sys: "map_of b ''system'' = Some (JArr (c # rest))" and c: "is_claude_code_item c"
  shows "\<exists>f rest'. applySystemPrompt sp b = Inr f \<and>
           map_of f ''system'' = Some (JArr (c # rest')) \<and>
           applySystemPrompt sp f = Inr f \<and>
           (map strip_item (c # rest) = c # rest \<longrightarrow> map strip_item (c # rest') = c # rest')"
proof (cases "case sp of None \<Rightarrow> False | Some p \<Rightarrow> p \<noteq> [] \<and> trim p \<noteq> []")
  case True
  then obtain p where p: "sp = Some p" "p \<noteq> []" "trim p \<noteq> []"
    by (auto split: option.splits)
  show ?thesis
  proof (cases "list_ex (has_text p) (c # rest)")
    case True
    with p sys show ?thesis
      by (intro exI[of _ b] exI[of _ rest]) (simp add: applySystemPrompt_def)
  next
    case False
    with p sys show ?thesis
      by (intro exI[of _ "AList.update ''system'' (JArr ((c # rest) @ [text_block p])) b"]
                exI[of _ "rest @ [text_block p]"])
         (simp add: applySystemPrompt_def update_conv' has_text_block strip_text_block)
  qed
next
  case False
  with sys valid_head[OF c, of rest] show ?thesis
    by (intro exI[of _ b] exI[of _ rest]) (simp add: applySystemPrompt_def)
qed

text \<open>
  C6.  For every request body and fixed client headers and configuration, a second
  pass of \<^verbatim>\<open>_processRequestBody\<close> (the max_tokens clamp, the \<^verbatim>\<open>ttl\<close> scrub, the
  system prompt normalisation and the operator prompt) over the body it returned returns
  that same body.
\<close>

theorem shaper_idempotent:
  assumes "processRequestBody cfg clientHeaders body = Inr r"
  shows "processRequestBody cfg clientHeaders r = Inr r"
proof (cases "truthy body")
  case False
  with assms show ?thesis by (simp add: processRequestBody_def)
next
  case True
  with assms obtain kvs where body: "body = JObj kvs"
    by (cases body) (auto simp: processRequestBody_def)
  from assms True body obtain limited where
    lim: "validateAndLimitMaxTokens (pricingData cfg) kvs = Inr limited"
    by (auto simp: processRequestBody_def split: sum.splits)
  define stripped where "stripped = stripTtlFromCacheControl limited"
  define prompted where
    "prompted = (if \<not> isRealClaudeCodeRequest (JObj stripped) clientHeaders
                 then setClaudeCodePrompt stripped else stripped)"
  from assms True body lim
  have "\<exists>f. applySystemPrompt (systemPrompt cfg) prompted = Inr f \<and> r = JObj f"
    unfolding prompted_def stripped_def
    by (auto simp: processRequestBody_def Let_def split: sum.splits)
  then obtain f where
    app: "applySystemPrompt (systemPrompt cfg) prompted = Inr f" and r: "r = JObj f"
    by blast
  have st_fix: "stripTtlFromCacheControl stripped = stripped"
    by (simp add: stripped_def strip_idem)
  have pr_fix: "stripTtlFromCacheControl prompted = prompted"
    using st_fix by (simp add: prompted_def setP_strip)
  have "\<exists>c rest. map_of prompted ''system'' = Some (JArr (c # rest)) \<and> is_claude_code_item c"
  proof (cases "isRealClaudeCodeRequest (JObj stripped) clientHeaders")
    case True
    then show ?thesis using real_head[of stripped clientHeaders] by (simp add: prompted_def)
  next
    case False
    then show ?thesis using setP_head[of stripped] by (simp add: prompted_def)
  qed
  then obtain c rest where head: "map_of prompted ''system'' = Some (JArr (c # rest))"
    and c: "is_claude_code_item c"
    by blast
  from apply_head[OF head c, of "systemPrompt cfg"] app obtain rest' where
    fsys: "map_of f ''system'' = Some (JArr (c # rest'))"
    and fapp: "applySystemPrompt (systemPrompt cfg) f = Inr f"
    and fitems: "map strip_item (c # rest) = c # rest \<longrightarrow> map strip_item (c # rest') = c # rest'"
    by auto
  have other: "\<And>k. k \<noteq> ''system'' \<Longrightarrow> map_of f k = map_of prompted k"
    using apply_other[OF app] by blast
  have pr_other: "\<And>k. k \<noteq> ''system'' \<Longrightarrow> map_of prompted k = map_of stripped k"
    by (simp add: prompted_def setP_other)
  have st_other: "\<And>k. k \<noteq> ''system'' \<Longrightarrow> k \<noteq> ''messages'' \<Longrightarrow> map_of stripped k = map_of limited k"
    by (simp add: stripped_def strip_other)
  have f_strip: "stripTtlFromCacheControl f = f"
  proof (rule strip_fixI)
    fix items assume "map_of f ''system'' = Some (JArr items)"
    with fsys have "items = c # rest'" by simp
    moreover have "map strip_item (c # rest) = c # rest"
      using strip_fixD(1)[OF pr_fix head] .
    ultimately show "map strip_item items = items" using fitems by simp
  next
    fix ms assume "map_of f ''messages'' = Some (JArr ms)"
    then have "map_of prompted ''messages'' = Some (JArr ms)" using other by simp
    then show "map strip_message ms = ms" using strip_fixD(2)[OF pr_fix] by blast
  qed
  have f_clamp: "validateAndLimitMaxTokens (pricingData cfg) f = Inr f"
  proof (rule clamp_stable[OF lim])
    show "map_of f ''max_tokens'' = map_of limited ''max_tokens''"
      using other pr_other st_other by simp
    show "map_of f ''model'' = map_of limited ''model''"
      using other pr_other st_other by simp
  qed
  have f_set: "setClaudeCodePrompt f = f"
    using setP_fix[OF fsys c] .
  show ?thesis
    using f_clamp f_strip f_set fapp by (simp add: processRequestBody_def r Let_def)
qed

theorem shaper_idempotent_witness:
  "processRequestBody
     \<lparr>systemPrompt = Some ''Be kind'',
      pricingData = Some [(''m'', JObj [(''max_tokens'', JNum 100)])]\<rparr>
     [(''user-agent'', ''curl/8'')]
     (JObj [(''model'', JStr ''m''), (''max_tokens'', JNum 500), (''system'', JStr ''abc''),
            (''messages'', JArr [JObj [(''role'', JStr ''user''),
               (''content'', JArr [JObj [(''type'', JStr ''text''), (''text'', JStr ''x''),
                  (''cache_control'', JObj [(''type'', JStr ''ephemeral''),
                                            (''ttl'', JStr ''1h'')])]])]])])
   = Inr (JObj [(''model'', JStr ''m''), (''max_tokens'', JNum 100),
            (''system'', JArr [claudeCodePrompt, text_block ''abc'', text_block ''Be kind'']),
            (''messages'', JArr [JObj [(''role'', JStr ''user''),
               (''content'', JArr [JObj [(''type'', JStr ''text''), (''text'', JStr ''x''),
                  (''cache_control'', JObj [(''type'', JStr ''ephemeral'')])]])]])]) \<and>
   processRequestBody
     \<lparr>systemPrompt = Some ''Be kind'',
      pricingData = Some [(''m'', JObj [(''max_tokens'', JNum 100)])]\<rparr>
     [(''user-agent'', ''curl/8'')]
     (JObj [(''model'', JStr ''m''), (''max_tokens'', JNum 100),
            (''system'', JArr [claudeCodePrompt, text_block ''abc'', text_block ''Be kind'']),
            (''messages'', JArr [JObj [(''role'', JStr ''user''),
               (''content'', JArr [JObj [(''type'', JStr ''text''), (''text'', JStr ''x''),
                  (''cache_control'', JObj [(''type'', JStr ''ephemeral'')])]])]])])
   = Inr (JObj [(''model'', JStr ''m''), (''max_tokens'', JNum 100),
            (''system'', JArr [claudeCodePrompt, text_block ''abc'', text_block ''Be kind'']),
            (''messages'', JArr [JObj [(''role'', JStr ''user''),
               (''content'', JArr [JObj [(''type'', JStr ''text''), (''text'', JStr ''x''),
                  (''cache_control'', JObj [(''type'', JStr ''ephemeral'')])]])]])])"
proof -
  have first: "processRequestBody
     \<lparr>systemPrompt = Some ''Be kind'',
      pricingData = Some [(''m'', JObj [(''max_tokens'', JNum 100)])]\<rparr>
     [(''user-agent'', ''curl/8'')]
     (JObj [(''model'', JStr ''m''), (''max_tokens'', JNum 500), (''system'', JStr ''abc''),
            (''messages'', JArr [JObj [(''role'', JStr ''user''),
               (''content'', JArr [JObj [(''type'', JStr ''text''), (''text'', JStr ''x''),
                  (''cache_control'', JObj [(''type'', JStr ''ephemeral''),
                                            (''ttl'', JStr ''1h'')])]])]])])
   = Inr (JObj [(''model'', JStr ''m''), (''max_tokens'', JNum 100),
            (''system'', JArr [claudeCodePrompt, text_block ''abc'', text_block ''Be kind'']),
            (''messages'', JArr [JObj [(''role'', JStr ''user''),
               (''content'', JArr [JObj [(''type'', JStr ''text''), (''text'', JStr ''x''),
                  (''cache_control'', JObj [(''type'', JStr ''ephemeral'')])]])]])])"
    by code_simp
  from shaper_idempotent[OF first] first show ?thesis by simp
qed

lemma string_not_real:
  "map_of b ''system'' = Some (JStr s) \<Longrightarrow> \<not> isRealClaudeCodeRequest (JObj b) hs"
  by (auto simp: isRealClaudeCodeRequest_def hasClaudeCodeSystemPrompt_def)

lemma setP_string:
  "map_of b ''system'' = Some (JStr s) \<Longrightarrow>
   map_of (setClaudeCodePrompt b) ''system'' =
     Some (JArr (if s = [] \<or> trim s = claudeCodeSystemPrompt then [claudeCodePrompt]
                 else [claudeCodePrompt, text_block s]))"
  by (auto simp: setClaudeCodePrompt_def update_conv')

lemma apply_system:
  assumes "map_of b ''system'' = Some (JArr (c # rest))" and "is_claude_code_item c"
      and "applySystemPrompt sp b = Inr f"
  shows "map_of f ''system'' =
     Some (JArr (case sp of
                   None \<Rightarrow> c # rest
                 | Some p \<Rightarrow>
                     (if p \<noteq> [] \<and> trim p \<noteq> [] \<and> \<not> list_ex (has_text p) (c # rest)
                      then (c # rest) @ [text_block p] else c # rest)))"
  using assms valid_head[of c rest]
  by (auto simp: applySystemPrompt_def update_conv' split: option.splits if_splits)

text \<open>
  C9, as the code has it.  A body whose \<^verbatim>\<open>system\<close> is a string is never a genuine
  Claude Code request.  The shaper replaces \<^verbatim>\<open>system\<close> by the one-element array of
  the Claude Code block when the string is empty or equals the Claude Code prompt after
  trimming, and by the two-element array of that block and a text block of the
  original string otherwise; the operator prompt, when one is configured and no item
  carries it yet, is appended to that array.
\<close>

theorem string_system_normalised:
  assumes "processRequestBody cfg clientHeaders (JObj kvs) = Inr r"
      and "map_of kvs ''system'' = Some (JStr s)"
  shows "\<not> isRealClaudeCodeRequest (JObj kvs) clientHeaders \<and>
     get ''system'' r =
       Some (JArr
         (let normalised = (if s = [] \<or> trim s = claudeCodeSystemPrompt then [claudeCodePrompt]
                            else [claudeCodePrompt, text_block s])
          in (case systemPrompt cfg of
                None \<Rightarrow> normalised
              | Some p \<Rightarrow>
                  (if p \<noteq> [] \<and> trim p \<noteq> [] \<and> \<not> list_ex (has_text p) normalised
                   then normalised @ [text_block p] else normalised))))"
proof -
  from assms(1) obtain limited where
    lim: "validateAndLimitMaxTokens (pricingData cfg) kvs = Inr limited"
    by (auto simp: processRequestBody_def split: sum.splits)
  define stripped where "stripped = stripTtlFromCacheControl limited"
  have "map_of limited ''system'' = Some (JStr s)"
    using clamp_other[OF lim, of "''system''"] assms(2) by simp
  then have st: "map_of stripped ''system'' = Some (JStr s)"
    by (simp add: stripped_def strip_system)
  then have nr: "\<not> isRealClaudeCodeRequest (JObj stripped) clientHeaders"
    by (rule string_not_real)
  define normalised where "normalised = (if s = [] \<or> trim s = claudeCodeSystemPrompt
      then [claudeCodePrompt] else [claudeCodePrompt, text_block s])"
  have pr: "map_of (setClaudeCodePrompt stripped) ''system'' = Some (JArr normalised)"
    using setP_string[OF st] by (simp add: normalised_def)
  from assms(1) lim nr
  have "\<exists>f. applySystemPrompt (systemPrompt cfg) (setClaudeCodePrompt stripped) = Inr f \<and> r = JObj f"
    unfolding stripped_def by (auto simp: processRequestBody_def Let_def split: sum.splits)
  then obtain f where app: "applySystemPrompt (systemPrompt cfg) (setClaudeCodePrompt stripped) = Inr f"
    and r: "r = JObj f" by blast
  have "\<exists>rest. normalised = claudeCodePrompt # rest"
    by (simp add: normalised_def)
  then obtain rest where n: "normalised = claudeCodePrompt # rest"
    by blast
  from apply_system[OF pr[unfolded n] prompt_is_item app]
  have "map_of f ''system'' =
     Some (JArr (case systemPrompt cfg of
                   None \<Rightarrow> normalised
                 | Some p \<Rightarrow>
                     (if p \<noteq> [] \<and> trim p \<noteq> [] \<and> \<not> list_ex (has_text p) normalised
                      then normalised @ [text_block p] else normalised)))"
    unfolding n .
  then show ?thesis
    using string_not_real[OF assms(2), of clientHeaders]
    unfolding r normalised_def Let_def by simp
qed

theorem string_system_normalised_witness:
  "processRequestBody \<lparr>systemPrompt = None, pricingData = None\<rparr> [(''user-agent'', ''curl/8'')]
     (JObj [(''model'', JStr ''m''), (''system'', JStr ''Answer briefly.'')])
   = Inr (JObj [(''model'', JStr ''m''),
                (''system'', JArr [claudeCodePrompt, text_block ''Answer briefly.''])]) \<and>
   map_of [(''model'', JStr ''m''), (''system'', JStr ''Answer briefly.'')] ''system''
   = Some (JStr ''Answer briefly.'')"
proof -
  have run: "processRequestBody \<lparr>systemPrompt = None, pricingData = None\<rparr> [(''user-agent'', ''curl/8'')]
     (JObj [(''model'', JStr ''m''), (''system'', JStr ''Answer briefly.'')])
   = Inr (JObj [(''model'', JStr ''m''),
                (''system'', JArr [claudeCodePrompt, text_block ''Answer briefly.''])])"
    by code_simp
  have sys: "map_of [(''model'', JStr ''m''), (''system'', JStr ''Answer briefly.'')] ''system''
   = Some (JStr ''Answer briefly.'')" by simp
  from string_system_normalised[OF run sys] run sys show ?thesis by simp
qed

text \<open>
  C9 as stated fails: the prompt followed by one space is a string other than the
  prompt, and so is the empty string, and for both the shaper returns the one-element
  array, not the two-element array.
\<close>

theorem string_system_normalised_counterexample:
  "claudeCodeSystemPrompt @ '' '' \<noteq> claudeCodeSystemPrompt \<and>
   processRequestBody \<lparr>systemPrompt = None, pricingData = None\<rparr> []
     (JObj [(''system'', JStr (claudeCodeSystemPrompt @ '' ''))])
   = Inr (JObj [(''system'', JArr [claudeCodePrompt])]) \<and>
   [] \<noteq> claudeCodeSystemPrompt \<and>
   processRequestBody \<lparr>systemPrompt = None, pricingData = None\<rparr> []
     (JObj [(''system'', JStr [])])
   = Inr (JObj [(''system'', JArr [claudeCodePrompt])])"
  by code_simp

subsection \<open>Relay orchestrator\<close>

lemma lt250_small:
  "inputTokens = OfNum (Num n) \<or> inputTokens = OfJson (JNum n) \<Longrightarrow> n < 250 \<Longrightarrow>
   lt250 inputTokens = Inr True"
  by auto

lemma token_floor_small:
  assumes "floor_applies apiKeyData"
      and "countInputTokens (token_count_reply e) processedBody = Inr inputTokens"
      and "inputTokens = OfNum (Num n) \<or> inputTokens = OfJson (JNum n)" and "n < 250"
  shows "token_floor e apiKeyData processedBody = Inr (Some inputTokens)"
  using assms(1,2) lt250_small[OF assms(3,4)] by (simp add: token_floor_def)

text \<open>
  C1, as the code has it.  For a key whose persona is aws or databricks and a request
  that reaches the token count (not refused by the model restriction; account, token
  and shaped body obtained): when the count of the shaped body is a number below 250,
  \<^verbatim>\<open>relayRequest\<close> throws the error with status 429 after the count alone, and
  \<^verbatim>\<open>relayStreamRequestWithUsageCapture\<close>, on a client stream that is destroyed or has
  not sent headers, returns after the count alone, having written the 429 head and
  body when the stream is not destroyed.  Neither path calls the upstream messages
  endpoint.
\<close>

theorem token_floor_refuses:
  assumes floor: "floor_applies apiKeyData"
      and body: "requestBody \<noteq> JNull"
      and allowed: "\<not> model_restricted apiKeyData requestBody"
      and account: "selected_account e = Some accountId"
      and token: "access_token e = Some accessToken"
      and shaped: "processRequestBody (relay_config e) clientHeaders requestBody = Inr processedBody"
      and counted: "countInputTokens (token_count_reply e) processedBody = Inr inputTokens"
      and number: "inputTokens = OfNum (Num n) \<or> inputTokens = OfJson (JNum n)"
      and small: "n < 250"
  shows "relayRequest e up requestBody apiKeyData clientHeaders =
           (Inl (TooFewTokens inputTokens), [CountTokens processedBody accountId]) \<and>
         \<not> list_ex is_dispatch (snd (relayRequest e up requestBody apiKeyData clientHeaders)) \<and>
         (cl_destroyed cl \<or> \<not> cl_headersSent cl \<longrightarrow>
            (\<exists>kt. ak_keyType apiKeyData = Some kt \<and>
               relayStreamRequestWithUsageCapture e clock cl ups requestBody apiKeyData
                   clientHeaders streamTransformer =
                 (Inr (), CountTokens processedBody accountId #
                          (if cl_destroyed cl then []
                           else [WriteHead 429, Write (too_few_tokens_body e kt inputTokens),
                                 EndStream]))) \<and>
            \<not> list_ex is_dispatch
                (snd (relayStreamRequestWithUsageCapture e clock cl ups requestBody apiKeyData
                        clientHeaders streamTransformer)))"
proof -
  have tf: "token_floor e apiKeyData processedBody = Inr (Some inputTokens)"
    using token_floor_small[OF floor counted number small] .
  have r: "relayRequest e up requestBody apiKeyData clientHeaders =
           (Inl (TooFewTokens inputTokens), [CountTokens processedBody accountId])"
    using floor body allowed account token shaped tf
    by (simp add: relayRequest_def Let_def)
  from floor obtain kt where kt: "ak_keyType apiKeyData = Some kt" "kt \<noteq> []"
    by (auto simp: floor_applies_def)
  have s: "cl_destroyed cl \<or> \<not> cl_headersSent cl \<Longrightarrow>
       relayStreamRequestWithUsageCapture e clock cl ups requestBody apiKeyData
                   clientHeaders streamTransformer =
                 (Inr (), CountTokens processedBody accountId #
                          (if cl_destroyed cl then []
                           else [WriteHead 429, Write (too_few_tokens_body e kt inputTokens),
                                 EndStream]))"
    using floor body allowed account token shaped tf kt
    by (auto simp: relayStreamRequestWithUsageCapture_def Let_def)
  show ?thesis
    using r s kt by auto
qed


theorem token_floor_refuses_witness:
  "floor_applies \<lparr>ak_enableModelRestriction = False, ak_restrictedModels = [],
                   ak_keyType = Some ''aws''\<rparr> \<and>
   processRequestBody \<lparr>systemPrompt = None, pricingData = None\<rparr> [(''user-agent'', ''curl/8'')]
     (JObj [(''model'', JStr ''claude-sonnet-4-20250514''),
            (''messages'', JArr [JObj [(''role'', JStr ''user''), (''content'', JStr ''hi'')]])])
   = Inr (JObj [(''model'', JStr ''claude-sonnet-4-20250514''),
            (''messages'', JArr [JObj [(''role'', JStr ''user''), (''content'', JStr ''hi'')]]),
            (''system'', JArr [claudeCodePrompt])]) \<and>
   countInputTokens (Reply (JObj [(''input_tokens'', JNum 120)]))
     (JObj [(''model'', JStr ''claude-sonnet-4-20250514''),
            (''messages'', JArr [JObj [(''role'', JStr ''user''), (''content'', JStr ''hi'')]]),
            (''system'', JArr [claudeCodePrompt])])
   = Inr (OfJson (JNum 120)) \<and>
   relayRequest
     \<lparr>json_parse = Map.empty, json_stringify = (\<lambda>d. ''{}''),
      relay_config = \<lparr>systemPrompt = None, pricingData = None\<rparr>,
      session_hash = None, selected_account = Some ''account-1'',
      access_token = Some ''token-1'',
      token_count_reply = Reply (JObj [(''input_tokens'', JNum 120)]),
      account_limited = False, key_headers = (\<lambda>kt streaming i out. [])\<rparr>
     (Answered 200 [] ''{}'')
     (JObj [(''model'', JStr ''claude-sonnet-4-20250514''),
            (''messages'', JArr [JObj [(''role'', JStr ''user''), (''content'', JStr ''hi'')]])])
     \<lparr>ak_enableModelRestriction = False, ak_restrictedModels = [], ak_keyType = Some ''aws''\<rparr>
     [(''user-agent'', ''curl/8'')]
   = (Inl (TooFewTokens (OfJson (JNum 120))),
      [CountTokens
         (JObj [(''model'', JStr ''claude-sonnet-4-20250514''),
            (''messages'', JArr [JObj [(''role'', JStr ''user''), (''content'', JStr ''hi'')]]),
            (''system'', JArr [claudeCodePrompt])]) ''account-1'']) \<and>
   relayStreamRequestWithUsageCapture
     \<lparr>json_parse = Map.empty, json_stringify = (\<lambda>d. ''{}''),
      relay_config = \<lparr>systemPrompt = None, pricingData = None\<rparr>,
      session_hash = None, selected_account = Some ''account-1'',
      access_token = Some ''token-1'',
      token_count_reply = Reply (JObj [(''input_tokens'', JNum 120)]),
      account_limited = False, key_headers = (\<lambda>kt streaming i out. [])\<rparr>
     ''2025-01-01T00:00:00.000Z''
     \<lparr>cl_destroyed = False, cl_headersSent = False\<rparr>
     (StreamAnswered 200 [] [])
     (JObj [(''model'', JStr ''claude-sonnet-4-20250514''),
            (''messages'', JArr [JObj [(''role'', JStr ''user''), (''content'', JStr ''hi'')]])])
     \<lparr>ak_enableModelRestriction = False, ak_restrictedModels = [], ak_keyType = Some ''aws''\<rparr>
     [(''user-agent'', ''curl/8'')] None
   = (Inr (),
      [CountTokens
         (JObj [(''model'', JStr ''claude-sonnet-4-20250514''),
            (''messages'', JArr [JObj [(''role'', JStr ''user''), (''content'', JStr ''hi'')]]),
            (''system'', JArr [claudeCodePrompt])]) ''account-1'',
       WriteHead 429, Write ''{}'', EndStream])"
proof -
  let ?e = "\<lparr>json_parse = Map.empty, json_stringify = (\<lambda>d. ''{}''),
      relay_config = \<lparr>systemPrompt = None, pricingData = None\<rparr>,
      session_hash = None, selected_account = Some ''account-1'',
      access_token = Some ''token-1'',
      token_count_reply = Reply (JObj [(''input_tokens'', JNum 120)]),
      account_limited = False, key_headers = (\<lambda>kt streaming i out. [])\<rparr>"
  let ?key = "\<lparr>ak_enableModelRestriction = False, ak_restrictedModels = [],
      ak_keyType = Some ''aws''\<rparr>"
  let ?body = "JObj [(''model'', JStr ''claude-sonnet-4-20250514''),
            (''messages'', JArr [JObj [(''role'', JStr ''user''), (''content'', JStr ''hi'')]])]"
  let ?shaped = "JObj [(''model'', JStr ''claude-sonnet-4-20250514''),
            (''messages'', JArr [JObj [(''role'', JStr ''user''), (''content'', JStr ''hi'')]]),
            (''system'', JArr [claudeCodePrompt])]"
  have floor: "floor_applies ?key" by (simp add: floor_applies_def)
  have body: "?body \<noteq> JNull" by simp
  have allowed: "\<not> model_restricted ?key ?body" by (simp add: model_restricted_def)
  have account: "selected_account ?e = Some ''account-1''" by simp
  have token: "access_token ?e = Some ''token-1''" by simp
  have shaped: "processRequestBody (relay_config ?e) [(''user-agent'', ''curl/8'')] ?body = Inr ?shaped"
    by code_simp
  have counted: "countInputTokens (token_count_reply ?e) ?shaped = Inr (OfJson (JNum 120))"
    by (simp add: countInputTokens_def)
  have number: "OfJson (JNum 120) = OfNum (Num 120) \<or> OfJson (JNum 120) = OfJson (JNum 120)"
    by simp
  have small: "(120::int) < 250" by simp
  from token_floor_refuses[OF floor body allowed account token shaped counted number small,
      of "Answered 200 [] ''{}''" "\<lparr>cl_destroyed = False, cl_headersSent = False\<rparr>"
         "''2025-01-01T00:00:00.000Z''" "StreamAnswered 200 [] []" None]
    floor shaped counted
  show ?thesis by (simp add: too_few_tokens_body_def)
qed

text \<open>
  C1 as stated fails in the streaming path: with an aws key and a count of 120 tokens,
  a client stream that is already destroyed gets no 429 (nothing is written); the
  request is dropped without an upstream call.
\<close>

theorem token_floor_refuses_counterexample:
  "relayStreamRequestWithUsageCapture
     \<lparr>json_parse = Map.empty, json_stringify = (\<lambda>d. ''{}''),
      relay_config = \<lparr>systemPrompt = None, pricingData = None\<rparr>,
      session_hash = None, selected_account = Some ''account-1'',
      access_token = Some ''token-1'',
      token_count_reply = Reply (JObj [(''input_tokens'', JNum 120)]),
      account_limited = False, key_headers = (\<lambda>kt streaming i out. [])\<rparr>
     ''2025-01-01T00:00:00.000Z''
     \<lparr>cl_destroyed = True, cl_headersSent = False\<rparr>
     (StreamAnswered 200 [] [])
     (JObj [(''model'', JStr ''claude-sonnet-4-20250514''),
            (''messages'', JArr [JObj [(''role'', JStr ''user''), (''content'', JStr ''hi'')]])])
     \<lparr>ak_enableModelRestriction = False, ak_restrictedModels = [], ak_keyType = Some ''aws''\<rparr>
     [(''user-agent'', ''curl/8'')] None
   = (Inr (),
      [CountTokens
         (JObj [(''model'', JStr ''claude-sonnet-4-20250514''),
            (''messages'', JArr [JObj [(''role'', JStr ''user''), (''content'', JStr ''hi'')]]),
            (''system'', JArr [claudeCodePrompt])]) ''account-1''])"
  by code_simp

lemma stream_request_dispatches:
  "Dispatch processedBody accountId \<in>
     set (snd (makeClaudeStreamRequestWithUsageCapture e clock cl ups processedBody clientHeaders
                 accountId streamTransformer kt))"
  by (cases ups)
     (auto simp: makeClaudeStreamRequestWithUsageCapture_def Let_def split: sum.splits prod.splits)

lemma stream_request_never_too_few:
  "fst (makeClaudeStreamRequestWithUsageCapture e clock cl ups processedBody clientHeaders
          accountId streamTransformer kt) \<noteq> Inl (TooFewTokens v)"
  by (cases ups)
     (auto simp: makeClaudeStreamRequestWithUsageCapture_def Let_def split: sum.splits prod.splits)

text \<open>
  C10.  For a key whose persona is aws or databricks and a request that reaches the
  token count: when the upstream count call fails and the estimator raises on the
  shaped body, \<^verbatim>\<open>countInputTokens\<close> returns 500, the floor lets the request pass,
  and both paths go on to the upstream call; neither ends in the 429 of the floor.
\<close>

theorem estimator_failure_passes_floor:
  assumes floor: "floor_applies apiKeyData"
      and body: "requestBody \<noteq> JNull"
      and allowed: "\<not> model_restricted apiKeyData requestBody"
      and account: "selected_account e = Some accountId"
      and token: "access_token e = Some accessToken"
      and shaped: "processRequestBody (relay_config e) clientHeaders requestBody = Inr processedBody"
      and failed: "token_count_reply e = CallFailed"
      and raises: "totalChars processedBody = Inl TypeError"
  shows "countInputTokens (token_count_reply e) processedBody = Inr (OfNum (Num 500)) \<and>
         token_floor e apiKeyData processedBody = Inr None \<and>
         (\<forall>v. fst (relayRequest e up requestBody apiKeyData clientHeaders) \<noteq> Inl (TooFewTokens v)) \<and>
         Dispatch processedBody accountId \<in>
           set (snd (relayRequest e up requestBody apiKeyData clientHeaders)) \<and>
         (\<forall>v. fst (relayStreamRequestWithUsageCapture e clock cl ups requestBody apiKeyData
                      clientHeaders streamTransformer) \<noteq> Inl (TooFewTokens v)) \<and>
         Dispatch processedBody accountId \<in>
           set (snd (relayStreamRequestWithUsageCapture e clock cl ups requestBody apiKeyData
                       clientHeaders streamTransformer))"
proof -
  have c: "countInputTokens (token_count_reply e) processedBody = Inr (OfNum (Num 500))"
    using failed raises by (simp add: countInputTokens_def estimateTokenCount_def Let_def)
  then have tf: "token_floor e apiKeyData processedBody = Inr None"
    using floor by (simp add: token_floor_def)
  have r: "(\<forall>v. fst (relayRequest e up requestBody apiKeyData clientHeaders) \<noteq> Inl (TooFewTokens v)) \<and>
         Dispatch processedBody accountId \<in>
           set (snd (relayRequest e up requestBody apiKeyData clientHeaders))"
    using floor body allowed account token shaped tf
    by (auto simp: relayRequest_def Let_def split: upstream.splits sum.splits)
  define kt where "kt = (case ak_keyType apiKeyData of None \<Rightarrow> ''cc''
                         | Some k \<Rightarrow> (if k = [] then ''cc'' else k))"
  obtain res fx where m: "makeClaudeStreamRequestWithUsageCapture e clock cl ups processedBody
        clientHeaders accountId streamTransformer kt = (res, fx)"
    by (cases "makeClaudeStreamRequestWithUsageCapture e clock cl ups processedBody
        clientHeaders accountId streamTransformer kt") auto
  have s: "relayStreamRequestWithUsageCapture e clock cl ups requestBody apiKeyData
             clientHeaders streamTransformer = (res, CountTokens processedBody accountId # fx)"
    using floor body allowed account token shaped tf m
    by (simp add: relayStreamRequestWithUsageCapture_def Let_def kt_def)
  have "res \<noteq> Inl (TooFewTokens v)" for v
    using stream_request_never_too_few[of e clock cl ups processedBody clientHeaders accountId
            streamTransformer kt v] m by simp
  moreover have "Dispatch processedBody accountId \<in> set fx"
    using stream_request_dispatches[of processedBody accountId e clock cl ups clientHeaders
            streamTransformer kt] m by simp
  ultimately show ?thesis using c tf r s by simp
qed


theorem estimator_failure_passes_floor_witness:
  "floor_applies \<lparr>ak_enableModelRestriction = False, ak_restrictedModels = [],
                   ak_keyType = Some ''databricks''\<rparr> \<and>
   processRequestBody \<lparr>systemPrompt = None, pricingData = None\<rparr> [(''user-agent'', ''curl/8'')]
     (JObj [(''messages'', JArr [JObj [(''role'', JStr ''user''), (''content'', JArr [JNull])]])])
   = Inr (JObj [(''messages'', JArr [JObj [(''role'', JStr ''user''), (''content'', JArr [JNull])]]),
                (''system'', JArr [claudeCodePrompt])]) \<and>
   totalChars (JObj [(''messages'', JArr [JObj [(''role'', JStr ''user''), (''content'', JArr [JNull])]]),
                     (''system'', JArr [claudeCodePrompt])]) = Inl TypeError \<and>
   countInputTokens CallFailed
     (JObj [(''messages'', JArr [JObj [(''role'', JStr ''user''), (''content'', JArr [JNull])]]),
            (''system'', JArr [claudeCodePrompt])]) = Inr (OfNum (Num 500)) \<and>
   relayRequest
     \<lparr>json_parse = Map.empty, json_stringify = (\<lambda>d. ''{}''),
      relay_config = \<lparr>systemPrompt = None, pricingData = None\<rparr>,
      session_hash = None, selected_account = Some ''account-1'',
      access_token = Some ''token-1'', token_count_reply = CallFailed,
      account_limited = False, key_headers = (\<lambda>kt streaming i out. [])\<rparr>
     (Answered 200 [] ''ok'')
     (JObj [(''messages'', JArr [JObj [(''role'', JStr ''user''), (''content'', JArr [JNull])]])])
     \<lparr>ak_enableModelRestriction = False, ak_restrictedModels = [],
      ak_keyType = Some ''databricks''\<rparr>
     [(''user-agent'', ''curl/8'')]
   = (Inr (Relayed \<lparr>rs_statusCode = 200, rs_headers = [], rs_body = ''ok'',
                     rs_accountId = Some ''account-1''\<rparr>),
      [CountTokens
         (JObj [(''messages'', JArr [JObj [(''role'', JStr ''user''), (''content'', JArr [JNull])]]),
                (''system'', JArr [claudeCodePrompt])]) ''account-1'',
       Dispatch
         (JObj [(''messages'', JArr [JObj [(''role'', JStr ''user''), (''content'', JArr [JNull])]]),
                (''system'', JArr [claudeCodePrompt])]) ''account-1''])"
proof -
  let ?e = "\<lparr>json_parse = Map.empty, json_stringify = (\<lambda>d. ''{}''),
      relay_config = \<lparr>systemPrompt = None, pricingData = None\<rparr>,
      session_hash = None, selected_account = Some ''account-1'',
      access_token = Some ''token-1'', token_count_reply = CallFailed,
      account_limited = False, key_headers = (\<lambda>kt streaming i out. [])\<rparr>"
  let ?key = "\<lparr>ak_enableModelRestriction = False, ak_restrictedModels = [],
      ak_keyType = Some ''databricks''\<rparr>"
  let ?body = "JObj [(''messages'', JArr [JObj [(''role'', JStr ''user''), (''content'', JArr [JNull])]])]"
  let ?shaped = "JObj [(''messages'', JArr [JObj [(''role'', JStr ''user''), (''content'', JArr [JNull])]]),
                (''system'', JArr [claudeCodePrompt])]"
  have floor: "floor_applies ?key" by (simp add: floor_applies_def)
  have body: "?body \<noteq> JNull" by simp
  have allowed: "\<not> model_restricted ?key ?body" by (simp add: model_restricted_def)
  have account: "selected_account ?e = Some ''account-1''" by simp
  have token: "access_token ?e = Some ''token-1''" by simp
  have shaped: "processRequestBody (relay_config ?e) [(''user-agent'', ''curl/8'')] ?body = Inr ?shaped"
    by code_simp
  have failed: "token_count_reply ?e = CallFailed" by simp
  have raises: "totalChars ?shaped = Inl TypeError" by (simp add: totalChars_def)
  have run: "relayRequest ?e (Answered 200 [] ''ok'') ?body ?key [(''user-agent'', ''curl/8'')]
     = (Inr (Relayed \<lparr>rs_statusCode = 200, rs_headers = [], rs_body = ''ok'',
                     rs_accountId = Some ''account-1''\<rparr>),
        [CountTokens ?shaped ''account-1'', Dispatch ?shaped ''account-1''])"
    by code_simp
  from estimator_failure_passes_floor[OF floor body allowed account token shaped failed raises,
      of "Answered 200 [] ''ok''"]
    floor shaped raises run
  show ?thesis by simp
qed

lemma start_keeps_flag:
  "on_message_start kt data st = Inr st' \<Longrightarrow> cp_finalUsageReported st' = cp_finalUsageReported st"
  by (auto simp: on_message_start_def Let_def split: option.splits sum.splits if_splits)

lemma error_keeps_flag:
  "cp_finalUsageReported (on_error_event data st) = cp_finalUsageReported st"
  by (auto simp: on_error_event_def split: option.splits json.splits)

lemma delta_counts:
  "on_message_delta a data st = (st', fx) \<Longrightarrow>
   length (filter is_usage_event fx) + reported_count st \<le> reported_count st' \<and>
   list_all (usage_event_ok a) fx"
  by (auto simp: on_message_delta_def Let_def reported_count_def
           split: option.splits if_splits)

lemma line_counts:
  assumes "capture_line parse kt a st line = Inr (st', fx)"
  shows "length (filter is_usage_event fx) + reported_count st \<le> reported_count st' \<and>
         list_all (usage_event_ok a) fx"
proof (cases "is_data_line line")
  case False
  with assms show ?thesis by (simp add: capture_line_def)
next
  case True
  show ?thesis
  proof (cases "parse (payload line)")
    case None
    with True assms show ?thesis by (simp add: capture_line_def)
  next
    case (Some data)
    show ?thesis
    proof (cases "data = JNull")
      case True
      with \<open>is_data_line line\<close> Some assms show ?thesis by (simp add: capture_line_def)
    next
      case False
      with \<open>is_data_line line\<close> Some assms obtain st1 st2 where
        s1: "on_message_start kt data st = Inr st1"
        and s2: "on_message_delta a data st1 = (st2, fx)"
        and s3: "st' = on_error_event data st2"
        by (auto simp: capture_line_def split: sum.splits prod.splits)
      from start_keeps_flag[OF s1] have "reported_count st1 = reported_count st"
        by (simp add: reported_count_def)
      moreover from s3 have "reported_count st' = reported_count st2"
        by (simp add: reported_count_def error_keeps_flag)
      ultimately show ?thesis using delta_counts[OF s2] by simp
    qed
  qed
qed

lemma lines_count:
  "capture_lines parse kt a st lines = Inr (st', fx) \<Longrightarrow>
   length (filter is_usage_event fx) + reported_count st \<le> reported_count st' \<and>
   list_all (usage_event_ok a) fx"
proof (induction lines arbitrary: st fx)
  case Nil
  then show ?case by simp
next
  case (Cons line lines)
  then obtain st1 fx1 fx2 where
    l: "capture_line parse kt a st line = Inr (st1, fx1)"
    and r: "capture_lines parse kt a st1 lines = Inr (st', fx2)"
    and fx: "fx = fx1 @ fx2"
    by (auto split: sum.splits prod.splits)
  from line_counts[OF l] Cons.IH[OF r] show ?case
    by (simp add: fx)
qed

lemma forward_shape:
  assumes "forward e kt t piece = Inr fx"
  shows "fx = [] \<or> (\<exists>w. fx = [Write w])"
proof -
  define r where "r = (if kt = ''aws'' \<or> kt = ''databricks''
            then processStreamDataForBedrock (json_parse e) (json_stringify e) piece kt
            else if kt = ''cc'' \<or> kt = ''anthropic''
            then processStreamDataForClaudeCode (json_parse e) (json_stringify e) piece
            else Inr piece)"
  from assms have c: "(case r of Inl err \<Rightarrow> Inl err
      | Inr shaped \<Rightarrow>
          (case t of None \<Rightarrow> Inr [Write shaped]
           | Some f \<Rightarrow> Inr (if f shaped \<noteq> [] then [Write (f shaped)] else []))) = Inr fx"
    unfolding forward_def r_def .
  then show ?thesis by (cases r; cases t) (auto split: if_splits)
qed

lemma forward_quiet:
  "forward e kt t piece = Inr fx \<Longrightarrow>
   filter is_usage_event fx = [] \<and> list_all (usage_event_ok a) fx"
  using forward_shape[of e kt t piece fx] by auto

lemma chunk_counts:
  assumes "on_chunk e cl kt t a st chunk = Inr (st', fx)"
  shows "length (filter is_usage_event fx) + reported_count st \<le> reported_count st' \<and>
         list_all (usage_event_ok a) fx"
proof -
  define pieces where "pieces = split_lines (cp_buffer st @ chunk)"
  define st0 where "st0 = st\<lparr>cp_buffer := last pieces\<rparr>"
  define w where "w = (if butlast pieces \<noteq> [] \<and> \<not> cl_destroyed cl
         then forward e kt t (join_lines (butlast pieces) @ [CHR 0x0A]) else Inr [])"
  from assms have c: "(case w of Inl err \<Rightarrow> Inl err
      | Inr written \<Rightarrow>
          (case capture_lines (json_parse e) kt a st0 (butlast pieces) of
             Inl err \<Rightarrow> Inl err
           | Inr (st1, fx1) \<Rightarrow> Inr (st1, written @ fx1))) = Inr (st', fx)"
    unfolding on_chunk_def Let_def pieces_def st0_def w_def .
  then obtain written where wr: "w = Inr written" by (cases w) auto
  with c obtain fx1 where
    cl: "capture_lines (json_parse e) kt a st0 (butlast pieces) = Inr (st', fx1)"
    and fx: "fx = written @ fx1"
    by (cases "capture_lines (json_parse e) kt a st0 (butlast pieces)") auto
  have "filter is_usage_event written = [] \<and> list_all (usage_event_ok a) written"
    using wr forward_quiet[of e kt t _ written a]
    by (auto simp: w_def split: if_splits)
  moreover have "reported_count st0 = reported_count st"
    by (simp add: st0_def reported_count_def)
  ultimately show ?thesis using lines_count[OF cl] by (simp add: fx)
qed

lemma chunks_count:
  "on_chunks e cl kt t a st chunks = Inr (st', fx) \<Longrightarrow>
   length (filter is_usage_event fx) + reported_count st \<le> reported_count st' \<and>
   list_all (usage_event_ok a) fx"
proof (induction chunks arbitrary: st fx)
  case Nil
  then show ?case by simp
next
  case (Cons chunk chunks)
  then obtain st1 fx1 fx2 where
    l: "on_chunk e cl kt t a st chunk = Inr (st1, fx1)"
    and r: "on_chunks e cl kt t a st1 chunks = Inr (st', fx2)"
    and fx: "fx = fx1 @ fx2"
    by (auto split: sum.splits prod.splits)
  from chunk_counts[OF l] Cons.IH[OF r] show ?case
    by (simp add: fx)
qed

lemma end_quiet:
  assumes "on_end e cl kt t a status pb hs st = Inr fx"
  shows "filter is_usage_event fx = [] \<and> list_all (usage_event_ok a) fx"
proof -
  define w where "w = (if trim (cp_buffer st) \<noteq> [] \<and> \<not> cl_destroyed cl
            then forward e kt t (cp_buffer st) else Inr [])"
  from assms obtain written where wr: "w = Inr written"
    unfolding on_end_def w_def by (auto split: sum.splits)
  then have q: "filter is_usage_event written = [] \<and> list_all (usage_event_ok a) written"
    using forward_quiet[of e kt t "cp_buffer st" written a]
    by (auto simp: w_def split: if_splits)
  from assms wr have "fx = written @
               (if \<not> cl_destroyed cl then [EndStream] else []) @
               (if cp_rateLimitDetected st \<or> status = 429
                then [MarkRateLimited a (session_hash e)]
                else if status = 200
                then (if account_limited e then [RemoveRateLimit a] else []) @
                     (if hs \<noteq> [] \<and> isRealClaudeCodeRequest pb hs
                      then [StoreHeaders a] else [])
                else [])"
    unfolding on_end_def w_def[symmetric] by simp
  with q show ?thesis by simp
qed

lemma error_event_quiet:
  "filter is_usage_event (error_event e clock props) = [] \<and>
   list_all (usage_event_ok a) (error_event e clock props)"
  by (simp add: error_event_def)

lemma stream_request_usage:
  "length (filter is_usage_event
      (snd (makeClaudeStreamRequestWithUsageCapture e clock cl ups pb hs a t kt))) \<le> 1 \<and>
   list_all (usage_event_ok a)
      (snd (makeClaudeStreamRequestWithUsageCapture e clock cl ups pb hs a t kt))"
proof (cases ups)
  case (StreamError code)
  then show ?thesis
    by (simp add: makeClaudeStreamRequestWithUsageCapture_def error_event_quiet)
next
  case StreamTimeout
  then show ?thesis
    by (simp add: makeClaudeStreamRequestWithUsageCapture_def error_event_quiet)
next
  case (StreamAnswered status uh chunks)
  show ?thesis
  proof (cases "status = 200")
    case False
    with StreamAnswered show ?thesis
      by (simp add: makeClaudeStreamRequestWithUsageCapture_def error_event_quiet)
  next
    case True
    define hdrs where "hdrs = (if kt = ''aws'' \<or> kt = ''databricks'' \<or> kt = ''anthropic''
                          then key_headers e kt True None None else uh)"
    show ?thesis
    proof (cases "cl_headersSent cl \<and> hdrs \<noteq> []")
      case True
      with StreamAnswered \<open>status = 200\<close> show ?thesis
        by (simp add: makeClaudeStreamRequestWithUsageCapture_def Let_def hdrs_def)
    next
      case notsent: False
      show ?thesis
      proof (cases "on_chunks e cl kt t a initial_capture chunks")
        case (Inl err)
        with StreamAnswered True notsent show ?thesis
          by (simp add: makeClaudeStreamRequestWithUsageCapture_def Let_def hdrs_def)
      next
        case (Inr p)
        then obtain st fx where p: "on_chunks e cl kt t a initial_capture chunks = Inr (st, fx)"
          by (cases p) auto
        from chunks_count[OF p] have n: "length (filter is_usage_event fx) \<le> 1"
          and ok: "list_all (usage_event_ok a) fx"
          by (auto simp: reported_count_def initial_capture_def split: if_splits)
        show ?thesis
        proof (cases "on_end e cl kt t a status pb hs st")
          case (Inl err)
          with StreamAnswered True notsent p n ok show ?thesis
            by (simp add: makeClaudeStreamRequestWithUsageCapture_def Let_def hdrs_def)
        next
          case (Inr closing)
          from end_quiet[OF this] have "filter is_usage_event closing = []"
            "list_all (usage_event_ok a) closing"
            by auto
          with StreamAnswered True notsent p n ok Inr show ?thesis
            by (simp add: makeClaudeStreamRequestWithUsageCapture_def Let_def hdrs_def)
        qed
      qed
    qed
  qed
qed

lemma after_response_quiet:
  "filter is_usage_event (after_response e status b a requestBody hs) = []"
  by (simp add: after_response_def)

lemma shaped_account:
  "processResponseByKeyType e resp kt = Inr resp' \<Longrightarrow> rs_accountId resp' = rs_accountId resp"
  by (auto simp: processResponseByKeyType_def Let_def split: if_splits sum.splits prod.splits)

lemma relay_request_quiet:
  "filter is_usage_event (snd (relayRequest e up requestBody apiKeyData clientHeaders)) = []"
proof -
  have "filter is_usage_event (snd (relayRequest e up requestBody apiKeyData clientHeaders)) = []"
    unfolding relayRequest_def Let_def
    by (simp add: after_response_quiet
             split: option.splits sum.splits upstream.splits unit.splits)
  then show ?thesis .
qed

lemma relay_request_account:
  "fst (relayRequest e up requestBody apiKeyData clientHeaders) = Inr (Relayed resp) \<Longrightarrow>
   rs_accountId resp = selected_account e \<and> selected_account e \<noteq> None"
  unfolding relayRequest_def Let_def
  by (auto split: option.splits sum.splits upstream.splits if_splits dest!: shaped_account)

lemma relay_stream_usage:
  "length (filter is_usage_event
      (snd (relayStreamRequestWithUsageCapture e clock cl ups requestBody apiKeyData
              clientHeaders streamTransformer))) \<le> 1 \<and>
   (\<forall>a. selected_account e = Some a \<longrightarrow>
      list_all (usage_event_ok a)
        (snd (relayStreamRequestWithUsageCapture e clock cl ups requestBody apiKeyData
                clientHeaders streamTransformer)))"
proof -
  let ?run = "relayStreamRequestWithUsageCapture e clock cl ups requestBody apiKeyData
                clientHeaders streamTransformer"
  define kt where "kt = (case ak_keyType apiKeyData of None \<Rightarrow> ''cc''
                         | Some k \<Rightarrow> (if k = [] then ''cc'' else k))"
  have quiet: "snd ?run = [] \<Longrightarrow> ?thesis" by simp
  show ?thesis
  proof (cases "requestBody = JNull \<or> model_restricted apiKeyData requestBody")
    case True
    then show ?thesis
      by (auto simp: relayStreamRequestWithUsageCapture_def)
  next
    case reach: False
    show ?thesis
    proof (cases "selected_account e")
      case None
      with reach show ?thesis by (simp add: relayStreamRequestWithUsageCapture_def)
    next
      case (Some a)
      show ?thesis
      proof (cases "access_token e")
        case None
        with reach Some show ?thesis by (simp add: relayStreamRequestWithUsageCapture_def)
      next
        case tok: (Some accessToken)
        show ?thesis
        proof (cases "processRequestBody (relay_config e) clientHeaders requestBody")
          case (Inl err)
          with reach Some tok show ?thesis by (simp add: relayStreamRequestWithUsageCapture_def)
        next
          case (Inr pb)
          define counted where "counted = (if floor_applies apiKeyData
                        then [CountTokens pb a] else [])"
          have cq: "filter is_usage_event counted = []" "list_all (usage_event_ok a) counted"
            by (simp_all add: counted_def)
          obtain res fx where m: "makeClaudeStreamRequestWithUsageCapture e clock cl ups pb
              clientHeaders a streamTransformer kt = (res, fx)"
            by (cases "makeClaudeStreamRequestWithUsageCapture e clock cl ups pb
              clientHeaders a streamTransformer kt") auto
          from stream_request_usage[of e clock cl ups pb clientHeaders a streamTransformer kt] m
          have fxq: "length (filter is_usage_event fx) \<le> 1" "list_all (usage_event_ok a) fx"
            by simp_all
          have "snd ?run = counted \<or> snd ?run = counted @ fx \<or>
                (\<exists>w. snd ?run = counted @ [WriteHead 429, Write w, EndStream])"
            using reach Some tok Inr m
            unfolding relayStreamRequestWithUsageCapture_def Let_def counted_def kt_def
            by (cases "token_floor e apiKeyData pb")
               (auto split: option.splits)
          with cq fxq Some show ?thesis by auto
        qed
      qed
    qed
  qed
qed

lemma split_lines_append:
  "split_lines (s @ c) = butlast (split_lines s) @ split_lines (last (split_lines s) @ c)"
proof (induction s)
  case Nil
  then show ?case by simp
next
  case (Cons x xs)
  show ?case
  proof (cases "x = CHR 0x0A")
    case True
    with Cons show ?thesis by (simp add: split_lines_nonempty)
  next
    case False
    obtain l0 ls0 where s: "split_lines xs = l0 # ls0"
      using split_lines_nonempty[of xs] by (cases "split_lines xs") auto
    show ?thesis
    proof (cases "ls0 = []")
      case True
      with s Cons False show ?thesis by (simp)
    next
      case nonempty: False
      with s Cons False show ?thesis by (simp)
    qed
  qed
qed

lemma split_lines_no_feed: "l \<in> set (split_lines s) \<Longrightarrow> CHR 0x0A \<notin> set l"
proof (induction s arbitrary: l)
  case Nil
  then show ?case by simp
next
  case (Cons x xs)
  then show ?case
    by (cases "split_lines xs") (auto split: if_splits)
qed

lemma split_lines_single: "CHR 0x0A \<notin> set b \<Longrightarrow> split_lines b = [b]"
  by (induction b) auto

lemma start_not_delta: "start_with_usage d \<Longrightarrow> \<not> delta_with_output d"
  by (auto simp: start_with_usage_def delta_with_output_def)

lemma delta_follows_start_append:
  "delta_follows_start (xs @ ys) =
     (delta_follows_start xs \<or>
      (if list_ex start_with_usage xs then list_ex delta_with_output ys
       else delta_follows_start ys))"
  by (induction xs) auto

lemma usage_due_append:
  "usage_due s r (xs @ ys) =
     (usage_due s r xs \<or>
      usage_due (s \<or> list_ex start_with_usage xs) (r \<or> usage_due s r xs) ys)"
  by (auto simp: usage_due_def delta_follows_start_append)

lemma start_seen:
  "on_message_start kt data st = Inr st' \<Longrightarrow>
   input_seen st' = (input_seen st \<or> start_with_usage data) \<and>
   cp_finalUsageReported st' = cp_finalUsageReported st"
  by (auto simp: on_message_start_def start_with_usage_def input_seen_def Let_def
           split: option.splits sum.splits if_splits)

lemma delta_exact:
  "on_message_delta a data st = (st', fx) \<Longrightarrow>
   length (filter is_usage_event fx) =
     (if delta_with_output data \<and> input_seen st \<and> \<not> cp_finalUsageReported st then 1 else 0) \<and>
   input_seen st' = input_seen st \<and>
   cp_finalUsageReported st' =
     (cp_finalUsageReported st \<or> (delta_with_output data \<and> input_seen st))"
  by (auto simp: on_message_delta_def delta_with_output_def input_seen_def Let_def
           split: option.splits if_splits)

lemma error_seen:
  "input_seen (on_error_event data st) = input_seen st \<and>
   cp_finalUsageReported (on_error_event data st) = cp_finalUsageReported st"
  by (auto simp: on_error_event_def input_seen_def split: option.splits json.splits)

lemma line_exact:
  assumes "capture_line parse kt a st line = Inr (st', fx)"
  shows "length (filter is_usage_event fx) =
           (if usage_due (input_seen st) (cp_finalUsageReported st)
                 (List.map_filter (line_event parse) [line]) then 1 else 0) \<and>
         input_seen st' =
           (input_seen st \<or> list_ex start_with_usage (List.map_filter (line_event parse) [line])) \<and>
         cp_finalUsageReported st' =
           (cp_finalUsageReported st \<or>
            usage_due (input_seen st) (cp_finalUsageReported st)
              (List.map_filter (line_event parse) [line]))"
proof (cases "line_event parse line")
  case None
  with assms have "st' = st \<and> fx = []"
    by (auto simp: capture_line_def line_event_def split: if_splits option.splits)
  with None show ?thesis by (simp add: List.map_filter_simps usage_due_def)
next
  case (Some data)
  then have d: "is_data_line line" "parse (payload line) = Some data" "data \<noteq> JNull"
    by (auto simp: line_event_def split: if_splits option.splits)
  with assms obtain st1 st2 where
    s1: "on_message_start kt data st = Inr st1"
    and s2: "on_message_delta a data st1 = (st2, fx)"
    and s3: "st' = on_error_event data st2"
    by (auto simp: capture_line_def split: sum.splits prod.splits)
  note a1 = start_seen[OF s1]
  note a2 = delta_exact[OF s2]
  note a3 = error_seen[of data st2]
  have ev: "List.map_filter (line_event parse) [line] = [data]"
    using Some by (simp add: List.map_filter_simps)
  show ?thesis
    unfolding ev using a1 a2 a3 s3 start_not_delta[of data]
    by (auto simp: usage_due_def)
qed

lemma lines_exact:
  "capture_lines parse kt a st lines = Inr (st', fx) \<Longrightarrow>
   length (filter is_usage_event fx) =
     (if usage_due (input_seen st) (cp_finalUsageReported st)
           (List.map_filter (line_event parse) lines) then 1 else 0) \<and>
   input_seen st' =
     (input_seen st \<or> list_ex start_with_usage (List.map_filter (line_event parse) lines)) \<and>
   cp_finalUsageReported st' =
     (cp_finalUsageReported st \<or>
      usage_due (input_seen st) (cp_finalUsageReported st)
        (List.map_filter (line_event parse) lines))"
proof (induction lines arbitrary: st fx)
  case Nil
  then show ?case by (simp add: List.map_filter_simps usage_due_def)
next
  case (Cons line lines)
  then obtain st1 fx1 fx2 where
    l: "capture_line parse kt a st line = Inr (st1, fx1)"
    and r: "capture_lines parse kt a st1 lines = Inr (st', fx2)"
    and fx: "fx = fx1 @ fx2"
    by (auto split: sum.splits prod.splits)
  define e1 where "e1 = List.map_filter (line_event parse) [line]"
  define e2 where "e2 = List.map_filter (line_event parse) lines"
  have ap: "List.map_filter (line_event parse) (line # lines) = e1 @ e2"
    by (simp add: List.map_filter_def e1_def e2_def)
  define A where "A = usage_due (input_seen st) (cp_finalUsageReported st) e1"
  define B where "B = usage_due (input_seen st1) (cp_finalUsageReported st1) e2"
  from line_exact[OF l] have h1:
    "length (filter is_usage_event fx1) = (if A then 1 else 0)"
    "input_seen st1 = (input_seen st \<or> list_ex start_with_usage e1)"
    "cp_finalUsageReported st1 = (cp_finalUsageReported st \<or> A)"
    by (simp_all add: e1_def A_def)
  from Cons.IH[OF r] have h2:
    "length (filter is_usage_event fx2) = (if B then 1 else 0)"
    "input_seen st' = (input_seen st1 \<or> list_ex start_with_usage e2)"
    "cp_finalUsageReported st' = (cp_finalUsageReported st1 \<or> B)"
    by (simp_all add: e2_def B_def)
  have excl: "\<not> (A \<and> B)"
    using h1(3) by (auto simp: B_def usage_due_def)
  have whole: "usage_due (input_seen st) (cp_finalUsageReported st) (e1 @ e2) = (A \<or> B)"
    unfolding usage_due_append A_def B_def h1(2) h1(3) A_def ..
  have n: "length (filter is_usage_event fx) = (if A \<or> B then 1 else 0)"
    using h1(1) h2(1) excl by (auto simp: fx)
  have s: "input_seen st' = (input_seen st \<or> list_ex start_with_usage (e1 @ e2))"
    using h1(2) h2(2) by (auto simp: list_ex_append)
  have f: "cp_finalUsageReported st' = (cp_finalUsageReported st \<or> A \<or> B)"
    using h1(3) h2(3) by auto
  show ?case
    unfolding ap whole using n s f by simp
qed


lemma start_keeps_buffer:
  "on_message_start kt data st = Inr st' \<Longrightarrow> cp_buffer st' = cp_buffer st"
  by (auto simp: on_message_start_def Let_def split: option.splits sum.splits if_splits)

lemma delta_keeps_buffer:
  "on_message_delta a data st = (st', fx) \<Longrightarrow> cp_buffer st' = cp_buffer st"
  by (auto simp: on_message_delta_def Let_def split: option.splits if_splits)

lemma error_keeps_buffer: "cp_buffer (on_error_event data st) = cp_buffer st"
  by (auto simp: on_error_event_def split: option.splits json.splits)

lemma line_keeps_buffer:
  assumes "capture_line parse kt a st line = Inr (st', fx)"
  shows "cp_buffer st' = cp_buffer st"
proof (cases "line_event parse line")
  case None
  with assms have "st' = st"
    by (auto simp: capture_line_def line_event_def split: if_splits option.splits)
  then show ?thesis by simp
next
  case (Some data)
  then have d: "is_data_line line" "parse (payload line) = Some data" "data \<noteq> JNull"
    by (auto simp: line_event_def split: if_splits option.splits)
  with assms obtain st1 st2 where
    s1: "on_message_start kt data st = Inr st1"
    and s2: "on_message_delta a data st1 = (st2, fx)"
    and s3: "st' = on_error_event data st2"
    by (auto simp: capture_line_def split: sum.splits prod.splits)
  show ?thesis
    using start_keeps_buffer[OF s1] delta_keeps_buffer[OF s2] s3
    by (simp add: error_keeps_buffer)
qed

lemma lines_keep_buffer:
  "capture_lines parse kt a st lines = Inr (st', fx) \<Longrightarrow> cp_buffer st' = cp_buffer st"
proof (induction lines arbitrary: st fx)
  case Nil
  then show ?case by simp
next
  case (Cons line lines)
  then obtain st1 fx1 fx2 where
    l: "capture_line parse kt a st line = Inr (st1, fx1)"
    and r: "capture_lines parse kt a st1 lines = Inr (st', fx2)"
    by (auto split: sum.splits prod.splits)
  from line_keeps_buffer[OF l] Cons.IH[OF r] show ?case by simp
qed

lemma chunk_exact:
  assumes "on_chunk e cl kt t a st chunk = Inr (st', fx)"
  shows "length (filter is_usage_event fx) =
           (if usage_due (input_seen st) (cp_finalUsageReported st)
                 (List.map_filter (line_event (json_parse e))
                    (butlast (split_lines (cp_buffer st @ chunk)))) then 1 else 0) \<and>
         input_seen st' =
           (input_seen st \<or>
            list_ex start_with_usage
              (List.map_filter (line_event (json_parse e))
                 (butlast (split_lines (cp_buffer st @ chunk))))) \<and>
         cp_finalUsageReported st' =
           (cp_finalUsageReported st \<or>
            usage_due (input_seen st) (cp_finalUsageReported st)
              (List.map_filter (line_event (json_parse e))
                 (butlast (split_lines (cp_buffer st @ chunk))))) \<and>
         cp_buffer st' = last (split_lines (cp_buffer st @ chunk))"
proof -
  define pieces where "pieces = split_lines (cp_buffer st @ chunk)"
  define st0 where "st0 = st\<lparr>cp_buffer := last pieces\<rparr>"
  define w where "w = (if butlast pieces \<noteq> [] \<and> \<not> cl_destroyed cl
         then forward e kt t (join_lines (butlast pieces) @ [CHR 0x0A]) else Inr [])"
  from assms have c: "(case w of Inl err \<Rightarrow> Inl err
      | Inr written \<Rightarrow>
          (case capture_lines (json_parse e) kt a st0 (butlast pieces) of
             Inl err \<Rightarrow> Inl err
           | Inr (st1, fx1) \<Rightarrow> Inr (st1, written @ fx1))) = Inr (st', fx)"
    unfolding on_chunk_def Let_def pieces_def st0_def w_def .
  then obtain written where wr: "w = Inr written" by (cases w) auto
  with c obtain fx1 where
    cl: "capture_lines (json_parse e) kt a st0 (butlast pieces) = Inr (st', fx1)"
    and fx: "fx = written @ fx1"
    by (cases "capture_lines (json_parse e) kt a st0 (butlast pieces)") auto
  have q: "filter is_usage_event written = []"
    using wr forward_quiet[of e kt t _ written a]
    by (auto simp: w_def split: if_splits)
  have s0: "input_seen st0 = input_seen st" "cp_finalUsageReported st0 = cp_finalUsageReported st"
    "cp_buffer st0 = last pieces"
    by (simp_all add: st0_def input_seen_def)
  from lines_exact[OF cl] lines_keep_buffer[OF cl] q show ?thesis
    unfolding s0 pieces_def[symmetric] by (simp add: fx)
qed

lemma chunks_exact:
  "on_chunks e cl kt t a st chunks = Inr (st', fx) \<Longrightarrow> CHR 0x0A \<notin> set (cp_buffer st) \<Longrightarrow>
   length (filter is_usage_event fx) =
     (if usage_due (input_seen st) (cp_finalUsageReported st)
           (List.map_filter (line_event (json_parse e))
              (butlast (split_lines (cp_buffer st @ concat chunks)))) then 1 else 0)"
proof (induction chunks arbitrary: st fx)
  case Nil
  then show ?case
    by (simp add: split_lines_single List.map_filter_simps usage_due_def)
next
  case (Cons chunk chunks)
  from Cons.prems(1) obtain st1 fx1 fx2 where
    l: "on_chunk e cl kt t a st chunk = Inr (st1, fx1)"
    and r: "on_chunks e cl kt t a st1 chunks = Inr (st', fx2)"
    and fx: "fx = fx1 @ fx2"
    by (auto split: sum.splits prod.splits)
  define e1 where "e1 = List.map_filter (line_event (json_parse e))
                          (butlast (split_lines (cp_buffer st @ chunk)))"
  define e2 where "e2 = List.map_filter (line_event (json_parse e))
                          (butlast (split_lines (cp_buffer st1 @ concat chunks)))"
  define A where "A = usage_due (input_seen st) (cp_finalUsageReported st) e1"
  define B where "B = usage_due (input_seen st1) (cp_finalUsageReported st1) e2"
  from chunk_exact[OF l] have h1:
    "length (filter is_usage_event fx1) = (if A then 1 else 0)"
    "input_seen st1 = (input_seen st \<or> list_ex start_with_usage e1)"
    "cp_finalUsageReported st1 = (cp_finalUsageReported st \<or> A)"
    "cp_buffer st1 = last (split_lines (cp_buffer st @ chunk))"
    by (simp_all add: e1_def A_def)
  have "cp_buffer st1 \<in> set (split_lines (cp_buffer st @ chunk))"
    unfolding h1(4) by (rule last_in_set) (rule split_lines_nonempty)
  then have nofeed: "CHR 0x0A \<notin> set (cp_buffer st1)"
    by (rule split_lines_no_feed)
  from Cons.IH[OF r nofeed] have h2:
    "length (filter is_usage_event fx2) = (if B then 1 else 0)"
    by (simp add: e2_def B_def)
  have "split_lines (cp_buffer st @ concat (chunk # chunks)) =
        butlast (split_lines (cp_buffer st @ chunk)) @ split_lines (cp_buffer st1 @ concat chunks)"
    using split_lines_append[of "cp_buffer st @ chunk" "concat chunks"] h1(4) by simp
  then have "butlast (split_lines (cp_buffer st @ concat (chunk # chunks))) =
        butlast (split_lines (cp_buffer st @ chunk)) @
        butlast (split_lines (cp_buffer st1 @ concat chunks))"
    by (simp add: butlast_append split_lines_nonempty)
  then have ap: "List.map_filter (line_event (json_parse e))
                   (butlast (split_lines (cp_buffer st @ concat (chunk # chunks)))) = e1 @ e2"
    by (simp add: List.map_filter_def e1_def e2_def)
  have excl: "\<not> (A \<and> B)"
    using h1(3) by (auto simp: B_def usage_due_def)
  have whole: "usage_due (input_seen st) (cp_finalUsageReported st) (e1 @ e2) = (A \<or> B)"
    unfolding usage_due_append A_def B_def h1(2) h1(3) A_def ..
  have n: "length (filter is_usage_event fx) = (if A \<or> B then 1 else 0)"
    using h1(1) h2(1) excl by (auto simp: fx)
  show ?case
    unfolding ap whole using n .
qed

lemma stream_request_exact:
  assumes "makeClaudeStreamRequestWithUsageCapture e clock cl (StreamAnswered 200 uh chunks) pb hs
             a t kt = (Inr (), fx)"
  shows "length (filter is_usage_event fx) =
           (if delta_follows_start (stream_events (json_parse e) chunks) then 1 else 0)"
proof -
  define hdrs where "hdrs = (if kt = ''aws'' \<or> kt = ''databricks'' \<or> kt = ''anthropic''
                          then key_headers e kt True None None else uh)"
  have notsent: "\<not> (cl_headersSent cl \<and> hdrs \<noteq> [])"
  proof
    assume "cl_headersSent cl \<and> hdrs \<noteq> []"
    then have "makeClaudeStreamRequestWithUsageCapture e clock cl (StreamAnswered 200 uh chunks)
                 pb hs a t kt = (Inl HeadersSent, [Dispatch pb a])"
      by (simp add: makeClaudeStreamRequestWithUsageCapture_def Let_def hdrs_def)
    with assms show False by simp
  qed
  show ?thesis
  proof (cases "on_chunks e cl kt t a initial_capture chunks")
    case (Inl err)
    with assms notsent show ?thesis
      by (simp add: makeClaudeStreamRequestWithUsageCapture_def Let_def hdrs_def
               split: if_splits)
  next
    case (Inr p)
    then obtain st fx1 where p: "on_chunks e cl kt t a initial_capture chunks = Inr (st, fx1)"
      by (cases p) auto
    have "CHR 0x0A \<notin> set (cp_buffer initial_capture)"
      by (simp add: initial_capture_def)
    from chunks_exact[OF p this]
    have n: "length (filter is_usage_event fx1) =
               (if delta_follows_start (stream_events (json_parse e) chunks) then 1 else 0)"
      by (simp add: initial_capture_def input_seen_def usage_due_def stream_events_def
            stream_lines_def)
    show ?thesis
    proof (cases "on_end e cl kt t a 200 pb hs st")
      case (Inl err)
      with assms notsent p show ?thesis
        by (simp add: makeClaudeStreamRequestWithUsageCapture_def Let_def hdrs_def
                 split: if_splits)
    next
      case (Inr closing)
      from end_quiet[OF this] have "filter is_usage_event closing = []"
        by auto
      with assms notsent p n Inr show ?thesis
        by (auto simp: makeClaudeStreamRequestWithUsageCapture_def Let_def hdrs_def
                 split: if_splits)
    qed
  qed
qed

lemma relay_stream_exact:
  assumes run: "relayStreamRequestWithUsageCapture e clock cl (StreamAnswered 200 uh chunks)
                  requestBody apiKeyData clientHeaders streamTransformer = (Inr (), fx)"
  shows "length (filter is_usage_event fx) =
           (if list_ex is_dispatch fx \<and>
               delta_follows_start (stream_events (json_parse e) chunks) then 1 else 0)"
proof -
  let ?ups = "StreamAnswered 200 uh chunks"
  define kt where "kt = (case ak_keyType apiKeyData of None \<Rightarrow> ''cc''
                         | Some k \<Rightarrow> (if k = [] then ''cc'' else k))"
  show ?thesis
  proof (cases "requestBody = JNull \<or> model_restricted apiKeyData requestBody")
    case True
    with run show ?thesis
      by (auto simp: relayStreamRequestWithUsageCapture_def split: if_splits)
  next
    case reach: False
    show ?thesis
    proof (cases "selected_account e")
      case None
      with reach run show ?thesis by (simp add: relayStreamRequestWithUsageCapture_def)
    next
      case (Some a)
      show ?thesis
      proof (cases "access_token e")
        case None
        with reach Some run show ?thesis by (simp add: relayStreamRequestWithUsageCapture_def)
      next
        case tok: (Some accessToken)
        show ?thesis
        proof (cases "processRequestBody (relay_config e) clientHeaders requestBody")
          case (Inl err)
          with reach Some tok run show ?thesis
            by (simp add: relayStreamRequestWithUsageCapture_def)
        next
          case (Inr pb)
          define counted where "counted = (if floor_applies apiKeyData
                        then [CountTokens pb a] else [])"
          have cq: "filter is_usage_event counted = []" "\<not> list_ex is_dispatch counted"
            by (simp_all add: counted_def)
          obtain res fx1 where m: "makeClaudeStreamRequestWithUsageCapture e clock cl ?ups pb
              clientHeaders a streamTransformer kt = (res, fx1)"
            by (cases "makeClaudeStreamRequestWithUsageCapture e clock cl ?ups pb
              clientHeaders a streamTransformer kt") auto
          have d: "list_ex is_dispatch fx1"
            using stream_request_dispatches[of pb a e clock cl ?ups clientHeaders streamTransformer kt] m
            by (force simp: list_ex_iff intro: bexI[of _ "Dispatch pb a"])
          have "fx = counted \<or> (res = Inr () \<and> fx = counted @ fx1) \<or>
                (\<exists>w. fx = counted @ [WriteHead 429, Write w, EndStream])"
            using reach Some tok Inr m run
            unfolding relayStreamRequestWithUsageCapture_def Let_def counted_def kt_def
            by (cases "token_floor e apiKeyData pb")
               (auto split: option.splits if_splits)
          then consider (quiet) "fx = counted"
            | (sent) "res = Inr ()" "fx = counted @ fx1"
            | (refused) w where "fx = counted @ [WriteHead 429, Write w, EndStream]"
            by blast
          then show ?thesis
          proof cases
            case quiet
            with cq show ?thesis by simp
          next
            case sent
            with m have "makeClaudeStreamRequestWithUsageCapture e clock cl ?ups pb
              clientHeaders a streamTransformer kt = (Inr (), fx1)" by simp
            from stream_request_exact[OF this] sent cq d show ?thesis by simp
          next
            case refused
            with cq show ?thesis by simp
          qed
        qed
      qed
    qed
  qed
qed


text \<open>
  C4, as the code has it.  In the streaming path the usage callback is called at most
  once per request, and every usage event carries the account the selector chose
  together with an input and an output count.  When the upstream answers 200 and the
  relay returns, the callback is called exactly once if the request was dispatched
  and, among the events on the complete lines of the body, a \<^verbatim>\<open>message_delta\<close> with
  \<^verbatim>\<open>output_tokens\<close> comes after a \<^verbatim>\<open>message_start\<close> with a usage, however the body
  is cut into chunks; otherwise it is not called.  \<^verbatim>\<open>relayRequest\<close> calls no usage
  callback; the response it returns is tagged with the account the selector chose.
\<close>

theorem usage_event_at_most_once:
  "length (filter is_usage_event
      (snd (relayStreamRequestWithUsageCapture e clock cl ups requestBody apiKeyData
              clientHeaders streamTransformer))) \<le> 1 \<and>
   (\<forall>a. selected_account e = Some a \<longrightarrow>
      list_all (usage_event_ok a)
        (snd (relayStreamRequestWithUsageCapture e clock cl ups requestBody apiKeyData
                clientHeaders streamTransformer))) \<and>
   (\<forall>uh chunks.
      ups = StreamAnswered 200 uh chunks \<and>
      fst (relayStreamRequestWithUsageCapture e clock cl ups requestBody apiKeyData
             clientHeaders streamTransformer) = Inr () \<longrightarrow>
      length (filter is_usage_event
        (snd (relayStreamRequestWithUsageCapture e clock cl ups requestBody apiKeyData
                clientHeaders streamTransformer))) =
        (if list_ex is_dispatch
              (snd (relayStreamRequestWithUsageCapture e clock cl ups requestBody apiKeyData
                      clientHeaders streamTransformer)) \<and>
            delta_follows_start (stream_events (json_parse e) chunks)
         then 1 else 0)) \<and>
   filter is_usage_event (snd (relayRequest e up requestBody apiKeyData clientHeaders)) = [] \<and>
   (\<forall>resp. fst (relayRequest e up requestBody apiKeyData clientHeaders) = Inr (Relayed resp) \<longrightarrow>
      rs_accountId resp = selected_account e \<and> selected_account e \<noteq> None)"
proof -
  let ?run = "relayStreamRequestWithUsageCapture e clock cl ups requestBody apiKeyData
                clientHeaders streamTransformer"
  have exact: "length (filter is_usage_event (snd ?run)) =
        (if list_ex is_dispatch (snd ?run) \<and>
            delta_follows_start (stream_events (json_parse e) chunks)
         then 1 else 0)"
    if "ups = StreamAnswered 200 uh chunks \<and> fst ?run = Inr ()" for uh chunks
  proof -
    from that have "relayStreamRequestWithUsageCapture e clock cl (StreamAnswered 200 uh chunks)
        requestBody apiKeyData clientHeaders streamTransformer = (Inr (), snd ?run)"
      by (metis prod.collapse)
    from relay_stream_exact[OF this] show ?thesis .
  qed
  show ?thesis
    using relay_stream_usage[of e clock cl ups requestBody apiKeyData clientHeaders streamTransformer]
      exact relay_request_quiet[of e up requestBody apiKeyData clientHeaders]
      relay_request_account[of e up requestBody apiKeyData clientHeaders]
    by blast
qed

theorem usage_event_at_most_once_witness:
  \<open>selected_account
     \<lparr>json_parse =
        [''{"type":"message_start","message":{"model":"m","usage":{"input_tokens":10}}}'' \<mapsto>
           JObj [(''type'', JStr ''message_start''),
                 (''message'', JObj [(''model'', JStr ''m''),
                                     (''usage'', JObj [(''input_tokens'', JNum 10)])])],
         ''{"type":"message_delta","usage":{"output_tokens":30}}'' \<mapsto>
           JObj [(''type'', JStr ''message_delta''),
                 (''usage'', JObj [(''output_tokens'', JNum 30)])]],
      json_stringify =
        (\<lambda>d. if d = JObj [(''type'', JStr ''message_delta''),
                            (''usage'', JObj [(''output_tokens'', JNum 30),
                                              (''input_tokens'', JNum 0)])]
              then ''{"type":"message_delta","usage":{"output_tokens":30,"input_tokens":0}}''
              else ''{"type":"message_start","message":{"model":"m","usage":{"input_tokens":10}}}''),
      relay_config = \<lparr>systemPrompt = None, pricingData = None\<rparr>,
      session_hash = None, selected_account = Some ''account-1'',
      access_token = Some ''token-1'', token_count_reply = CallFailed,
      account_limited = False, key_headers = (\<lambda>kt streaming i out. [])\<rparr>
   = Some ''account-1'' \<and>
   relayStreamRequestWithUsageCapture
     \<lparr>json_parse =
        [''{"type":"message_start","message":{"model":"m","usage":{"input_tokens":10}}}'' \<mapsto>
           JObj [(''type'', JStr ''message_start''),
                 (''message'', JObj [(''model'', JStr ''m''),
                                     (''usage'', JObj [(''input_tokens'', JNum 10)])])],
         ''{"type":"message_delta","usage":{"output_tokens":30}}'' \<mapsto>
           JObj [(''type'', JStr ''message_delta''),
                 (''usage'', JObj [(''output_tokens'', JNum 30)])]],
      json_stringify =
        (\<lambda>d. if d = JObj [(''type'', JStr ''message_delta''),
                            (''usage'', JObj [(''output_tokens'', JNum 30),
                                              (''input_tokens'', JNum 0)])]
              then ''{"type":"message_delta","usage":{"output_tokens":30,"input_tokens":0}}''
              else ''{"type":"message_start","message":{"model":"m","usage":{"input_tokens":10}}}''),
      relay_config = \<lparr>systemPrompt = None, pricingData = None\<rparr>,
      session_hash = None, selected_account = Some ''account-1'',
      access_token = Some ''token-1'', token_count_reply = CallFailed,
      account_limited = False, key_headers = (\<lambda>kt streaming i out. [])\<rparr>
     ''2025-01-01T00:00:00.000Z''
     \<lparr>cl_destroyed = False, cl_headersSent = False\<rparr>
     (StreamAnswered 200 []
        [''data: {"type":"message_start","message":{"model":"m","usage":{"input_tokens":10}}}''
           @ [CHR 0x0A] @ ''data: {"type":"mess'',
         ''age_delta","usage":{"output_tokens":30}}'' @ [CHR 0x0A]])
     (JObj [(''model'', JStr ''m''),
            (''messages'', JArr [JObj [(''role'', JStr ''user''), (''content'', JStr ''hi'')]])])
     \<lparr>ak_enableModelRestriction = False, ak_restrictedModels = [], ak_keyType = None\<rparr>
     [(''user-agent'', ''curl/8'')] None
   = (Inr (),
      [Dispatch
         (JObj [(''model'', JStr ''m''),
            (''messages'', JArr [JObj [(''role'', JStr ''user''), (''content'', JStr ''hi'')]]),
            (''system'', JArr [claudeCodePrompt])]) ''account-1'',
       SetHeaders [],
       Write (''data: {"type":"message_start","message":{"model":"m","usage":{"input_tokens":10}}}''
              @ [CHR 0x0A]),
       Write (''data: {"type":"message_delta","usage":{"output_tokens":30,"input_tokens":0}}''
              @ [CHR 0x0A]),
       UsageEvent
         \<lparr>ud_input_tokens = Some (JNum 10), ud_cache_creation_input_tokens = Some (JNum 0),
          ud_cache_read_input_tokens = Some (JNum 0), ud_model = Some (JStr ''m''),
          ud_output_tokens = Some (JNum 30)\<rparr> ''account-1'',
       EndStream]) \<and>
   delta_follows_start
     (stream_events
        (json_parse
           \<lparr>json_parse =
        [''{"type":"message_start","message":{"model":"m","usage":{"input_tokens":10}}}'' \<mapsto>
           JObj [(''type'', JStr ''message_start''),
                 (''message'', JObj [(''model'', JStr ''m''),
                                     (''usage'', JObj [(''input_tokens'', JNum 10)])])],
         ''{"type":"message_delta","usage":{"output_tokens":30}}'' \<mapsto>
           JObj [(''type'', JStr ''message_delta''),
                 (''usage'', JObj [(''output_tokens'', JNum 30)])]],
      json_stringify =
        (\<lambda>d. if d = JObj [(''type'', JStr ''message_delta''),
                            (''usage'', JObj [(''output_tokens'', JNum 30),
                                              (''input_tokens'', JNum 0)])]
              then ''{"type":"message_delta","usage":{"output_tokens":30,"input_tokens":0}}''
              else ''{"type":"message_start","message":{"model":"m","usage":{"input_tokens":10}}}''),
      relay_config = \<lparr>systemPrompt = None, pricingData = None\<rparr>,
      session_hash = None, selected_account = Some ''account-1'',
      access_token = Some ''token-1'', token_count_reply = CallFailed,
      account_limited = False, key_headers = (\<lambda>kt streaming i out. [])\<rparr>)
        [''data: {"type":"message_start","message":{"model":"m","usage":{"input_tokens":10}}}''
           @ [CHR 0x0A] @ ''data: {"type":"mess'',
         ''age_delta","usage":{"output_tokens":30}}'' @ [CHR 0x0A]])\<close>
proof -
  let ?e = \<open>\<lparr>json_parse =
        [''{"type":"message_start","message":{"model":"m","usage":{"input_tokens":10}}}'' \<mapsto>
           JObj [(''type'', JStr ''message_start''),
                 (''message'', JObj [(''model'', JStr ''m''),
                                     (''usage'', JObj [(''input_tokens'', JNum 10)])])],
         ''{"type":"message_delta","usage":{"output_tokens":30}}'' \<mapsto>
           JObj [(''type'', JStr ''message_delta''),
                 (''usage'', JObj [(''output_tokens'', JNum 30)])]],
      json_stringify =
        (\<lambda>d. if d = JObj [(''type'', JStr ''message_delta''),
                            (''usage'', JObj [(''output_tokens'', JNum 30),
                                              (''input_tokens'', JNum 0)])]
              then ''{"type":"message_delta","usage":{"output_tokens":30,"input_tokens":0}}''
              else ''{"type":"message_start","message":{"model":"m","usage":{"input_tokens":10}}}''),
      relay_config = \<lparr>systemPrompt = None, pricingData = None\<rparr>,
      session_hash = None, selected_account = Some ''account-1'',
      access_token = Some ''token-1'', token_count_reply = CallFailed,
      account_limited = False, key_headers = (\<lambda>kt streaming i out. [])\<rparr>\<close>
  let ?chunks = \<open>[''data: {"type":"message_start","message":{"model":"m","usage":{"input_tokens":10}}}''
           @ [CHR 0x0A] @ ''data: {"type":"mess'',
         ''age_delta","usage":{"output_tokens":30}}'' @ [CHR 0x0A]]\<close>
  let ?run = \<open>relayStreamRequestWithUsageCapture ?e ''2025-01-01T00:00:00.000Z''
     \<lparr>cl_destroyed = False, cl_headersSent = False\<rparr>
     (StreamAnswered 200 []
        [''data: {"type":"message_start","message":{"model":"m","usage":{"input_tokens":10}}}''
           @ [CHR 0x0A] @ ''data: {"type":"mess'',
         ''age_delta","usage":{"output_tokens":30}}'' @ [CHR 0x0A]])
     (JObj [(''model'', JStr ''m''),
            (''messages'', JArr [JObj [(''role'', JStr ''user''), (''content'', JStr ''hi'')]])])
     \<lparr>ak_enableModelRestriction = False, ak_restrictedModels = [], ak_keyType = None\<rparr>
     [(''user-agent'', ''curl/8'')] None\<close>
  have run: \<open>?run = (Inr (),
      [Dispatch
         (JObj [(''model'', JStr ''m''),
            (''messages'', JArr [JObj [(''role'', JStr ''user''), (''content'', JStr ''hi'')]]),
            (''system'', JArr [claudeCodePrompt])]) ''account-1'',
       SetHeaders [],
       Write (''data: {"type":"message_start","message":{"model":"m","usage":{"input_tokens":10}}}''
              @ [CHR 0x0A]),
       Write (''data: {"type":"message_delta","usage":{"output_tokens":30,"input_tokens":0}}''
              @ [CHR 0x0A]),
       UsageEvent
         \<lparr>ud_input_tokens = Some (JNum 10), ud_cache_creation_input_tokens = Some (JNum 0),
          ud_cache_read_input_tokens = Some (JNum 0), ud_model = Some (JStr ''m''),
          ud_output_tokens = Some (JNum 30)\<rparr> ''account-1'',
       EndStream])\<close>
    by code_simp
  have follows: \<open>delta_follows_start (stream_events (json_parse ?e) ?chunks)\<close>
    by code_simp
  have acct: "selected_account ?e = Some ''account-1''" by simp
  from usage_event_at_most_once[of ?e "''2025-01-01T00:00:00.000Z''"
      "\<lparr>cl_destroyed = False, cl_headersSent = False\<rparr>" "StreamAnswered 200 [] ?chunks"]
    run acct follows
  show ?thesis by simp
qed

text \<open>
  C4 as stated fails: a stream answered with 200 that carries a \<^verbatim>\<open>message_start\<close>
  and no \<^verbatim>\<open>message_delta\<close> is relayed to its end without any usage event.
\<close>

theorem usage_event_at_most_once_counterexample:
  \<open>relayStreamRequestWithUsageCapture
     \<lparr>json_parse =
        [''{"type":"message_start","message":{"model":"m","usage":{"input_tokens":10}}}'' \<mapsto>
           JObj [(''type'', JStr ''message_start''),
                 (''message'', JObj [(''model'', JStr ''m''),
                                     (''usage'', JObj [(''input_tokens'', JNum 10)])])]],
      json_stringify =
        (\<lambda>d. ''{"type":"message_start","message":{"model":"m","usage":{"input_tokens":10}}}''),
      relay_config = \<lparr>systemPrompt = None, pricingData = None\<rparr>,
      session_hash = None, selected_account = Some ''account-1'',
      access_token = Some ''token-1'', token_count_reply = CallFailed,
      account_limited = False, key_headers = (\<lambda>kt streaming i out. [])\<rparr>
     ''2025-01-01T00:00:00.000Z''
     \<lparr>cl_destroyed = False, cl_headersSent = False\<rparr>
     (StreamAnswered 200 []
        [''data: {"type":"message_start","message":{"model":"m","usage":{"input_tokens":10}}}''
           @ [CHR 0x0A]])
     (JObj [(''model'', JStr ''m''),
            (''messages'', JArr [JObj [(''role'', JStr ''user''), (''content'', JStr ''hi'')]])])
     \<lparr>ak_enableModelRestriction = False, ak_restrictedModels = [], ak_keyType = None\<rparr>
     [(''user-agent'', ''curl/8'')] None
   = (Inr (),
      [Dispatch
         (JObj [(''model'', JStr ''m''),
            (''messages'', JArr [JObj [(''role'', JStr ''user''), (''content'', JStr ''hi'')]]),
            (''system'', JArr [claudeCodePrompt])]) ''account-1'',
       SetHeaders [],
       Write (''data: {"type":"message_start","message":{"model":"m","usage":{"input_tokens":10}}}''
              @ [CHR 0x0A]),
       EndStream])\<close>
  by code_simp

text \<open>
  C5 at its failing inputs.  In the streaming path an upstream answer with status 429,
  here even with the rate limit phrase in its body, takes the branch for statuses other
  than 200: the error event is written and the promise rejected, and the account is
  not marked.  In the non-streaming path an answer with status 429 whose error message
  lacks the phrase is relayed without marking the account.
\<close>

theorem rate_limit_status_not_marked:
  \<open>relayStreamRequestWithUsageCapture
     \<lparr>json_parse = Map.empty, json_stringify = (\<lambda>d. ''{}''),
      relay_config = \<lparr>systemPrompt = None, pricingData = None\<rparr>,
      session_hash = Some ''session-1'', selected_account = Some ''account-1'',
      access_token = Some ''token-1'', token_count_reply = CallFailed,
      account_limited = False, key_headers = (\<lambda>kt streaming i out. [])\<rparr>
     ''2025-01-01T00:00:00.000Z''
     \<lparr>cl_destroyed = False, cl_headersSent = False\<rparr>
     (StreamAnswered 429 []
        [''{"type":"error","error":{"type":"rate_limit_error","message":"This request would exceed your account's rate limit."}}''])
     (JObj [(''model'', JStr ''m''),
            (''messages'', JArr [JObj [(''role'', JStr ''user''), (''content'', JStr ''hi'')]])])
     \<lparr>ak_enableModelRestriction = False, ak_restrictedModels = [], ak_keyType = None\<rparr>
     [(''user-agent'', ''curl/8'')] None
   = (Inl Rejected,
      [Dispatch
         (JObj [(''model'', JStr ''m''),
            (''messages'', JArr [JObj [(''role'', JStr ''user''), (''content'', JStr ''hi'')]]),
            (''system'', JArr [claudeCodePrompt])]) ''account-1'',
       Write (''event: error'' @ [CHR 0x0A]),
       Write (''data: {}'' @ [CHR 0x0A, CHR 0x0A]),
       EndStream]) \<and>
   relayRequest
     \<lparr>json_parse =
        [''{"type":"error","error":{"type":"rate_limit_error","message":"Too many requests"}}'' \<mapsto>
           JObj [(''type'', JStr ''error''),
                 (''error'', JObj [(''type'', JStr ''rate_limit_error''),
                                   (''message'', JStr ''Too many requests'')])]],
      json_stringify =
        (\<lambda>d. ''{"type":"error","error":{"type":"rate_limit_error","message":"Too many requests"}}''),
      relay_config = \<lparr>systemPrompt = None, pricingData = None\<rparr>,
      session_hash = Some ''session-1'', selected_account = Some ''account-1'',
      access_token = Some ''token-1'', token_count_reply = CallFailed,
      account_limited = False, key_headers = (\<lambda>kt streaming i out. [])\<rparr>
     (Answered 429 []
        ''{"type":"error","error":{"type":"rate_limit_error","message":"Too many requests"}}'')
     (JObj [(''model'', JStr ''m''),
            (''messages'', JArr [JObj [(''role'', JStr ''user''), (''content'', JStr ''hi'')]])])
     \<lparr>ak_enableModelRestriction = False, ak_restrictedModels = [], ak_keyType = None\<rparr>
     [(''user-agent'', ''curl/8'')]
   = (Inr (Relayed
        \<lparr>rs_statusCode = 429, rs_headers = [],
         rs_body = ''{"type":"error","error":{"type":"rate_limit_error","message":"Too many requests"}}'',
         rs_accountId = Some ''account-1''\<rparr>),
      [Dispatch
         (JObj [(''model'', JStr ''m''),
            (''messages'', JArr [JObj [(''role'', JStr ''user''), (''content'', JStr ''hi'')]]),
            (''system'', JArr [claudeCodePrompt])]) ''account-1''])\<close>
  by code_simp

end
